(* ===== verification/Prelude.thy ===== *)
theory Prelude
  imports Main "HOL-Library.Word"
begin

unbundle bit_operations_syntax

text \<open>
  Shared vocabulary of the development. It holds: the machine types of the library
  (bytes, 16-bit words, packets); the outcome of a C++ computation (a value, an
  exception, or undefined behaviour) and the small state-and-exception monad in which
  the methods of the code are written, with the rewrite rules that run it; the
  big-endian view of a 16-bit word as two bytes; and the list lemmas (slices,
  in-place overwriting, \<open>std::vector::resize\<close>) that the components share.
\<close>

named_theorems act_simps \<open>rules that run the state-and-exception monad\<close>
named_theorems codec_simps \<open>rules that evaluate the byte codec\<close>

section \<open>Machine types\<close>

type_synonym byte = "8 word"
type_synonym u16 = "16 word"
type_synonym packet_t = "byte list"

section \<open>Outcomes and actions\<close>

text \<open>
  A C++ computation ends normally, with an exception, or it has run into undefined
  behaviour (a read or write outside an object). No \<open>catch\<close> clause sees the last one.
\<close>

datatype ('e, 'a) outcome = Ok 'a | Throw 'e | Undefined

primrec bind_outcome :: "('e, 'a) outcome \<Rightarrow> ('a \<Rightarrow> ('e, 'b) outcome) \<Rightarrow> ('e, 'b) outcome" where
  "bind_outcome (Ok a) f = f a"
| "bind_outcome (Throw e) f = Throw e"
| "bind_outcome Undefined f = Undefined"

text \<open>
  A method of an object: it runs on the object's state and returns an outcome together
  with the state it leaves behind, also when it throws.
\<close>

type_synonym ('s, 'e, 'a) act = "'s \<Rightarrow> ('e, 'a) outcome \<times> 's"

definition return_act :: "'a \<Rightarrow> ('s, 'e, 'a) act" where
  "return_act a s = (Ok a, s)"

definition raise_act :: "('s \<Rightarrow> 'e) \<Rightarrow> ('s, 'e, 'a) act" where
  "raise_act e s = (Throw (e s), s)"

definition gets_act :: "('s \<Rightarrow> 'a) \<Rightarrow> ('s, 'e, 'a) act" where
  "gets_act f s = (Ok (f s), s)"

definition modify_act :: "('s \<Rightarrow> 's) \<Rightarrow> ('s, 'e, unit) act" where
  "modify_act f s = (Ok (), f s)"

definition lift_act :: "('s \<Rightarrow> ('e, 'a) outcome) \<Rightarrow> ('s, 'e, 'a) act" where
  "lift_act f s = (f s, s)"

definition bind_act :: "('s, 'e, 'a) act \<Rightarrow> ('a \<Rightarrow> ('s, 'e, 'b) act) \<Rightarrow> ('s, 'e, 'b) act" where
  "bind_act m f s =
     (case m s of
        (Ok a, t) \<Rightarrow> f a t
      | (Throw e, t) \<Rightarrow> (Throw e, t)
      | (Undefined, t) \<Rightarrow> (Undefined, t))"

definition then_act :: "('s, 'e, unit) act \<Rightarrow> ('s, 'e, 'b) act \<Rightarrow> ('s, 'e, 'b) act" where
  "then_act m k = bind_act m (\<lambda>_. k)"

text \<open>\<open>if (b s) throw e;\<close>\<close>

definition throw_if :: "('s \<Rightarrow> bool) \<Rightarrow> ('s \<Rightarrow> 'e) \<Rightarrow> ('s, 'e, unit) act" where
  "throw_if b e s = (if b s then (Throw (e s), s) else (Ok (), s))"

text \<open>
  \<open>try \<dots> catch\<close>: the handler sees the exception and the state in which it was thrown.
\<close>

definition try_act :: "('s, 'e, 'a) act \<Rightarrow> ('e \<Rightarrow> ('s, 'e, 'a) act) \<Rightarrow> ('s, 'e, 'a) act" where
  "try_act m h s =
     (case m s of
        (Ok a, t) \<Rightarrow> (Ok a, t)
      | (Throw e, t) \<Rightarrow> h e t
      | (Undefined, t) \<Rightarrow> (Undefined, t))"

declare return_act_def [act_simps] raise_act_def [act_simps] gets_act_def [act_simps]
  modify_act_def [act_simps] lift_act_def [act_simps] throw_if_def [act_simps]
  then_act_def [act_simps] bind_act_def [act_simps] try_act_def [act_simps]

lemma bind_act_return [simp]: "bind_act (return_act a) f = f a"
  by (rule ext) (simp add: act_simps)

lemma bind_act_assoc: "bind_act (bind_act m f) g = bind_act m (\<lambda>x. bind_act (f x) g)"
  by (rule ext) (simp add: act_simps split: prod.split outcome.split)

lemma try_act_return [simp]: "try_act (return_act a) h = return_act a"
  by (rule ext) (simp add: act_simps)

lemma bind_outcome_eq_Ok [simp]:
  "bind_outcome m f = Ok b \<longleftrightarrow> (\<exists>a. m = Ok a \<and> f a = Ok b)"
  by (cases m) auto

section \<open>Sixteen-bit words as two bytes\<close>

definition hi_byte :: "u16 \<Rightarrow> byte" where
  "hi_byte w = ucast (drop_bit 8 w)"

definition lo_byte :: "u16 \<Rightarrow> byte" where
  "lo_byte w = ucast w"

definition u16_of_bytes :: "byte \<Rightarrow> byte \<Rightarrow> u16" where
  "u16_of_bytes h l = word_of_nat (unat h * 256 + unat l)"

lemma unat_byte_less [simp]: "unat (b :: byte) < 256"
  using unsigned_less [of b] by simp

lemma unat_u16_less [simp]: "unat (w :: u16) < 65536"
  using unsigned_less [of w] by simp

lemma unat_u16_div_less [simp]: "unat (w :: u16) div 256 < 256"
  using unat_u16_less [of w] by linarith

lemma unat_of_nat_byte: "unat (word_of_nat n :: byte) = n mod 256"
  by (simp only: unsigned_of_nat) (simp add: take_bit_eq_mod)

lemma unat_of_nat_u16: "unat (word_of_nat n :: u16) = n mod 65536"
  by (simp only: unsigned_of_nat) (simp add: take_bit_eq_mod)

lemma unat_hi_byte: "unat (hi_byte w) = unat w div 256"
proof -
  have "unat (hi_byte w) = take_bit 8 (drop_bit 8 (unat w))"
    by (simp only: hi_byte_def unsigned_ucast_eq unat_drop_bit_eq) simp
  also have "\<dots> = unat w div 256"
    by (simp add: drop_bit_eq_div take_bit_eq_mod)
  finally show ?thesis .
qed

lemma unat_lo_byte: "unat (lo_byte w) = unat w mod 256"
  by (simp only: lo_byte_def unsigned_ucast_eq) (simp add: take_bit_eq_mod)

lemma unat_u16_of_bytes: "unat (u16_of_bytes h l) = unat h * 256 + unat l"
proof -
  have "unat h * 256 + unat l < 65536"
    using unat_byte_less [of h] unat_byte_less [of l] by linarith
  then show ?thesis
    by (simp only: u16_of_bytes_def unat_of_nat_u16) simp
qed

lemma u16_of_hi_lo [simp]: "u16_of_bytes (hi_byte w) (lo_byte w) = w"
  by (rule word_unat_eq_iff [THEN iffD2])
    (simp add: unat_u16_of_bytes unat_hi_byte unat_lo_byte)

lemma hi_byte_u16 [simp]: "hi_byte (u16_of_bytes h l) = h"
  by (rule word_unat_eq_iff [THEN iffD2]) (simp add: unat_u16_of_bytes unat_hi_byte)

lemma lo_byte_u16 [simp]: "lo_byte (u16_of_bytes h l) = l"
  by (rule word_unat_eq_iff [THEN iffD2]) (simp add: unat_u16_of_bytes unat_lo_byte)

lemma word_eq_of_unat: "unat (w :: u16) = n \<Longrightarrow> w = word_of_nat n"
  by (drule sym) simp

lemma word_of_nat_hi: "(word_of_nat (unat (w :: u16) div 256) :: byte) = hi_byte w"
  by (rule word_unat_eq_iff [THEN iffD2])
    (simp only: unat_of_nat_byte unat_hi_byte, simp)

lemma word_of_nat_lo: "(word_of_nat (unat (w :: u16)) :: byte) = lo_byte w"
  by (rule word_unat_eq_iff [THEN iffD2]) (simp only: unat_of_nat_byte unat_lo_byte)

section \<open>Vectors\<close>

text \<open>\<open>std::vector::resize(n)\<close>: cut, or filled up with value-initialised elements.\<close>

definition vector_resize :: "'a \<Rightarrow> nat \<Rightarrow> 'a list \<Rightarrow> 'a list" where
  "vector_resize z n xs = take n xs @ replicate (n - length xs) z"

lemma length_vector_resize [simp]: "length (vector_resize z n xs) = n"
  by (simp add: vector_resize_def)

lemma vector_resize_same [simp]: "length xs = n \<Longrightarrow> vector_resize z n xs = xs"
  by (simp add: vector_resize_def)

lemma nth_vector_resize: "i < n \<Longrightarrow> vector_resize z n xs ! i = (if i < length xs then xs ! i else z)"
  by (simp add: vector_resize_def nth_append min_def)

lemma vector_resize_padded: "vector_resize z n (xs @ replicate m z) = vector_resize z n xs"
  by (rule nth_equalityI) (auto simp: nth_vector_resize nth_append)

text \<open>Copying \<open>ys\<close> over the elements of \<open>xs\<close> from position \<open>i\<close> on.\<close>

definition overwrite :: "nat \<Rightarrow> 'a list \<Rightarrow> 'a list \<Rightarrow> 'a list" where
  "overwrite i ys xs = take i xs @ ys @ drop (i + length ys) xs"

lemma length_overwrite [simp]:
  "i + length ys \<le> length xs \<Longrightarrow> length (overwrite i ys xs) = length xs"
  by (simp add: overwrite_def)

lemma nth_overwrite:
  assumes "i + length ys \<le> length xs" "k < length xs"
  shows "overwrite i ys xs ! k = (if i \<le> k \<and> k < i + length ys then ys ! (k - i) else xs ! k)"
  using assms by (auto simp: overwrite_def nth_append min_def)

lemma overwrite_single: "i < length xs \<Longrightarrow> overwrite i [y] xs = xs[i := y]"
  by (simp add: overwrite_def upd_conv_take_nth_drop)

text \<open>The elements between two positions.\<close>

definition slice :: "nat \<Rightarrow> nat \<Rightarrow> 'a list \<Rightarrow> 'a list" where
  "slice i n xs = take n (drop i xs)"

lemma length_slice [simp]: "i + n \<le> length xs \<Longrightarrow> length (slice i n xs) = n"
  by (simp add: slice_def)

lemma nth_slice: "i + n \<le> length xs \<Longrightarrow> k < n \<Longrightarrow> slice i n xs ! k = xs ! (i + k)"
  by (simp add: slice_def)

lemma slice_overwrite_same:
  "i + length ys \<le> length xs \<Longrightarrow> slice i (length ys) (overwrite i ys xs) = ys"
  by (simp add: slice_def overwrite_def)

end
