(* ===== verification/Programs.thy ===== *)
theory Programs
  imports Prelude
begin

text \<open>
  Programs that share a store. A program is finished, or it waits to make its next access to
  the store, which is indivisible; what it does between two accesses is local to it. Programs
  are built from the same pieces as actions: an object of their own, outcomes, exceptions and
  their handlers. Run alone, a program is an action (\<open>alone\<close>); a pool of programs runs
  interleaved (\<open>pool_step\<close>). \<open>guarantees\<close> says what a program does to the store and ends
  with, whatever others do in between; \<open>within\<close> bounds its accesses.
\<close>

named_theorems alone_simps \<open>rules that run programs alone\<close>
named_theorems prog_simps \<open>rules that bring programs to their next access\<close>

section \<open>Programs\<close>

datatype ('s, 'a) prog = Done 'a | Access "'s \<Rightarrow> ('s, 'a) prog \<times> 's"

primrec run_prog :: "('s, 'a) prog \<Rightarrow> 's \<Rightarrow> 'a \<times> 's" where
  "run_prog (Done a) = (\<lambda>s. (a, s))"
| "run_prog (Access k) = (\<lambda>s. case map_prod run_prog id (k s) of (r, t) \<Rightarrow> r t)"

primrec bind_prog :: "('s, 'a) prog \<Rightarrow> ('a \<Rightarrow> ('s, 'b) prog) \<Rightarrow> ('s, 'b) prog" where
  "bind_prog (Done a) f = f a"
| "bind_prog (Access k) f = Access (\<lambda>s. map_prod (\<lambda>p. bind_prog p f) id (k s))"

lemma prog_induct [case_names Done Access, induct type: prog]:
  assumes "\<And>a. P (Done a)" "\<And>k. (\<And>s. P (fst (k s))) \<Longrightarrow> P (Access k)"
  shows "P p"
proof (induction p rule: prog.induct)
  case (Access k)
  have "P (fst (k s))" for s
    by (rule Access [of "k s"]) (auto simp: fsts.simps prod_eq_iff)
  then show ?case by (rule assms(2))
qed (rule assms(1))

lemma run_Access: "run_prog (Access k) s = run_prog (fst (k s)) (snd (k s))"
  by (simp add: split_beta)

lemma run_bind_prog [simp]:
  "run_prog (bind_prog p f) s = (case run_prog p s of (a, t) \<Rightarrow> run_prog (f a) t)"
  by (induction p arbitrary: s) (simp_all add: run_Access del: run_prog.simps(2))

lemma bind_prog_assoc: "bind_prog (bind_prog p f) g = bind_prog p (\<lambda>a. bind_prog (f a) g)"
  by (induction p) (simp_all add: fun_eq_iff prod_eq_iff)

section \<open>Programs with an object of their own\<close>

type_synonym ('s, 'o, 'e, 'a) shared_act = "'o \<Rightarrow> ('s, ('e, 'a) outcome \<times> 'o) prog"

definition local_act :: "('o, 'e, 'a) act \<Rightarrow> ('s, 'o, 'e, 'a) shared_act" where
  "local_act m r = Done (m r)"

definition read_shared :: "('o \<Rightarrow> 's \<Rightarrow> ('e, 'a) outcome) \<Rightarrow> ('s, 'o, 'e, 'a) shared_act" where
  "read_shared q r = Access (\<lambda>s. (Done (q r s, r), s))"

definition write_shared :: "('o \<Rightarrow> 's \<Rightarrow> ('e, 's) outcome) \<Rightarrow> ('s, 'o, 'e, unit) shared_act" where
  "write_shared u r = Access (\<lambda>s.
     case u r s of
       Ok t \<Rightarrow> (Done (Ok (), r), t)
     | Throw e \<Rightarrow> (Done (Throw e, r), s)
     | Undefined \<Rightarrow> (Done (Undefined, r), s))"

definition bind_shared ::
    "('s, 'o, 'e, 'a) shared_act \<Rightarrow> ('a \<Rightarrow> ('s, 'o, 'e, 'b) shared_act) \<Rightarrow> ('s, 'o, 'e, 'b) shared_act"
  where
  "bind_shared m f r =
     bind_prog (m r) (\<lambda>(x, r').
       case x of Ok a \<Rightarrow> f a r' | Throw e \<Rightarrow> Done (Throw e, r') | Undefined \<Rightarrow> Done (Undefined, r'))"

definition then_shared ::
    "('s, 'o, 'e, unit) shared_act \<Rightarrow> ('s, 'o, 'e, 'b) shared_act \<Rightarrow> ('s, 'o, 'e, 'b) shared_act" where
  "then_shared m k = bind_shared m (\<lambda>_. k)"

definition try_shared ::
    "('s, 'o, 'e, 'a) shared_act \<Rightarrow> ('e \<Rightarrow> ('s, 'o, 'e, 'a) shared_act) \<Rightarrow> ('s, 'o, 'e, 'a) shared_act"
  where
  "try_shared m h r =
     bind_prog (m r) (\<lambda>(x, r').
       case x of Ok a \<Rightarrow> Done (Ok a, r') | Throw e \<Rightarrow> h e r' | Undefined \<Rightarrow> Done (Undefined, r'))"

text \<open>A program run without interruption, as an action on its object and the store.\<close>

definition alone :: "('s, 'o, 'e, 'a) shared_act \<Rightarrow> ('o \<times> 's, 'e, 'a) act" where
  "alone m rs = (case run_prog (m (fst rs)) (snd rs) of ((x, r), t) \<Rightarrow> (x, (r, t)))"

lemma alone_local [alone_simps]:
  "alone (local_act m) = (\<lambda>(r, s). case m r of (x, r') \<Rightarrow> (x, (r', s)))"
  by (auto simp: alone_def local_act_def fun_eq_iff)

lemma alone_read: "alone (read_shared q) = lift_act (\<lambda>(r, s). q r s)"
  by (auto simp: alone_def read_shared_def lift_act_def fun_eq_iff)

lemma alone_write:
  "alone (write_shared u) = (\<lambda>(r, s). case u r s of
     Ok t \<Rightarrow> (Ok (), (r, t)) | Throw e \<Rightarrow> (Throw e, (r, s)) | Undefined \<Rightarrow> (Undefined, (r, s)))"
  by (auto simp: alone_def write_shared_def fun_eq_iff split: outcome.split)

lemma alone_bind [alone_simps]: "alone (bind_shared m f) = bind_act (alone m) (\<lambda>a. alone (f a))"
  by (auto simp: alone_def bind_shared_def bind_act_def fun_eq_iff split: prod.split outcome.split)

lemma alone_then [alone_simps]: "alone (then_shared m k) = then_act (alone m) (alone k)"
  by (simp add: then_shared_def then_act_def alone_bind)

lemma alone_try [alone_simps]: "alone (try_shared m h) = try_act (alone m) (\<lambda>e. alone (h e))"
  by (auto simp: alone_def try_shared_def try_act_def fun_eq_iff split: prod.split outcome.split)

text \<open>A program up to its next access.\<close>

lemma bind_shared_local [prog_simps]:
  "bind_shared (local_act m) f r =
     (case m r of
        (Ok a, r') \<Rightarrow> f a r'
      | (Throw e, r') \<Rightarrow> Done (Throw e, r')
      | (Undefined, r') \<Rightarrow> Done (Undefined, r'))"
  by (auto simp: bind_shared_def local_act_def split: prod.split outcome.split)

lemma bind_shared_read [prog_simps]:
  "bind_shared (read_shared q) f r = Access (\<lambda>s.
     (case q r s of Ok a \<Rightarrow> f a r | Throw e \<Rightarrow> Done (Throw e, r) | Undefined \<Rightarrow> Done (Undefined, r), s))"
  by (auto simp: bind_shared_def read_shared_def fun_eq_iff split: outcome.split)

lemma bind_shared_write [prog_simps]:
  "bind_shared (write_shared u) f r = Access (\<lambda>s.
     case u r s of
       Ok t \<Rightarrow> (f () r, t)
     | Throw e \<Rightarrow> (Done (Throw e, r), s)
     | Undefined \<Rightarrow> (Done (Undefined, r), s))"
  by (auto simp: bind_shared_def write_shared_def fun_eq_iff split: outcome.split)

lemma bind_shared_assoc:
  "bind_shared (bind_shared m f) g = bind_shared m (\<lambda>a. bind_shared (f a) g)"
  by (auto simp: bind_shared_def fun_eq_iff bind_prog_assoc intro!: arg_cong2 [where f = bind_prog]
      split: prod.split outcome.split)

declare then_shared_def [prog_simps] try_shared_def [prog_simps]

section \<open>What a program guarantees\<close>

text \<open>
  \<open>guarantees I Q p\<close>: as long as the others keep \<open>I\<close>, the program keeps it at every access,
  and what it ends with satisfies \<open>Q\<close>.
\<close>

inductive guarantees :: "('s \<Rightarrow> bool) \<Rightarrow> ('a \<Rightarrow> bool) \<Rightarrow> ('s, 'a) prog \<Rightarrow> bool" for I Q where
  guarantees_Done: "Q a \<Longrightarrow> guarantees I Q (Done a)"
| guarantees_Access: "(\<And>s. I s \<Longrightarrow> I (snd (k s)) \<and> guarantees I Q (fst (k s))) \<Longrightarrow>
    guarantees I Q (Access k)"

inductive_simps guarantees_Done_iff [simp]: "guarantees I Q (Done a)"
inductive_simps guarantees_Access_iff: "guarantees I Q (Access k)"

lemma guarantees_weaken: "guarantees I Q p \<Longrightarrow> (\<And>a. Q a \<Longrightarrow> Q' a) \<Longrightarrow> guarantees I Q' p"
  by (induction rule: guarantees.induct) (auto intro: guarantees.intros)

lemma guarantees_bind:
  "guarantees I Q p \<Longrightarrow> (\<And>a. Q a \<Longrightarrow> guarantees I Q' (f a)) \<Longrightarrow> guarantees I Q' (bind_prog p f)"
  by (induction rule: guarantees.induct) (auto intro: guarantees.intros)

lemma guarantees_run:
  "guarantees I Q p \<Longrightarrow> I s \<Longrightarrow> Q (fst (run_prog p s)) \<and> I (snd (run_prog p s))"
  by (induction arbitrary: s rule: guarantees.induct) (auto simp: run_Access simp del: run_prog.simps(2))

text \<open>A program that never changes the store.\<close>

primrec only_reads :: "('s, 'a) prog \<Rightarrow> bool" where
  "only_reads (Done a) = True"
| "only_reads (Access k) =
     (\<forall>s. snd (k s) = s \<and> (case map_prod only_reads id (k s) of (b, _) \<Rightarrow> b))"

lemma only_reads_Access [simp]:
  "only_reads (Access k) \<longleftrightarrow> (\<forall>s. snd (k s) = s \<and> only_reads (fst (k s)))"
  by (simp add: split_beta)

lemma only_reads_bind: "only_reads p \<Longrightarrow> (\<And>a. only_reads (f a)) \<Longrightarrow> only_reads (bind_prog p f)"
  by (induction p) (auto simp del: only_reads.simps(2))

lemma only_reads_guarantees:
  "only_reads p \<Longrightarrow> guarantees (\<lambda>s. s = s0) (\<lambda>a. a = fst (run_prog p s0)) p"
  by (induction p) (auto simp: guarantees_Access_iff run_Access simp del: only_reads.simps(2) run_prog.simps(2))

section \<open>How many accesses a program makes\<close>

fun within :: "nat \<Rightarrow> ('s, 'a) prog \<Rightarrow> bool" where
  "within n (Done a) = True"
| "within 0 (Access k) = False"
| "within (Suc n) (Access k) = (\<forall>s. within n (fst (k s)))"

lemma within_mono: "within m p \<Longrightarrow> m \<le> n \<Longrightarrow> within n p"
proof (induction m p arbitrary: n rule: within.induct)
  case (3 m k)
  then show ?case by (cases n) auto
qed simp_all

lemma within_bind: "within m p \<Longrightarrow> (\<And>a. within n (f a)) \<Longrightarrow> within (m + n) (bind_prog p f)"
proof (induction m p rule: within.induct)
  case (1 m a)
  then show ?case using within_mono [of n "f a" "m + n"] by simp
qed auto

section \<open>Pools of programs\<close>

type_synonym ('s, 'a) pool = "'s \<times> ('s, 'a) prog list"

inductive pool_step :: "('s, 'a) pool \<Rightarrow> ('s, 'a) pool \<Rightarrow> bool" where
  pool_access: "i < length ps \<Longrightarrow> ps ! i = Access k \<Longrightarrow> pool_step (s, ps) (snd (k s), ps[i := fst (k s)])"

inductive_cases pool_stepE: "pool_step (s, ps) (t, qs)"

abbreviation pool_steps :: "('s, 'a) pool \<Rightarrow> ('s, 'a) pool \<Rightarrow> bool" where
  "pool_steps \<equiv> pool_step\<^sup>*\<^sup>*"

definition pool_done :: "('s, 'a) prog list \<Rightarrow> bool" where
  "pool_done ps \<longleftrightarrow> (\<forall>p \<in> set ps. \<exists>a. p = Done a)"

text \<open>Every interleaving keeps what all the programs guarantee.\<close>

definition pool_guarantees ::
    "('s \<Rightarrow> bool) \<Rightarrow> (nat \<Rightarrow> 'a \<Rightarrow> bool) \<Rightarrow> ('s, 'a) pool \<Rightarrow> bool" where
  "pool_guarantees I Q c \<longleftrightarrow>
     I (fst c) \<and> (\<forall>i < length (snd c). guarantees I (Q i) (snd c ! i))"

lemma pool_step_guarantees:
  "pool_step c d \<Longrightarrow> pool_guarantees I Q c \<Longrightarrow> pool_guarantees I Q d"
proof (induction rule: pool_step.induct)
  case (pool_access i ps k s)
  then have "guarantees I (Q i) (Access k)" "I s" by (auto simp: pool_guarantees_def)
  then show ?case
    using pool_access by (auto simp: pool_guarantees_def guarantees_Access_iff nth_list_update)
qed

lemma pool_steps_guarantees:
  "pool_steps c d \<Longrightarrow> pool_guarantees I Q c \<Longrightarrow> pool_guarantees I Q d"
  by (induction rule: rtranclp_induct) (auto intro: pool_step_guarantees)

lemma pool_step_length: "pool_step c d \<Longrightarrow> length (snd d) = length (snd c)"
  by (induction rule: pool_step.induct) simp

lemma pool_steps_length: "pool_steps c d \<Longrightarrow> length (snd d) = length (snd c)"
  by (induction rule: rtranclp_induct) (auto dest: pool_step_length)

text \<open>The order of the programs in a pool does not matter.\<close>

lemma pool_step_rev:
  "pool_step c d \<Longrightarrow> pool_step (fst c, rev (snd c)) (fst d, rev (snd d))"
proof (induction rule: pool_step.induct)
  case (pool_access i ps k s)
  then show ?case
    using pool_step.intros [of "length ps - Suc i" "rev ps" k s]
    by (simp add: rev_nth rev_update)
qed

lemma pool_steps_rev:
  "pool_steps c d \<Longrightarrow> pool_steps (fst c, rev (snd c)) (fst d, rev (snd d))"
  by (induction rule: rtranclp_induct)
    (auto dest: pool_step_rev intro: rtranclp.rtrancl_into_rtrancl)

text \<open>A pool can go on until all its programs are done, and it comes to that.\<close>

lemma pool_progress: "\<not> pool_done ps \<Longrightarrow> \<exists>d. pool_step (s, ps) d"
proof -
  assume "\<not> pool_done ps"
  then obtain i where "i < length ps" "\<nexists>a. ps ! i = Done a"
    by (auto simp: pool_done_def in_set_conv_nth)
  moreover from this(2) obtain k where "ps ! i = Access k" by (cases "ps ! i") auto
  ultimately show ?thesis by (blast intro: pool_access)
qed

lemma pool_step_within:
  assumes "pool_step c d" "list_all2 within ns (snd c)"
  shows "\<exists>ms. list_all2 within ms (snd d) \<and> sum_list ms < sum_list ns"
  using assms
proof (induction rule: pool_step.induct)
  case (pool_access i ps k s)
  then have i: "i < length ns" "within (ns ! i) (Access k)"
    by (auto simp: list_all2_conv_all_nth)
  then obtain m where m: "ns ! i = Suc m" by (cases "ns ! i") auto
  with pool_access i have "list_all2 within (ns[i := m]) (ps[i := fst (k s)])"
    by (auto simp: list_all2_conv_all_nth nth_list_update)
  moreover have "sum_list (ns[i := m]) < sum_list ns"
    using i(1) m elem_le_sum_list [of i ns] by (simp add: sum_list_update)
  ultimately show ?case by auto
qed

lemma pool_steps_within:
  "(pool_step ^^ n) c d \<Longrightarrow> list_all2 within ns (snd c) \<Longrightarrow> n \<le> sum_list ns"
proof (induction n arbitrary: c ns)
  case (Suc n)
  then obtain b where "pool_step c b" "(pool_step ^^ n) b d" by (metis relpowp_Suc_E2)
  with Suc.prems obtain ms where "list_all2 within ms (snd b)" "sum_list ms < sum_list ns"
    using pool_step_within by blast
  with Suc.IH [OF \<open>(pool_step ^^ n) b d\<close>] show ?case by fastforce
qed simp

lemma pool_steps_stay_within:
  "pool_steps c d \<Longrightarrow> list_all2 within ns (snd c) \<Longrightarrow> \<exists>ms. list_all2 within ms (snd d)"
  by (induction rule: rtranclp_induct) (blast dest: pool_step_within)+

lemma pool_terminates:
  assumes "list_all2 within ns (snd c)"
  shows "\<exists>d. pool_steps c d \<and> pool_done (snd d)"
  using assms
proof (induction "sum_list ns" arbitrary: c ns rule: less_induct)
  case less
  show ?case
  proof (cases "pool_done (snd c)")
    case False
    then obtain b where b: "pool_step c b"
      using pool_progress [of "snd c" "fst c"] by auto
    with less.prems obtain ms where "list_all2 within ms (snd b)" "sum_list ms < sum_list ns"
      using pool_step_within by blast
    with less.hyps b show ?thesis by (meson converse_rtranclp_into_rtranclp)
  qed blast
qed

text \<open>One of the interleavings is to run the programs one after the other.\<close>

lemma pool_runs_one:
  "pool_steps (s, xs @ p # ys) (snd (run_prog p s), xs @ Done (fst (run_prog p s)) # ys)"
proof (induction p arbitrary: s)
  case (Access k)
  have "pool_step (s, xs @ Access k # ys) (snd (k s), xs @ fst (k s) # ys)"
    using pool_access [of "length xs" "xs @ Access k # ys" k s] by simp
  with Access [of "snd (k s)" s] show ?case
    by (simp add: run_Access converse_rtranclp_into_rtranclp del: run_prog.simps(2))
qed simp

primrec run_all :: "('s, 'a) prog list \<Rightarrow> 's \<Rightarrow> 'a list \<times> 's" where
  "run_all [] s = ([], s)"
| "run_all (p # ps) s =
     (case run_prog p s of (a, t) \<Rightarrow> case run_all ps t of (as, u) \<Rightarrow> (a # as, u))"

lemma pool_runs_all:
  "pool_steps (s, xs @ ps) (snd (run_all ps s), xs @ map Done (fst (run_all ps s)))"
proof (induction ps arbitrary: s xs)
  case (Cons p ps)
  let ?a = "fst (run_prog p s)" and ?t = "snd (run_prog p s)"
  have "pool_steps (s, xs @ p # ps) (?t, (xs @ [Done ?a]) @ ps)"
    using pool_runs_one [of s xs p ps] by simp
  also have "pool_steps \<dots> (snd (run_all ps ?t), (xs @ [Done ?a]) @ map Done (fst (run_all ps ?t)))"
    by (rule Cons)
  finally show ?case by (simp add: split_beta)
qed simp

end
