(* ===== verification/Modbus_Constants.thy ===== *)
theory Modbus_Constants
  imports Prelude
begin

text \<open>
  The enumerations and protocol constants of \<open>constants.hpp\<close>. A C++ \<open>enum class\<close> with
  a fixed underlying type may hold any value of that type, so each enumeration has its
  source's enumerators and one constructor for a value that no enumerator names; a
  \<open>static_cast\<close> from the underlying type never builds that constructor on a named value
  (\<open>function_code_of_byte_underlying\<close>).
\<close>

section \<open>Function codes\<close>

datatype function_code =
    fc_min
  | read_coils
  | read_discrete_inputs
  | read_holding_registers
  | read_input_registers
  | write_single_coil
  | write_single_register
  | read_exception_status
  | diagnostics
  | write_multiple_coils
  | write_multiple_registers
  | read_file_record
  | write_file_record
  | mask_write_register
  | read_write_multiple_registers
  | read_fifo_queue
  | encapsulated_interface_transport
  | fc_max
  | fc_unnamed byte

primrec function_underlying :: "function_code \<Rightarrow> byte" where
  "function_underlying fc_min = 0x00"
| "function_underlying read_coils = 0x01"
| "function_underlying read_discrete_inputs = 0x02"
| "function_underlying read_holding_registers = 0x03"
| "function_underlying read_input_registers = 0x04"
| "function_underlying write_single_coil = 0x05"
| "function_underlying write_single_register = 0x06"
| "function_underlying read_exception_status = 0x07"
| "function_underlying diagnostics = 0x08"
| "function_underlying write_multiple_coils = 0x0F"
| "function_underlying write_multiple_registers = 0x10"
| "function_underlying read_file_record = 0x14"
| "function_underlying write_file_record = 0x15"
| "function_underlying mask_write_register = 0x16"
| "function_underlying read_write_multiple_registers = 0x17"
| "function_underlying read_fifo_queue = 0x18"
| "function_underlying encapsulated_interface_transport = 0x2B"
| "function_underlying fc_max = 0x2C"
| "function_underlying (fc_unnamed b) = b"

text \<open>\<open>static_cast<constants::function_code>(b)\<close>\<close>

definition function_code_of_byte :: "byte \<Rightarrow> function_code" where
  "function_code_of_byte b =
    (if b = 0x00 then fc_min else if b = 0x01 then read_coils
     else if b = 0x02 then read_discrete_inputs else if b = 0x03 then read_holding_registers
     else if b = 0x04 then read_input_registers else if b = 0x05 then write_single_coil
     else if b = 0x06 then write_single_register else if b = 0x07 then read_exception_status
     else if b = 0x08 then diagnostics else if b = 0x0F then write_multiple_coils
     else if b = 0x10 then write_multiple_registers else if b = 0x14 then read_file_record
     else if b = 0x15 then write_file_record else if b = 0x16 then mask_write_register
     else if b = 0x17 then read_write_multiple_registers else if b = 0x18 then read_fifo_queue
     else if b = 0x2B then encapsulated_interface_transport else if b = 0x2C then fc_max
     else fc_unnamed b)"

lemma function_code_of_byte_underlying [simp]:
  "function_underlying (function_code_of_byte b) = b"
  by (simp add: function_code_of_byte_def)

text \<open>The enumerator is named: the value of every object the code itself creates.\<close>

definition fc_named :: "function_code \<Rightarrow> bool" where
  "fc_named f \<longleftrightarrow> function_code_of_byte (function_underlying f) = f"

lemma fc_named_cast [simp]: "fc_named (function_code_of_byte b)"
  by (simp add: fc_named_def)

section \<open>Exception codes\<close>

datatype exception_code =
    ec_min
  | illegal_function
  | illegal_data_address
  | illegal_data_value
  | server_device_failure
  | acknowledge
  | server_device_busy
  | negative_acknowledge
  | memory_parity_error
  | ec_undef
  | gateway_path_unavailable
  | gateway_target_device_failed_to_respond
  | bad_data
  | bad_data_size
  | connection_problem
  | bad_exception
  | no_exception
  | ec_max
  | ec_unnamed byte

primrec exception_underlying :: "exception_code \<Rightarrow> byte" where
  "exception_underlying ec_min = 0x00"
| "exception_underlying illegal_function = 0x01"
| "exception_underlying illegal_data_address = 0x02"
| "exception_underlying illegal_data_value = 0x03"
| "exception_underlying server_device_failure = 0x04"
| "exception_underlying acknowledge = 0x05"
| "exception_underlying server_device_busy = 0x06"
| "exception_underlying negative_acknowledge = 0x07"
| "exception_underlying memory_parity_error = 0x08"
| "exception_underlying ec_undef = 0x09"
| "exception_underlying gateway_path_unavailable = 0x0A"
| "exception_underlying gateway_target_device_failed_to_respond = 0x0B"
| "exception_underlying bad_data = 0x0C"
| "exception_underlying bad_data_size = 0x0D"
| "exception_underlying connection_problem = 0x0E"
| "exception_underlying bad_exception = 0x0F"
| "exception_underlying no_exception = 0x10"
| "exception_underlying ec_max = 0x11"
| "exception_underlying (ec_unnamed b) = b"

text \<open>\<open>static_cast<constants::exception_code>(b)\<close>\<close>

definition exception_code_of_byte :: "byte \<Rightarrow> exception_code" where
  "exception_code_of_byte b =
    (if b = 0x00 then ec_min else if b = 0x01 then illegal_function
     else if b = 0x02 then illegal_data_address else if b = 0x03 then illegal_data_value
     else if b = 0x04 then server_device_failure else if b = 0x05 then acknowledge
     else if b = 0x06 then server_device_busy else if b = 0x07 then negative_acknowledge
     else if b = 0x08 then memory_parity_error else if b = 0x09 then ec_undef
     else if b = 0x0A then gateway_path_unavailable
     else if b = 0x0B then gateway_target_device_failed_to_respond
     else if b = 0x0C then bad_data else if b = 0x0D then bad_data_size
     else if b = 0x0E then connection_problem else if b = 0x0F then bad_exception
     else if b = 0x10 then no_exception else if b = 0x11 then ec_max
     else ec_unnamed b)"

lemma exception_code_of_byte_underlying [simp]:
  "exception_underlying (exception_code_of_byte b) = b"
  by (simp add: exception_code_of_byte_def)

section \<open>Limits\<close>

definition max_adu_length :: u16 where "max_adu_length = 260"
definition tcp_protocol :: u16 where "tcp_protocol = 0x00"
definition max_num_bits_read :: u16 where "max_num_bits_read = 0x07D0"
definition max_num_regs_read :: u16 where "max_num_regs_read = 0x007D"
definition max_num_bits_write :: u16 where "max_num_bits_write = 0x07B0"
definition max_num_regs_write :: u16 where "max_num_regs_write = 0x007B"
definition max_address :: u16 where "max_address = 0xFFFF"

section \<open>Coil values\<close>

text \<open>\<open>enum class bits : std::uint16_t { off = 0x0000, on = 0xFF00 }\<close>\<close>

datatype value_bits = bits_off | bits_on | bits_unnamed u16

primrec bits_underlying :: "value_bits \<Rightarrow> u16" where
  "bits_underlying bits_off = 0x0000"
| "bits_underlying bits_on = 0xFF00"
| "bits_underlying (bits_unnamed w) = w"

definition bits_of_u16 :: "u16 \<Rightarrow> value_bits" where
  "bits_of_u16 w = (if w = 0x0000 then bits_off else if w = 0xFF00 then bits_on
     else bits_unnamed w)"

lemma bits_of_u16_underlying [simp]: "bits_underlying (bits_of_u16 w) = w"
  by (simp add: bits_of_u16_def)

section \<open>Range checks\<close>

definition check_function :: "byte \<Rightarrow> bool" where
  "check_function f \<longleftrightarrow>
     function_underlying fc_min < f \<and> f < function_underlying fc_max"

definition check_function_enum :: "function_code \<Rightarrow> bool" where
  "check_function_enum f \<longleftrightarrow> f \<noteq> fc_min \<and> f \<noteq> fc_max"

definition check_exception :: "byte \<Rightarrow> bool" where
  "check_exception e \<longleftrightarrow>
     exception_underlying ec_min < e \<and> e < exception_underlying ec_max"

text \<open>The second overload of \<open>check_function\<close>, on exception codes.\<close>

definition check_function_exception :: "exception_code \<Rightarrow> bool" where
  "check_function_exception e \<longleftrightarrow> e \<noteq> ec_min \<and> e \<noteq> ec_max"

definition check_bits_value :: "u16 \<Rightarrow> bool" where
  "check_bits_value w \<longleftrightarrow> w = bits_underlying bits_off \<or> w = bits_underlying bits_on"

lemma check_bits_value_named:
  "check_bits_value w \<longleftrightarrow> bits_of_u16 w = bits_off \<or> bits_of_u16 w = bits_on"
  by (auto simp: check_bits_value_def bits_of_u16_def)

primrec function_code_str :: "function_code \<Rightarrow> string" where
  "function_code_str read_coils = ''read coils''"
| "function_code_str read_discrete_inputs = ''read discrete inputs''"
| "function_code_str read_holding_registers = ''read holding registers''"
| "function_code_str read_input_registers = ''read input registers''"
| "function_code_str write_single_coil = ''write single coil''"
| "function_code_str write_single_register = ''write single register''"
| "function_code_str read_exception_status = ''read exception status''"
| "function_code_str diagnostics = ''diagnostics''"
| "function_code_str write_multiple_coils = ''write multiple coils''"
| "function_code_str write_multiple_registers = ''write multiple registers''"
| "function_code_str read_file_record = ''read file record''"
| "function_code_str write_file_record = ''write file record''"
| "function_code_str mask_write_register = ''mask write register''"
| "function_code_str read_write_multiple_registers = ''read write multiple registers''"
| "function_code_str read_fifo_queue = ''read fifo queue''"
| "function_code_str encapsulated_interface_transport = ''encapsulated interface transport''"
| "function_code_str fc_min = ''Unknown''"
| "function_code_str fc_max = ''Unknown''"
| "function_code_str (fc_unnamed b) = ''Unknown''"

end
