(* ===== verification/Modbus_Types.thy ===== *)
theory Modbus_Types
  imports Modbus_Constants
begin

text \<open>
  \<open>types.hpp\<close>: the packet header record and the wrapper class \<open>base_metadata_t\<close> around a
  16-bit value, with its arithmetic and comparison operators as instances of the
  library's classes, and the two derived classes \<open>num_bits_t\<close> and \<open>num_regs_t\<close>, whose own
  static \<open>validate\<close> hides the inherited one for qualified calls but not for the inherited
  member function \<open>validate()\<close>.
\<close>

record header_t =
  hd_transaction :: u16
  hd_length :: u16
  hd_unit :: byte

section \<open>The wrapped value\<close>

text \<open>\<open>base_metadata_t<std::uint16_t>\<close>; \<open>meta_get\<close> is both \<open>get()\<close> and \<open>operator()()\<close>.\<close>

datatype metadata = Metadata (meta_get: u16)

type_synonym address_t = metadata
type_synonym reg_value_t = metadata
type_synonym mask_t = metadata
type_synonym read_num_bits_t = metadata
type_synonym write_num_bits_t = metadata
type_synonym read_num_regs_t = metadata
type_synonym write_num_regs_t = metadata

definition meta_validate :: "u16 \<Rightarrow> bool" where
  "meta_validate v \<longleftrightarrow> 0 \<le> v \<and> v \<le> max_address"

text \<open>The member function \<open>validate()\<close>: it calls the static check of the base class.\<close>

definition meta_valid :: "metadata \<Rightarrow> bool" where
  "meta_valid m \<longleftrightarrow> meta_validate (meta_get m)"

text \<open>The constructor \<open>base_metadata_t(value, do_validation)\<close>; \<open>e\<close> is \<open>std::out_of_range\<close>.\<close>

definition meta_make :: "'e \<Rightarrow> u16 \<Rightarrow> bool \<Rightarrow> ('e, metadata) outcome" where
  "meta_make e v do_validation =
     (if do_validation \<and> \<not> meta_validate v then Throw e else Ok (Metadata v))"

definition meta_set :: "u16 \<Rightarrow> metadata \<Rightarrow> metadata" where
  "meta_set v m = Metadata v"

definition meta_inc :: "metadata \<Rightarrow> metadata" where
  "meta_inc m = Metadata (meta_get m + 1)"

definition meta_dec :: "metadata \<Rightarrow> metadata" where
  "meta_dec m = Metadata (meta_get m - 1)"

text \<open>\<open>operator+\<close> and \<open>operator-\<close>: the sum of the promoted values, cut back to 16 bits.\<close>

definition meta_plus :: "metadata \<Rightarrow> metadata \<Rightarrow> metadata" where
  "meta_plus a b = Metadata (meta_get a + meta_get b)"

definition meta_minus :: "metadata \<Rightarrow> metadata \<Rightarrow> metadata" where
  "meta_minus a b = Metadata (meta_get a - meta_get b)"

text \<open>The six comparison operators compare the values.\<close>

definition meta_equal :: "metadata \<Rightarrow> metadata \<Rightarrow> bool" where
  "meta_equal a b \<longleftrightarrow> meta_get a = meta_get b"

definition meta_less :: "metadata \<Rightarrow> metadata \<Rightarrow> bool" where
  "meta_less a b \<longleftrightarrow> meta_get a < meta_get b"

definition meta_less_eq :: "metadata \<Rightarrow> metadata \<Rightarrow> bool" where
  "meta_less_eq a b \<longleftrightarrow> meta_get a \<le> meta_get b"

definition meta_greater :: "metadata \<Rightarrow> metadata \<Rightarrow> bool" where
  "meta_greater a b \<longleftrightarrow> meta_get b < meta_get a"

definition meta_greater_eq :: "metadata \<Rightarrow> metadata \<Rightarrow> bool" where
  "meta_greater_eq a b \<longleftrightarrow> meta_get b \<le> meta_get a"

definition meta_not_equal :: "metadata \<Rightarrow> metadata \<Rightarrow> bool" where
  "meta_not_equal a b \<longleftrightarrow> meta_get a \<noteq> meta_get b"

text \<open>They are the operators of the type classes: the wrapped values are linearly ordered.\<close>

instantiation metadata :: "{plus, minus}"
begin

definition plus_metadata :: "metadata \<Rightarrow> metadata \<Rightarrow> metadata" where
  "plus_metadata = meta_plus"

definition minus_metadata :: "metadata \<Rightarrow> metadata \<Rightarrow> metadata" where
  "minus_metadata = meta_minus"

instance ..

end

instantiation metadata :: linorder
begin

definition less_metadata :: "metadata \<Rightarrow> metadata \<Rightarrow> bool" where
  "less_metadata = meta_less"

definition less_eq_metadata :: "metadata \<Rightarrow> metadata \<Rightarrow> bool" where
  "less_eq_metadata = meta_less_eq"

instance
  by standard (auto simp: less_metadata_def less_eq_metadata_def meta_less_def meta_less_eq_def
      metadata.expand)

end

lemma meta_operators:
  "meta_plus a b = a + b" "meta_minus a b = a - b" "meta_less a b \<longleftrightarrow> a < b"
  "meta_less_eq a b \<longleftrightarrow> a \<le> b" "meta_greater a b \<longleftrightarrow> b < a" "meta_greater_eq a b \<longleftrightarrow> b \<le> a"
  "meta_equal a b \<longleftrightarrow> a = b" "meta_not_equal a b \<longleftrightarrow> a \<noteq> b"
  by (auto simp: plus_metadata_def minus_metadata_def less_metadata_def less_eq_metadata_def
      meta_less_def meta_less_eq_def meta_greater_def meta_greater_eq_def meta_equal_def
      meta_not_equal_def metadata.expand)

section \<open>Counts\<close>

text \<open>The static \<open>validate\<close> of \<open>num_bits_t<write>\<close> and of \<open>num_regs_t<write>\<close>.\<close>

definition num_bits_validate :: "bool \<Rightarrow> u16 \<Rightarrow> bool" where
  "num_bits_validate wr v \<longleftrightarrow>
     0 < v \<and> v \<le> (if wr then max_num_bits_write else max_num_bits_read)"

definition num_regs_validate :: "bool \<Rightarrow> u16 \<Rightarrow> bool" where
  "num_regs_validate wr v \<longleftrightarrow>
     0 < v \<and> v \<le> (if wr then max_num_regs_write else max_num_regs_read)"

text \<open>The constructors with \<open>do_validation\<close>; \<open>e\<close> is \<open>std::out_of_range\<close>.\<close>

definition num_bits_make :: "'e \<Rightarrow> bool \<Rightarrow> u16 \<Rightarrow> bool \<Rightarrow> ('e, metadata) outcome" where
  "num_bits_make e wr v do_validation =
     bind_outcome (meta_make e v False)
       (\<lambda>m. if do_validation \<and> \<not> num_bits_validate wr v then Throw e else Ok m)"

definition num_regs_make :: "'e \<Rightarrow> bool \<Rightarrow> u16 \<Rightarrow> bool \<Rightarrow> ('e, metadata) outcome" where
  "num_regs_make e wr v do_validation =
     bind_outcome (meta_make e v False)
       (\<lambda>m. if do_validation \<and> \<not> num_regs_validate wr v then Throw e else Ok m)"

section \<open>Facts\<close>

text \<open>Every 16-bit value passes the check of the base class.\<close>

lemma meta_validate_always [simp]: "meta_validate v"
  using unat_u16_less [of v] by (simp add: meta_validate_def max_address_def word_le_nat_alt less_Suc_eq_le del: unat_u16_less)

lemma meta_valid_always [simp]: "meta_valid m"
  by (simp add: meta_valid_def)

lemma meta_get_minus [simp]: "meta_get (a - b) = meta_get a - meta_get b"
  by (simp add: minus_metadata_def meta_minus_def)

lemma meta_get_plus [simp]: "meta_get (a + b) = meta_get a + meta_get b"
  by (simp add: plus_metadata_def meta_plus_def)

lemma meta_inc_dec [simp]: "meta_inc (meta_dec m) = m" "meta_dec (meta_inc m) = m"
  by (cases m; simp add: meta_inc_def meta_dec_def)+

lemma num_bits_validate_unat:
  "num_bits_validate wr v \<longleftrightarrow> 0 < unat v \<and> unat v \<le> (if wr then 1968 else 2000)"
  by (auto simp: num_bits_validate_def word_less_nat_alt word_le_nat_alt
      max_num_bits_write_def max_num_bits_read_def)

lemma num_regs_validate_unat:
  "num_regs_validate wr v \<longleftrightarrow> 0 < unat v \<and> unat v \<le> (if wr then 123 else 125)"
  by (auto simp: num_regs_validate_def word_less_nat_alt word_le_nat_alt
      max_num_regs_write_def max_num_regs_read_def)

lemma num_bits_positive: "num_bits_validate wr v \<Longrightarrow> 0 < unat v"
  by (simp add: num_bits_validate_unat)

lemma num_regs_positive: "num_regs_validate wr v \<Longrightarrow> 0 < unat v"
  by (simp add: num_regs_validate_unat)

end
