(* ===== verification/Modbus_Exceptions.thy ===== *)
theory Modbus_Exceptions
  imports Modbus_Types
begin

text \<open>
  \<open>exception.hpp\<close>: the exceptions the library throws. \<open>Specification\<close> is the class template
  \<open>ex::specification\<close> (a Modbus exception with the function and header of the request),
  \<open>Internal\<close> is \<open>ex::internal\<close>, and the other two are the exceptions of the C++ standard
  library that the code throws or lets through: \<open>std::out_of_range\<close> and an object whose
  dynamic type is just \<open>std::exception\<close>.
\<close>

datatype exn =
    Specification exception_code function_code header_t
  | Internal exception_code
  | Std_out_of_range
  | Std_exception

text \<open>\<open>catch (const ex::specification_error&)\<close> and \<open>catch (const ex::base_error&)\<close>.\<close>

definition is_specification_error :: "exn \<Rightarrow> bool" where
  "is_specification_error e \<longleftrightarrow> (\<exists>c f h. e = Specification c f h)"

definition is_base_error :: "exn \<Rightarrow> bool" where
  "is_base_error e \<longleftrightarrow> is_specification_error e \<or> (\<exists>c. e = Internal c)"

lemma is_specification_error_simps [simp, code]:
  "is_specification_error (Specification c f h) = True"
  "is_specification_error (Internal c) = False"
  "is_specification_error Std_out_of_range = False"
  "is_specification_error Std_exception = False"
  by (simp_all add: is_specification_error_def)

lemma is_base_error_simps [simp, code]:
  "is_base_error (Specification c f h) = True"
  "is_base_error (Internal c) = True"
  "is_base_error Std_out_of_range = False"
  "is_base_error Std_exception = False"
  by (simp_all add: is_base_error_def)

section \<open>Messages\<close>

text \<open>\<open>specification::message\<close>\<close>

primrec specification_message :: "exception_code \<Rightarrow> string" where
  "specification_message illegal_function = ''Illegal function''"
| "specification_message illegal_data_address = ''Illegal data address''"
| "specification_message illegal_data_value = ''Illegal data value''"
| "specification_message server_device_failure = ''Service device failure''"
| "specification_message acknowledge = ''Acknowledge''"
| "specification_message server_device_busy = ''Server device busy''"
| "specification_message memory_parity_error = ''Memory parity error''"
| "specification_message gateway_path_unavailable = ''Gateway path unavailable''"
| "specification_message gateway_target_device_failed_to_respond =
     ''Gateway target device failed to respond''"
| "specification_message ec_min = ''Specification error''"
| "specification_message negative_acknowledge = ''Specification error''"
| "specification_message ec_undef = ''Specification error''"
| "specification_message bad_data = ''Specification error''"
| "specification_message bad_data_size = ''Specification error''"
| "specification_message connection_problem = ''Specification error''"
| "specification_message bad_exception = ''Specification error''"
| "specification_message no_exception = ''Specification error''"
| "specification_message ec_max = ''Specification error''"
| "specification_message (ec_unnamed b) = ''Specification error''"

text \<open>\<open>internal::message\<close>\<close>

definition internal_message :: "exception_code \<Rightarrow> string" where
  "internal_message c =
    (if c = bad_data then ''Bad data''
     else if c = bad_data_size then ''Bad data size''
     else if c = connection_problem then ''Connection problem''
     else if c = bad_exception then ''Bad exception''
     else if c = no_exception then ''No exception''
     else ''Internal error'')"

section \<open>Exceptions from codes\<close>

text \<open>
  \<open>generate_exception\<close> selects an exception class by code. Its declared return type is
  \<open>std::exception\<close>, by value: the object returned is the base-class part of the selected
  one (\<open>slice_exception\<close>), and so is the object that \<open>throw generate_exception(\<dots>)\<close> throws.
\<close>

definition selected_exception :: "exception_code \<Rightarrow> function_code \<Rightarrow> header_t \<Rightarrow> exn" where
  "selected_exception ec f h =
    (if ec \<in> {illegal_function, illegal_data_address, illegal_data_value,
              server_device_failure, acknowledge, server_device_busy, negative_acknowledge,
              memory_parity_error, gateway_path_unavailable,
              gateway_target_device_failed_to_respond}
     then Specification ec f h else Internal bad_exception)"

definition slice_exception :: "exn \<Rightarrow> exn" where
  "slice_exception e = Std_exception"

definition generate_exception :: "exception_code \<Rightarrow> function_code \<Rightarrow> header_t \<Rightarrow> exn" where
  "generate_exception ec f h = slice_exception (selected_exception ec f h)"

end
