(* ===== verification/Modbus_Platform.thy ===== *)
theory Modbus_Platform
  imports Modbus_Exceptions
begin

text \<open>
  What the sources use and do not define. The library \<open>struc\<close> (a dependency fetched at
  build time) packs integers into bytes and unpacks them again, driven by a format string;
  it is a parameter of the model, a record of the functions the code calls. The record
  also holds what the C++ implementation decides: whether \<open>char\<close> is signed, and the bits
  that members have before they are first assigned. \<open>platform_ok\<close> states the documented
  behaviour of \<open>struc\<close> that the code relies on, in the \<open>struct\<close> format language: \<open>>\<close> is
  big-endian, \<open>H\<close> an unsigned 16-bit and \<open>B\<close> an unsigned 8-bit field.
\<close>

record platform =
  struc_pack :: "string \<Rightarrow> nat list \<Rightarrow> packet_t"
  struc_unpack :: "string \<Rightarrow> nat \<Rightarrow> packet_t \<Rightarrow> nat list"
  struc_extent :: "string \<Rightarrow> nat \<Rightarrow> nat"
  char_is_signed :: bool
  indet_function :: function_code
  indet_u16 :: u16
  indet_byte :: byte

text \<open>
  \<open>struc_unpack fmt n mem\<close> are the values an unpack of format \<open>fmt\<close> with \<open>n\<close> output
  arguments stores when it reads from the start of \<open>mem\<close>, and \<open>struc_extent fmt n\<close> is the
  number of bytes it reads: the call gets a pointer and no length.
\<close>

section \<open>The format language\<close>

fun field_size :: "char \<Rightarrow> nat" where
  "field_size c = (if c = CHR ''H'' then 2 else 1)"

fun format_size :: "string \<Rightarrow> nat" where
  "format_size [] = 0"
| "format_size (c # cs) = field_size c + format_size cs"

definition format_ok :: "string \<Rightarrow> bool" where
  "format_ok fs \<longleftrightarrow> list_all (\<lambda>c. c = CHR ''H'' \<or> c = CHR ''B'') fs"

definition field_bytes :: "char \<Rightarrow> nat \<Rightarrow> packet_t" where
  "field_bytes c v =
     (if c = CHR ''H'' then [word_of_nat (v div 256), word_of_nat v] else [word_of_nat v])"

definition field_value :: "char \<Rightarrow> packet_t \<Rightarrow> nat" where
  "field_value c bs =
     (if c = CHR ''H'' then unat (bs ! 0) * 256 + unat (bs ! 1) else unat (bs ! 0))"

fun format_bytes :: "string \<Rightarrow> nat list \<Rightarrow> packet_t" where
  "format_bytes (c # cs) (v # vs) = field_bytes c v @ format_bytes cs vs"
| "format_bytes _ _ = []"

fun format_values :: "string \<Rightarrow> packet_t \<Rightarrow> nat list" where
  "format_values [] bs = []"
| "format_values (c # cs) bs = field_value c bs # format_values cs (drop (field_size c) bs)"

fun format_fits :: "string \<Rightarrow> nat list \<Rightarrow> bool" where
  "format_fits [] [] = True"
| "format_fits (c # cs) (v # vs) = (v < 256 ^ field_size c \<and> format_fits cs vs)"
| "format_fits _ _ = False"

section \<open>The documented behaviour\<close>

definition struc_pack_ok :: "platform \<Rightarrow> bool" where
  "struc_pack_ok P \<longleftrightarrow>
     (\<forall>fs vs. format_ok fs \<longrightarrow> format_fits fs vs \<longrightarrow>
        struc_pack P (CHR ''>'' # fs) vs = format_bytes fs vs)"

definition struc_unpack_ok :: "platform \<Rightarrow> bool" where
  "struc_unpack_ok P \<longleftrightarrow>
     (\<forall>fs. format_ok fs \<longrightarrow> struc_extent P (CHR ''>'' # fs) (length fs) = format_size fs) \<and>
     (\<forall>fs bs. format_ok fs \<longrightarrow> format_size fs \<le> length bs \<longrightarrow>
        struc_unpack P (CHR ''>'' # fs) (length fs) bs = format_values fs bs)"

definition platform_ok :: "platform \<Rightarrow> bool" where
  "platform_ok P \<longleftrightarrow> struc_pack_ok P \<and> struc_unpack_ok P"

text \<open>
  A concrete platform that behaves as documented: the hypothesis can hold, for either
  signedness of \<open>char\<close>. It is used by the witnesses only.
\<close>

definition sample_platform :: "bool \<Rightarrow> platform" where
  "sample_platform sg =
     \<lparr>struc_pack = (\<lambda>f vs. format_bytes (tl f) vs),
      struc_unpack = (\<lambda>f n bs. format_values (take n (tl f)) bs),
      struc_extent = (\<lambda>f n. format_size (take n (tl f))),
      char_is_signed = sg, indet_function = fc_min, indet_u16 = 0, indet_byte = 0\<rparr>"

lemma sample_platform_ok [simp]: "platform_ok (sample_platform sg)"
  by (simp add: platform_ok_def struc_pack_ok_def struc_unpack_ok_def sample_platform_def)

lemma sample_char_is_signed [simp]: "char_is_signed (sample_platform sg) = sg"
  by (simp add: sample_platform_def)

section \<open>Calls of the library\<close>

text \<open>
  \<open>struc::pack(fmt::format(">{}", fs), \<dots>)\<close>: the arguments are integers of various
  widths, passed by value.
\<close>

definition pack :: "platform \<Rightarrow> string \<Rightarrow> nat list \<Rightarrow> packet_t" where
  "pack P fs vs = struc_pack P (CHR ''>'' # fs) vs"

text \<open>
  \<open>struc::unpack(fmt::format(">{}", fs), packet.data() + off, \<dots>)\<close> with \<open>n\<close> outputs.
  Reading past the last byte of the vector is undefined behaviour.
\<close>

definition unpack :: "platform \<Rightarrow> string \<Rightarrow> nat \<Rightarrow> packet_t \<Rightarrow> nat \<Rightarrow> ('s, exn, nat list) act" where
  "unpack P fs n packet off s =
     (if off + struc_extent P (CHR ''>'' # fs) n \<le> length packet
      then (Ok (struc_unpack P (CHR ''>'' # fs) n (drop off packet)), s)
      else (Undefined, s))"

text \<open>\<open>packet.at(i)\<close> and \<open>packet[i]\<close>.\<close>

definition packet_at :: "packet_t \<Rightarrow> nat \<Rightarrow> ('s, exn, byte) act" where
  "packet_at packet i s =
     (if i < length packet then (Ok (packet ! i), s) else (Throw Std_out_of_range, s))"

definition packet_index :: "packet_t \<Rightarrow> nat \<Rightarrow> ('s, exn, byte) act" where
  "packet_index packet i s =
     (if i < length packet then (Ok (packet ! i), s) else (Undefined, s))"

text \<open>The bytes between \<open>packet.begin() + i\<close> and \<open>packet.end()\<close>.\<close>

definition packet_range :: "packet_t \<Rightarrow> nat \<Rightarrow> ('s, exn, packet_t) act" where
  "packet_range packet i s =
     (if i \<le> length packet then (Ok (drop i packet), s) else (Undefined, s))"

declare packet_at_def [act_simps] packet_index_def [act_simps] packet_range_def [act_simps]

text \<open>The value of a \<open>char\<close> after integral promotion, and its conversion to 16 bits.\<close>

definition char_to_int :: "platform \<Rightarrow> byte \<Rightarrow> int" where
  "char_to_int P b = (if char_is_signed P then sint b else uint b)"

definition char_to_u16 :: "platform \<Rightarrow> byte \<Rightarrow> u16" where
  "char_to_u16 P b = word_of_int (char_to_int P b)"

section \<open>Evaluating the codec\<close>

lemma format_ok_simps [simp]:
  "format_ok []"
  "format_ok (c # cs) \<longleftrightarrow> (c = CHR ''H'' \<or> c = CHR ''B'') \<and> format_ok cs"
  by (simp_all add: format_ok_def)

lemma pack_eq [codec_simps]:
  "platform_ok P \<Longrightarrow> format_ok fs \<Longrightarrow> format_fits fs vs \<Longrightarrow> pack P fs vs = format_bytes fs vs"
  by (simp add: pack_def platform_ok_def struc_pack_ok_def)

lemma unpack_eq [codec_simps]:
  "platform_ok P \<Longrightarrow> format_ok fs \<Longrightarrow> n = length fs \<Longrightarrow>
   unpack P fs n packet off s =
     (if off + format_size fs \<le> length packet
      then (Ok (format_values fs (drop off packet)), s) else (Undefined, s))"
  by (simp add: unpack_def platform_ok_def struc_unpack_ok_def)

lemma field_bytes_u16 [codec_simps]:
  "field_bytes (CHR ''H'') (unat (w :: u16)) = [hi_byte w, lo_byte w]"
  by (simp only: field_bytes_def if_True simp_thms word_of_nat_hi word_of_nat_lo)

lemma field_bytes_byte [codec_simps]:
  "field_bytes (CHR ''B'') (unat (b :: byte)) = [b]"
  by (simp add: field_bytes_def)

lemma field_bytes_u16_as_byte [codec_simps]:
  "field_bytes (CHR ''B'') (unat (w :: u16)) = [lo_byte w]"
  by (simp add: field_bytes_def lo_byte_def)

lemma field_value_simps [codec_simps]:
  "field_value (CHR ''H'') (h # l # bs) = unat (u16_of_bytes h l)"
  "field_value (CHR ''B'') (l # bs) = unat l"
  by (simp_all add: field_value_def unat_u16_of_bytes)

lemma char_to_int_eq_iff:
  assumes "uint c < 128"
  shows "char_to_int P b = uint c \<longleftrightarrow> b = c"
proof
  assume "char_to_int P b = uint c"
  then have "(word_of_int (char_to_int P b) :: byte) = word_of_int (uint c)"
    by simp
  then show "b = c" by (simp add: char_to_int_def split: if_splits)
next
  assume "b = c"
  moreover have "- 128 \<le> uint c"
    using uint_ge_0 [of c] by linarith
  with assms have "sint c = uint c"
    by (simp add: sint_uint signed_take_bit_int_eq_self_iff)
  ultimately show "char_to_int P b = uint c" by (simp add: char_to_int_def)
qed

end
