(* ===== verification/Modbus_Adu.thy ===== *)
theory Modbus_Adu
  imports Modbus_Platform
begin

text \<open>
  \<open>adu.hpp\<close> and \<open>adu.cpp\<close>: the base class of requests and responses, with the header
  fields every packet starts with. The class is an extensible record, the derived classes
  extend it, and its methods work on every extension.
\<close>

record adu =
  adu_function :: function_code
  adu_function_code :: byte
  adu_transaction :: u16
  adu_length :: u16
  adu_unit :: byte

record adu_initializer =
  init_transaction :: u16
  init_unit :: byte

definition header_length :: nat where
  "header_length = 7"

definition protocol :: u16 where
  "protocol = tcp_protocol"

definition header_func_format :: string where
  "header_func_format = ''HHHBB''"

section \<open>Constructors\<close>

text \<open>Members that a constructor leaves alone have indeterminate values.\<close>

definition adu_default :: "platform \<Rightarrow> adu" where
  "adu_default P =
     \<lparr>adu_function = indet_function P, adu_function_code = 0x00,
      adu_transaction = indet_u16 P, adu_length = indet_u16 P, adu_unit = indet_byte P\<rparr>"

definition adu_of_function :: "function_code \<Rightarrow> u16 \<Rightarrow> byte \<Rightarrow> adu" where
  "adu_of_function f transaction un =
     \<lparr>adu_function = f, adu_function_code = function_underlying f,
      adu_transaction = transaction, adu_length = 0x00, adu_unit = un\<rparr>"

definition adu_of_code :: "platform \<Rightarrow> byte \<Rightarrow> u16 \<Rightarrow> byte \<Rightarrow> adu" where
  "adu_of_code P code transaction un =
     \<lparr>adu_function = (if check_function code then function_code_of_byte code
                      else indet_function P),
      adu_function_code = code,
      adu_transaction = transaction, adu_length = 0x00, adu_unit = un\<rparr>"

definition adu_of_function_init :: "function_code \<Rightarrow> adu_initializer \<Rightarrow> adu" where
  "adu_of_function_init f ini = adu_of_function f (init_transaction ini) (init_unit ini)"

definition adu_of_code_init :: "platform \<Rightarrow> byte \<Rightarrow> adu_initializer \<Rightarrow> adu" where
  "adu_of_code_init P code ini = adu_of_code P code (init_transaction ini) (init_unit ini)"

definition adu_of_function_header :: "function_code \<Rightarrow> header_t \<Rightarrow> adu" where
  "adu_of_function_header f h =
     \<lparr>adu_function = f, adu_function_code = function_underlying f,
      adu_transaction = hd_transaction h, adu_length = hd_length h, adu_unit = hd_unit h\<rparr>"

definition adu_of_code_header :: "platform \<Rightarrow> byte \<Rightarrow> header_t \<Rightarrow> adu" where
  "adu_of_code_header P code h =
     \<lparr>adu_function = (if check_function code then function_code_of_byte code
                      else indet_function P),
      adu_function_code = code,
      adu_transaction = hd_transaction h, adu_length = hd_length h, adu_unit = hd_unit h\<rparr>"

section \<open>Methods\<close>

definition adu_header :: "'a adu_scheme \<Rightarrow> header_t" where
  "adu_header a = \<lparr>hd_transaction = adu_transaction a, hd_length = adu_length a,
                   hd_unit = adu_unit a\<rparr>"

definition set_header :: "header_t \<Rightarrow> 'a adu_scheme \<Rightarrow> 'a adu_scheme" where
  "set_header h a = a\<lparr>adu_transaction := hd_transaction h, adu_length := hd_length h,
                      adu_unit := hd_unit h\<rparr>"

definition initialize :: "adu_initializer \<Rightarrow> 'a adu_scheme \<Rightarrow> 'a adu_scheme" where
  "initialize ini a = a\<lparr>adu_transaction := init_transaction ini, adu_length := 0x00,
                        adu_unit := init_unit ini\<rparr>"

definition set_transaction :: "u16 \<Rightarrow> 'a adu_scheme \<Rightarrow> 'a adu_scheme" where
  "set_transaction t a = a\<lparr>adu_transaction := t\<rparr>"

text \<open>Unit identifier, function code, and the rest of the PDU, in 16 bits.\<close>

definition calc_length :: "u16 \<Rightarrow> 'a adu_scheme \<Rightarrow> 'a adu_scheme" where
  "calc_length pdu_length a = a\<lparr>adu_length := 1 + 1 + pdu_length\<rparr>"

definition set_length :: "u16 \<Rightarrow> 'a adu_scheme \<Rightarrow> 'a adu_scheme" where
  "set_length n a = a\<lparr>adu_length := n\<rparr>"

definition set_unit :: "byte \<Rightarrow> 'a adu_scheme \<Rightarrow> 'a adu_scheme" where
  "set_unit u a = a\<lparr>adu_unit := u\<rparr>"

text \<open>
  \<open>decode_header\<close>: the protocol field is read and dropped; \<open>function\<close> keeps its value
  when the code read is not a valid function.
\<close>

definition decode_header :: "platform \<Rightarrow> packet_t \<Rightarrow> ('a adu_scheme, exn, unit) act" where
  "decode_header P packet =
     bind_act (unpack P header_func_format 5 packet 0)
       (\<lambda>vs. modify_act
         (\<lambda>a. let code = word_of_nat (vs ! 4);
                  a' = a\<lparr>adu_transaction := word_of_nat (vs ! 0),
                         adu_length := word_of_nat (vs ! 2),
                         adu_unit := word_of_nat (vs ! 3),
                         adu_function_code := code\<rparr>
              in if check_function code then a'\<lparr>adu_function := function_code_of_byte code\<rparr>
                 else a'))"

text \<open>The comparison operators, as the code has them.\<close>

definition adu_equal :: "'a adu_scheme \<Rightarrow> 'b adu_scheme \<Rightarrow> bool" where
  "adu_equal a b \<longleftrightarrow> adu_transaction a \<noteq> 0 \<and> adu_transaction b \<noteq> 0"

definition adu_greater :: "'a adu_scheme \<Rightarrow> 'b adu_scheme \<Rightarrow> bool" where
  "adu_greater a b \<longleftrightarrow> adu_transaction a > adu_transaction b"

definition adu_less :: "'a adu_scheme \<Rightarrow> 'b adu_scheme \<Rightarrow> bool" where
  "adu_less a b \<longleftrightarrow> adu_transaction a < adu_transaction b"

definition header_packet :: "platform \<Rightarrow> 'a adu_scheme \<Rightarrow> packet_t" where
  "header_packet P a =
     pack P header_func_format
       [unat (adu_transaction a), unat protocol, unat (adu_length a), unat (adu_unit a),
        unat (adu_function_code a)]"

definition calc_adu_length :: "u16 \<Rightarrow> u16" where
  "calc_adu_length data_length = word_of_nat header_length + 1 + data_length"

section \<open>The header on the wire\<close>

text \<open>The 16-bit field at position \<open>i\<close> of a packet.\<close>

definition packet_u16 :: "packet_t \<Rightarrow> nat \<Rightarrow> u16" where
  "packet_u16 packet i = u16_of_bytes (packet ! i) (packet ! (i + 1))"

lemma field_value_drop [codec_simps]:
  "i + 2 \<le> length p \<Longrightarrow> field_value (CHR ''H'') (drop i p) = unat (packet_u16 p i)"
  "i + 1 \<le> length p \<Longrightarrow> field_value (CHR ''B'') (drop i p) = unat (p ! i)"
  by (simp_all add: field_value_def packet_u16_def unat_u16_of_bytes)

lemma packet_u16_word [simp]:
  "(word_of_nat (unat (packet_u16 p i)) :: u16) = packet_u16 p i"
  by simp

text \<open>The header bytes of an ADU, and the ADU that takes its fields from a packet.\<close>

definition header_bytes :: "'a adu_scheme \<Rightarrow> packet_t" where
  "header_bytes a =
     [hi_byte (adu_transaction a), lo_byte (adu_transaction a), 0, 0,
      hi_byte (adu_length a), lo_byte (adu_length a), adu_unit a, adu_function_code a]"

definition take_header :: "packet_t \<Rightarrow> 'a adu_scheme \<Rightarrow> 'a adu_scheme" where
  "take_header p a =
     a\<lparr>adu_transaction := packet_u16 p 0, adu_length := packet_u16 p 4, adu_unit := p ! 6,
       adu_function_code := p ! 7,
       adu_function := (if check_function (p ! 7) then function_code_of_byte (p ! 7)
                        else adu_function a)\<rparr>"

lemma length_header_bytes [simp]: "length (header_bytes a) = 8"
  by (simp add: header_bytes_def)

lemma bytes_of_zero [simp]: "hi_byte 0 = 0" "lo_byte 0 = 0"
  by (simp_all add: hi_byte_def lo_byte_def)

lemma header_packet_eq [codec_simps]:
  assumes "platform_ok P"
  shows "header_packet P a = header_bytes a"
proof -
  have "field_bytes (CHR ''H'') (unat protocol) = [0, 0]"
    by (simp only: field_bytes_u16) (simp add: protocol_def tcp_protocol_def)
  then show ?thesis
    using assms
    by (simp add: header_packet_def header_func_format_def pack_eq field_bytes_u16
        field_bytes_byte header_bytes_def protocol_def)
qed

lemma decode_header_eq [codec_simps]:
  assumes "platform_ok P"
  shows "decode_header P p a = (if 8 \<le> length p then (Ok (), take_header p a) else (Undefined, a))"
proof -
  have "format_values ''HHHBB'' (drop 0 p) =
      [unat (packet_u16 p 0), unat (packet_u16 p 2), unat (packet_u16 p 4), unat (p ! 6),
       unat (p ! 7)]" if "8 \<le> length p"
    using that field_value_drop(1) [of 0 p] by (simp add: codec_simps)
  with assms show ?thesis
    by (simp add: decode_header_def header_func_format_def unpack_eq act_simps take_header_def
        Let_def)
qed

lemma take_header_simps [simp]:
  "adu_transaction (take_header p a) = packet_u16 p 0"
  "adu_length (take_header p a) = packet_u16 p 4"
  "adu_unit (take_header p a) = p ! 6"
  "adu_function_code (take_header p a) = p ! 7"
  "adu.more (take_header p a) = adu.more a"
  by (simp_all add: take_header_def)

lemma calc_length_simps [simp]:
  "adu_function (calc_length n a) = adu_function a"
  "adu_function_code (calc_length n a) = adu_function_code a"
  "adu_transaction (calc_length n a) = adu_transaction a"
  "adu_unit (calc_length n a) = adu_unit a"
  "adu_length (calc_length n a) = 2 + n"
  by (simp_all add: calc_length_def)

lemma initialize_simps [simp]:
  "adu_function (initialize i a) = adu_function a"
  "adu_function_code (initialize i a) = adu_function_code a"
  "adu_transaction (initialize i a) = init_transaction i"
  "adu_unit (initialize i a) = init_unit i"
  "adu_length (initialize i a) = 0"
  by (simp_all add: initialize_def)

lemma unat_calc_adu_length: "unat n < 65528 \<Longrightarrow> unat (calc_adu_length n) = 8 + unat n"
  by (simp add: calc_adu_length_def header_length_def unat_word_ariths)

lemma response_size_four [simp]: "unat (calc_adu_length 4) = 12"
  by (simp add: unat_calc_adu_length)

lemma response_size_six [simp]: "unat (calc_adu_length 6) = 14"
  by (simp add: unat_calc_adu_length)

lemma unat_add_u16: "unat a + unat b < 65536 \<Longrightarrow> unat (a + b :: u16) = unat a + unat b"
  by (simp add: unat_word_ariths)

section \<open>Well-formed packets\<close>

text \<open>
  A complete packet: transaction, protocol 0, the length of what follows the length field,
  unit, function byte, and the rest of the PDU.
\<close>

definition adu_packet :: "u16 \<Rightarrow> byte \<Rightarrow> byte \<Rightarrow> byte list \<Rightarrow> packet_t" where
  "adu_packet t u f body =
     (let n = word_of_nat (2 + length body)
      in [hi_byte t, lo_byte t, 0, 0, hi_byte n, lo_byte n, u, f] @ body)"

lemma length_adu_packet [simp]: "length (adu_packet t u f body) = 8 + length body"
  by (simp add: adu_packet_def Let_def)

lemma header_bytes_adu_packet:
  "n = word_of_nat (length body) \<Longrightarrow>
   header_bytes (calc_length n a) @ body =
     adu_packet (adu_transaction a) (adu_unit a) (adu_function_code a) body"
  by (simp add: header_bytes_def calc_length_def adu_packet_def Let_def add.assoc)

lemma u16_of_zero_bytes [simp]: "u16_of_bytes 0 0 = 0"
  by (simp add: u16_of_bytes_def)

lemma adu_packet_fields [simp]:
  "packet_u16 (adu_packet t u f body) 0 = t"
  "packet_u16 (adu_packet t u f body) 2 = 0"
  "packet_u16 (adu_packet t u f body) 4 = word_of_nat (2 + length body)"
  "adu_packet t u f body ! 6 = u"
  "adu_packet t u f body ! 7 = f"
  "drop 8 (adu_packet t u f body) = body"
  by (simp_all add: adu_packet_def packet_u16_def Let_def)

lemma adu_packet_not_Nil [simp]: "adu_packet t u f body \<noteq> []"
  by (simp add: adu_packet_def Let_def)

text \<open>The length field counts the bytes that follow it.\<close>

lemma unat_length_field: "n < 65534 \<Longrightarrow> unat (2 + word_of_nat n :: u16) = 2 + n"
  using unat_of_nat_u16 [of "2 + n"] by simp

lemma adu_packet_length_field:
  "length body < 65534 \<Longrightarrow> unat (packet_u16 (adu_packet t u f body) 4) = 2 + length body"
  by (simp add: unat_length_field)

lemma adu_packet_nth:
  assumes "8 \<le> i"
  shows "adu_packet t u f body ! i = body ! (i - 8)"
proof -
  have "drop 8 (adu_packet t u f body) ! (i - 8) = adu_packet t u f body ! (8 + (i - 8))"
    by (rule nth_drop) simp
  with assms show ?thesis by simp
qed

lemma packet_u16_adu_packet:
  assumes "8 \<le> i"
  shows "packet_u16 (adu_packet t u f body) i = packet_u16 body (i - 8)"
proof -
  have "i + 1 - 8 = i - 8 + 1" using assms by simp
  with assms show ?thesis by (simp only: packet_u16_def adu_packet_nth le_add1 trans_le_add1)
qed

end
