(* ===== verification/Cell_Store.thy ===== *)
theory Cell_Store
  imports Modbus_Exceptions
begin

text \<open>
  The interface a block of the data table offers to the request and response classes: a
  store of addressed cells with a ranged read and a ranged write. The abstract content of
  a store is a partial map from addresses to values. The laws say that reads and writes
  of a range succeed exactly when the range is not empty and all its cells exist, that
  they throw \<open>std::out_of_range\<close> otherwise, and what a write does to the content. The
  second locale lifts a store that is a part of a larger object to that object.
\<close>

section \<open>Partial maps by ranges\<close>

definition all_cells :: "(nat \<Rightarrow> 'v option) \<Rightarrow> nat \<Rightarrow> nat \<Rightarrow> bool" where
  "all_cells m k n \<longleftrightarrow> (\<forall>i<n. m (k + i) \<noteq> None)"

definition cell_list :: "(nat \<Rightarrow> 'v option) \<Rightarrow> nat \<Rightarrow> nat \<Rightarrow> 'v list" where
  "cell_list m k n = map (\<lambda>i. the (m (k + i))) [0..<n]"

definition put_cells :: "(nat \<Rightarrow> 'v option) \<Rightarrow> nat \<Rightarrow> 'v list \<Rightarrow> nat \<Rightarrow> 'v option" where
  "put_cells m k vs j = (if k \<le> j \<and> j < k + length vs then Some (vs ! (j - k)) else m j)"

lemma length_cell_list [simp]: "length (cell_list m k n) = n"
  by (simp add: cell_list_def)

lemma nth_cell_list: "i < n \<Longrightarrow> cell_list m k n ! i = the (m (k + i))"
  by (simp add: cell_list_def)

lemma cell_list_put_same [simp]: "cell_list (put_cells m k vs) k (length vs) = vs"
  by (rule nth_equalityI) (simp_all add: nth_cell_list put_cells_def)

lemma cell_list_put_disjoint:
  "k + length vs \<le> j \<or> j + n \<le> k \<Longrightarrow> cell_list (put_cells m k vs) j n = cell_list m j n"
  by (rule nth_equalityI) (auto simp: nth_cell_list put_cells_def)

lemma all_cells_put:
  "all_cells m k (length vs) \<Longrightarrow> all_cells (put_cells m k vs) j n = all_cells m j n"
proof -
  assume ok: "all_cells m k (length vs)"
  have "put_cells m k vs i = None \<longleftrightarrow> m i = None" for i
  proof (cases "k \<le> i \<and> i < k + length vs")
    case True
    then have "i - k < length vs" "k + (i - k) = i" by auto
    with ok have "m i \<noteq> None" unfolding all_cells_def by metis
    with True show ?thesis by (simp add: put_cells_def)
  qed (auto simp: put_cells_def)
  then show ?thesis by (simp add: all_cells_def)
qed

lemma put_cells_overwrite:
  "length vs = length ws \<Longrightarrow> put_cells (put_cells m k vs) k ws = put_cells m k ws"
  by (rule ext) (simp add: put_cells_def)

lemma put_cells_commute:
  "k + length vs \<le> j \<or> j + length ws \<le> k \<Longrightarrow>
   put_cells (put_cells m k vs) j ws = put_cells (put_cells m j ws) k vs"
  by (rule ext) (auto simp: put_cells_def)

section \<open>The interface\<close>

locale cell_store =
  fixes inv :: "'s \<Rightarrow> bool"
    and cells :: "'s \<Rightarrow> nat \<Rightarrow> 'v option"
    and read_cells :: "'s \<Rightarrow> address_t \<Rightarrow> nat \<Rightarrow> (exn, 'v list) outcome"
    and write_cells :: "'s \<Rightarrow> address_t \<Rightarrow> 'v list \<Rightarrow> (exn, 's) outcome"
  assumes read_law: "inv s \<Longrightarrow> read_cells s a n =
      (if 0 < n \<and> all_cells (cells s) (unat (meta_get a)) n
       then Ok (cell_list (cells s) (unat (meta_get a)) n) else Throw Std_out_of_range)"
    and write_law: "inv s \<Longrightarrow>
      (if vs \<noteq> [] \<and> all_cells (cells s) (unat (meta_get a)) (length vs)
       then \<exists>s'. write_cells s a vs = Ok s' \<and> inv s' \<and>
              cells s' = put_cells (cells s) (unat (meta_get a)) vs
       else write_cells s a vs = Throw Std_out_of_range)"
begin

lemma write_okD:
  assumes "inv s" "write_cells s a vs = Ok s'"
  shows "vs \<noteq> []" "all_cells (cells s) (unat (meta_get a)) (length vs)" "inv s'"
    "cells s' = put_cells (cells s) (unat (meta_get a)) vs"
  using write_law [OF assms(1), of vs a] assms(2) by (auto split: if_splits)

lemma never_undefined:
  assumes "inv s"
  shows "read_cells s a n \<noteq> Undefined" "write_cells s a vs \<noteq> Undefined"
  using read_law [OF assms, of a n] write_law [OF assms, of vs a] by (auto split: if_splits)

lemma read_after_write:
  assumes "inv s" "write_cells s a vs = Ok s'"
  shows "read_cells s' a (length vs) = Ok vs"
  using write_okD [OF assms] by (simp add: read_law all_cells_put)

lemma read_elsewhere:
  assumes "inv s" "write_cells s a vs = Ok s'"
    and "unat (meta_get a) + length vs \<le> unat (meta_get b) \<or>
         unat (meta_get b) + n \<le> unat (meta_get a)"
  shows "read_cells s' b n = read_cells s b n"
  using write_okD [OF assms(1,2)] assms(1,3)
  by (simp add: read_law all_cells_put cell_list_put_disjoint)

lemma write_twice:
  assumes "inv s" "write_cells s a vs = Ok s'" "length ws = length vs" "write_cells s' a ws = Ok t"
  shows "cells t = put_cells (cells s) (unat (meta_get a)) ws"
  using write_okD [OF assms(1,2)] write_okD(4) [OF _ assms(4)] assms(3)
  by (simp add: put_cells_overwrite)

lemma write_domain:
  assumes "inv s" "write_cells s a vs = Ok s'"
  shows "dom (cells s') = dom (cells s)"
proof -
  have "all_cells (cells s') k 1 = all_cells (cells s) k 1" for k
    using write_okD [OF assms] by (simp add: all_cells_put)
  then show ?thesis by (auto simp: all_cells_def dom_def)
qed

end

section \<open>A store inside an object\<close>

locale embedded_store = cell_store +
  fixes outer_inv :: "'t \<Rightarrow> bool"
    and part :: "'t \<Rightarrow> 'a"
    and set_part :: "'a \<Rightarrow> 't \<Rightarrow> 't"
  assumes part_set: "part (set_part s t) = s"
    and part_inv: "outer_inv t \<Longrightarrow> inv (part t)"
    and set_inv: "outer_inv t \<Longrightarrow> inv s \<Longrightarrow> outer_inv (set_part s t)"

sublocale embedded_store \<subseteq> whole: cell_store outer_inv "\<lambda>t. cells (part t)"
  "\<lambda>t. read_cells (part t)" "\<lambda>t a vs. bind_outcome (write_cells (part t) a vs) (\<lambda>s. Ok (set_part s t))"
proof unfold_locales
  fix t a n
  assume "outer_inv t"
  then show "read_cells (part t) a n =
      (if 0 < n \<and> all_cells (cells (part t)) (unat (meta_get a)) n
       then Ok (cell_list (cells (part t)) (unat (meta_get a)) n) else Throw Std_out_of_range)"
    by (simp add: read_law part_inv)
next
  fix t a vs
  assume t: "outer_inv t"
  let ?w = "bind_outcome (write_cells (part t) a vs) (\<lambda>s. Ok (set_part s t))"
  show "if vs \<noteq> [] \<and> all_cells (cells (part t)) (unat (meta_get a)) (length vs)
     then \<exists>t'. ?w = Ok t' \<and> outer_inv t' \<and>
            cells (part t') = put_cells (cells (part t)) (unat (meta_get a)) vs
     else ?w = Throw Std_out_of_range"
    using write_law [OF part_inv [OF t], of vs a] t by (auto simp: part_set set_inv)
qed

end
