(* ===== verification/Modbus_Data_Table.thy ===== *)
theory Modbus_Data_Table
  imports Modbus_Exceptions Cell_Store
begin

text \<open>
  \<open>data-table.hpp\<close> and \<open>data-table.inline.hpp\<close>: a block of consecutively addressed
  values (\<open>block::sequential\<close> over its base class) and the table of the four Modbus areas.
  Here a method is one step on the block. The mutex that \<open>get\<close>, \<open>set\<close> and \<open>reset\<close> hold (\<open>ref\<close>
  and \<open>validate\<close> take none) matters only when methods overlap, in \<open>Modbus_Locked_Requests\<close>.
  What a method returns as a reference or an iterator is modelled by the position in the
  container. A position outside the container is undefined behaviour:
  the container can be reached and resized through \<open>container()\<close>, and then its size and
  the constant capacity disagree. The block invariant says that they agree.
\<close>

section \<open>Blocks\<close>

record 'a block =
  blk_start :: address_t
  blk_container :: "'a list"
  blk_capacity :: nat
  blk_default :: 'a

definition max_capacity :: nat where
  "max_capacity = 65535"

text \<open>\<open>block::sequential::initializer_t\<close>\<close>

record 'a block_initializer =
  ini_start :: address_t
  ini_capacity :: nat
  ini_default :: 'a

text \<open>The two base constructors; \<open>z\<close> is the value \<open>0\<close> of the data type.\<close>

definition base_of_capacity :: "address_t \<Rightarrow> nat \<Rightarrow> 'a \<Rightarrow> 'a block" where
  "base_of_capacity start cap dflt =
     \<lparr>blk_start = start, blk_container = replicate cap dflt, blk_capacity = cap,
      blk_default = dflt\<rparr>"

definition base_of_container :: "'a \<Rightarrow> address_t \<Rightarrow> 'a list \<Rightarrow> 'a block" where
  "base_of_container z start xs =
     \<lparr>blk_start = start, blk_container = xs, blk_capacity = length xs, blk_default = z\<rparr>"

text \<open>The constructors of \<open>sequential\<close>: both resize the container to the capacity.\<close>

definition sequential_of_capacity :: "'a \<Rightarrow> address_t \<Rightarrow> nat \<Rightarrow> 'a \<Rightarrow> 'a block" where
  "sequential_of_capacity z start cap dflt =
     (let b = base_of_capacity start cap dflt
      in b\<lparr>blk_container := vector_resize z cap (blk_container b)\<rparr>)"

definition sequential_of_initializer :: "'a \<Rightarrow> 'a block_initializer \<Rightarrow> 'a block" where
  "sequential_of_initializer z ini =
     (let b = base_of_capacity (ini_start ini) (ini_capacity ini) (ini_default ini)
      in b\<lparr>blk_container := vector_resize z (blk_capacity b) (blk_container b)\<rparr>)"

definition sequential_of_container :: "'a \<Rightarrow> address_t \<Rightarrow> 'a list \<Rightarrow> 'a block" where
  "sequential_of_container z start xs = base_of_container z start xs"

subsection \<open>Validation\<close>

definition block_validate_sz :: "'a block \<Rightarrow> address_t \<Rightarrow> nat \<Rightarrow> (exn, bool) outcome" where
  "block_validate_sz b a n =
     (if 0 < n
      then Ok (blk_start b \<le> a \<and>
               unat (meta_get (blk_start b)) + blk_capacity b \<ge> unat (meta_get a) + n)
      else Throw Std_out_of_range)"

definition block_validate :: "'a block \<Rightarrow> address_t \<Rightarrow> (exn, bool) outcome" where
  "block_validate b a = block_validate_sz b a 1"

text \<open>
  The overloads that take a count object; \<open>v\<close> is the static \<open>validate\<close> of its class
  (\<open>read_count_t\<close> or \<open>write_count_t\<close>).
\<close>

definition block_validate_count ::
    "(u16 \<Rightarrow> bool) \<Rightarrow> 'a block \<Rightarrow> address_t \<Rightarrow> metadata \<Rightarrow> (exn, bool) outcome" where
  "block_validate_count v b a c =
     (if v (meta_get c) then block_validate_sz b a (unat (meta_get c)) else Ok False)"

subsection \<open>Access\<close>

text \<open>\<open>if (!validate(\<dots>)) throw ex::out_of_range(\<dots>);\<close>\<close>

definition require :: "(exn, bool) outcome \<Rightarrow> (exn, 'r) outcome \<Rightarrow> (exn, 'r) outcome" where
  "require v k = bind_outcome v (\<lambda>ok. if ok then k else Throw Std_out_of_range)"

text \<open>\<open>address_t idx = address - starting_address();\<close>\<close>

definition block_idx :: "'a block \<Rightarrow> address_t \<Rightarrow> nat" where
  "block_idx b a = unat (meta_get (a - blk_start b))"

text \<open>\<open>container_[idx()]\<close> and \<open>{container().begin() + idx(), container().begin() + idx() + n}\<close>\<close>

definition container_element :: "'a block \<Rightarrow> nat \<Rightarrow> (exn, nat) outcome" where
  "container_element b i = (if i < length (blk_container b) then Ok i else Undefined)"

definition container_range :: "'a block \<Rightarrow> nat \<Rightarrow> nat \<Rightarrow> (exn, nat \<times> nat) outcome" where
  "container_range b i n =
     (if i + n \<le> length (blk_container b) then Ok (i, i + n) else Undefined)"

definition block_ref :: "'a block \<Rightarrow> address_t \<Rightarrow> (exn, nat) outcome" where
  "block_ref b a = require (block_validate b a) (container_element b (block_idx b a))"

definition block_ref_slice ::
    "'a block \<Rightarrow> address_t \<Rightarrow> nat \<Rightarrow> (exn, nat \<times> nat) outcome" where
  "block_ref_slice b a n =
     require (block_validate_sz b a n) (container_range b (block_idx b a) n)"

definition block_get_slice ::
    "(u16 \<Rightarrow> bool) \<Rightarrow> 'a block \<Rightarrow> address_t \<Rightarrow> metadata \<Rightarrow> (exn, nat \<times> nat) outcome" where
  "block_get_slice v b a c =
     require (block_validate_count v b a c)
       (container_range b (block_idx b a) (unat (meta_get c)))"

text \<open>The elements between two iterators of the container.\<close>

definition block_elements :: "'a block \<Rightarrow> nat \<times> nat \<Rightarrow> 'a list" where
  "block_elements b r = slice (fst r) (snd r - fst r) (blk_container b)"

definition block_get :: "'a block \<Rightarrow> address_t \<Rightarrow> (exn, 'a) outcome" where
  "block_get b a =
     require (block_validate b a)
       (bind_outcome (container_element b (block_idx b a)) (\<lambda>i. Ok (blk_container b ! i)))"

definition block_set_slice :: "'a block \<Rightarrow> address_t \<Rightarrow> 'a list \<Rightarrow> (exn, 'a block) outcome" where
  "block_set_slice b a buffer =
     require (block_validate_sz b a (length buffer))
       (bind_outcome (container_range b (block_idx b a) (length buffer))
         (\<lambda>(i, j). Ok (b\<lparr>blk_container := overwrite i buffer (blk_container b)\<rparr>)))"

definition block_set :: "'a block \<Rightarrow> address_t \<Rightarrow> 'a \<Rightarrow> (exn, 'a block) outcome" where
  "block_set b a x =
     require (block_validate b a)
       (bind_outcome (container_element b (block_idx b a))
         (\<lambda>i. Ok (b\<lparr>blk_container := (blk_container b)[i := x]\<rparr>)))"

definition block_reset :: "'a block \<Rightarrow> 'a block" where
  "block_reset b =
     b\<lparr>blk_container := replicate (length (blk_container b)) (blk_default b)\<rparr>"

section \<open>The invariant and what it gives\<close>

definition block_inv :: "'a block \<Rightarrow> bool" where
  "block_inv b \<longleftrightarrow> length (blk_container b) = blk_capacity b"

text \<open>The addresses from \<open>a\<close> on, \<open>n\<close> of them, are in the block.\<close>

definition in_block :: "'a block \<Rightarrow> address_t \<Rightarrow> nat \<Rightarrow> bool" where
  "in_block b a n \<longleftrightarrow>
     unat (meta_get (blk_start b)) \<le> unat (meta_get a) \<and>
     unat (meta_get a) + n \<le> unat (meta_get (blk_start b)) + blk_capacity b"

definition offset :: "'a block \<Rightarrow> address_t \<Rightarrow> nat" where
  "offset b a = unat (meta_get a) - unat (meta_get (blk_start b))"

text \<open>What is stored from address \<open>a\<close> on, and the block with other values stored there.\<close>

definition stored :: "'a block \<Rightarrow> address_t \<Rightarrow> nat \<Rightarrow> 'a list" where
  "stored b a n = slice (offset b a) n (blk_container b)"

definition store :: "'a block \<Rightarrow> address_t \<Rightarrow> 'a list \<Rightarrow> 'a block" where
  "store b a vs = b\<lparr>blk_container := overwrite (offset b a) vs (blk_container b)\<rparr>"

lemma metadata_le_unat: "a \<le> b \<longleftrightarrow> unat (meta_get a) \<le> unat (meta_get b)"
  by (simp add: less_eq_metadata_def meta_less_eq_def word_le_nat_alt)

lemma block_idx_offset: "in_block b a n \<Longrightarrow> block_idx b a = offset b a"
  by (simp add: in_block_def block_idx_def offset_def unat_sub word_le_nat_alt)

lemma block_validate_sz_eq [simp]:
  "block_validate_sz b a n = (if 0 < n then Ok (in_block b a n) else Throw Std_out_of_range)"
  by (simp add: block_validate_sz_def in_block_def metadata_le_unat)

lemma block_validate_eq [simp]: "block_validate b a = Ok (in_block b a 1)"
  by (simp add: block_validate_def)

lemma offset_in_container:
  "block_inv b \<Longrightarrow> in_block b a n \<Longrightarrow> offset b a + n \<le> length (blk_container b)"
  by (auto simp: block_inv_def in_block_def offset_def)

lemma container_range_in:
  "block_inv b \<Longrightarrow> in_block b a n \<Longrightarrow>
   container_range b (block_idx b a) n = Ok (offset b a, offset b a + n)"
  using offset_in_container [of b a n]
  by (simp add: container_range_def block_idx_offset)

lemma container_element_in:
  "block_inv b \<Longrightarrow> in_block b a 1 \<Longrightarrow> container_element b (block_idx b a) = Ok (offset b a)"
  using offset_in_container [of b a 1]
  by (simp add: container_element_def block_idx_offset)

text \<open>The closed forms of the five accessors on a block that satisfies the invariant.\<close>

lemma block_ref_slice_eq:
  "block_inv b \<Longrightarrow> block_ref_slice b a n =
     (if 0 < n \<and> in_block b a n then Ok (offset b a, offset b a + n)
      else Throw Std_out_of_range)"
  by (simp add: block_ref_slice_def require_def container_range_in)

lemma block_ref_eq:
  "block_inv b \<Longrightarrow> block_ref b a =
     (if in_block b a 1 then Ok (offset b a) else Throw Std_out_of_range)"
  by (simp add: block_ref_def require_def container_element_in)

lemma block_get_slice_eq:
  "block_inv b \<Longrightarrow> (\<And>w. v w \<Longrightarrow> 0 < unat w) \<Longrightarrow> block_get_slice v b a c =
     (if v (meta_get c) \<and> in_block b a (unat (meta_get c))
      then Ok (offset b a, offset b a + unat (meta_get c)) else Throw Std_out_of_range)"
  by (simp add: block_get_slice_def block_validate_count_def require_def container_range_in)

lemma block_elements_eq [simp]: "block_elements b (offset b a, offset b a + n) = stored b a n"
  by (simp add: block_elements_def stored_def)

lemma block_get_eq:
  "block_inv b \<Longrightarrow> block_get b a =
     (if in_block b a 1 then Ok (stored b a 1 ! 0) else Throw Std_out_of_range)"
  using offset_in_container [of b a 1]
  by (simp add: block_get_def require_def container_element_in stored_def nth_slice)

lemma block_set_slice_eq:
  "block_inv b \<Longrightarrow> block_set_slice b a vs =
     (if vs \<noteq> [] \<and> in_block b a (length vs) then Ok (store b a vs)
      else Throw Std_out_of_range)"
  by (simp add: block_set_slice_def require_def container_range_in store_def)

lemma block_set_eq:
  "block_inv b \<Longrightarrow> block_set b a x =
     (if in_block b a 1 then Ok (store b a [x]) else Throw Std_out_of_range)"
  using offset_in_container [of b a 1]
  by (simp add: block_set_def require_def container_element_in store_def overwrite_single Suc_le_eq)

lemma store_fields [simp]:
  "blk_start (store b a vs) = blk_start b"
  "blk_capacity (store b a vs) = blk_capacity b"
  "blk_default (store b a vs) = blk_default b"
  "in_block (store b a vs) a' n = in_block b a' n"
  "offset (store b a vs) a' = offset b a'"
  by (simp_all add: store_def in_block_def offset_def)

lemma block_inv_store [simp]:
  "block_inv b \<Longrightarrow> in_block b a (length vs) \<Longrightarrow> block_inv (store b a vs)"
  using offset_in_container [of b a "length vs"] by (simp add: store_def block_inv_def)

lemma length_stored [simp]:
  "block_inv b \<Longrightarrow> in_block b a n \<Longrightarrow> length (stored b a n) = n"
  using offset_in_container [of b a n] by (simp add: stored_def)

lemma block_inv_constructors [simp]:
  "block_inv (sequential_of_capacity z start cap dflt)"
  "block_inv (sequential_of_initializer z ini)"
  "block_inv (sequential_of_container z start xs)"
  by (simp_all add: block_inv_def sequential_of_capacity_def sequential_of_initializer_def
      sequential_of_container_def base_of_capacity_def base_of_container_def)

lemma block_inv_reset [simp]: "block_inv (block_reset b) = block_inv b"
  by (simp add: block_inv_def block_reset_def)

section \<open>Blocks as stores of cells\<close>

text \<open>The abstract content of a block: a finite map from addresses to values.\<close>

definition block_cells :: "'a block \<Rightarrow> nat \<Rightarrow> 'a option" where
  "block_cells b k =
     (if unat (meta_get (blk_start b)) \<le> k \<and>
         k < unat (meta_get (blk_start b)) + blk_capacity b
      then Some (blk_container b ! (k - unat (meta_get (blk_start b)))) else None)"

text \<open>Reading through the iterators that \<open>ref(address, count)\<close> returns.\<close>

definition block_read :: "'a block \<Rightarrow> address_t \<Rightarrow> nat \<Rightarrow> (exn, 'a list) outcome" where
  "block_read b a n = bind_outcome (block_ref_slice b a n) (\<lambda>r. Ok (block_elements b r))"

lemma block_read_eq:
  "block_inv b \<Longrightarrow> block_read b a n =
     (if 0 < n \<and> in_block b a n then Ok (stored b a n) else Throw Std_out_of_range)"
  by (simp add: block_read_def block_ref_slice_eq)

lemma in_block_cells:
  assumes "0 < n"
  shows "in_block b a n \<longleftrightarrow> all_cells (block_cells b) (unat (meta_get a)) n"
proof
  assume "all_cells (block_cells b) (unat (meta_get a)) n"
  with assms have "block_cells b (unat (meta_get a) + 0) \<noteq> None"
    "block_cells b (unat (meta_get a) + (n - 1)) \<noteq> None"
    by (simp_all only: all_cells_def) simp_all
  with assms show "in_block b a n"
    by (auto simp: block_cells_def in_block_def split: if_splits)
qed (auto simp: all_cells_def block_cells_def in_block_def)

lemma stored_cells:
  assumes "block_inv b" "in_block b a n"
  shows "stored b a n = cell_list (block_cells b) (unat (meta_get a)) n"
proof (rule nth_equalityI)
  show "length (stored b a n) = length (cell_list (block_cells b) (unat (meta_get a)) n)"
    using assms by simp
next
  fix i
  assume "i < length (stored b a n)"
  with assms have "i < n" by simp
  with assms offset_in_container [OF assms] show
    "stored b a n ! i = cell_list (block_cells b) (unat (meta_get a)) n ! i"
    by (auto simp: stored_def nth_slice nth_cell_list block_cells_def in_block_def offset_def)
qed

lemma store_cells:
  assumes "block_inv b" "in_block b a (length vs)"
  shows "block_cells (store b a vs) = put_cells (block_cells b) (unat (meta_get a)) vs"
proof
  fix k
  show "block_cells (store b a vs) k = put_cells (block_cells b) (unat (meta_get a)) vs k"
    using assms offset_in_container [OF assms]
    by (auto simp: block_cells_def put_cells_def store_def nth_overwrite offset_def
        in_block_def block_inv_def)
qed

interpretation block_store: cell_store block_inv block_cells block_read block_set_slice
proof unfold_locales
  fix b :: "'a block" and a n
  assume "block_inv b"
  then show "block_read b a n =
      (if 0 < n \<and> all_cells (block_cells b) (unat (meta_get a)) n
       then Ok (cell_list (block_cells b) (unat (meta_get a)) n) else Throw Std_out_of_range)"
    by (auto simp: block_read_eq in_block_cells [symmetric] stored_cells)
next
  fix b :: "'a block" and a vs
  assume "block_inv b"
  then show "if vs \<noteq> [] \<and> all_cells (block_cells b) (unat (meta_get a)) (length vs)
     then \<exists>b'. block_set_slice b a vs = Ok b' \<and> block_inv b' \<and>
            block_cells b' = put_cells (block_cells b) (unat (meta_get a)) vs
     else block_set_slice b a vs = Throw Std_out_of_range"
    by (auto simp: block_set_slice_eq in_block_cells [symmetric] store_cells)
qed

section \<open>The table\<close>

record table =
  coils :: "bool block"
  discrete_inputs :: "bool block"
  holding_registers :: "u16 block"
  input_registers :: "u16 block"

record table_initializer =
  ini_coils :: "bool block_initializer"
  ini_discrete_inputs :: "bool block_initializer"
  ini_holding_registers :: "u16 block_initializer"
  ini_input_registers :: "u16 block_initializer"

text \<open>The default argument of the constructor: full capacity, address and values zero.\<close>

definition default_initializer :: table_initializer where
  "default_initializer =
     \<lparr>ini_coils = \<lparr>ini_start = Metadata 0, ini_capacity = max_capacity, ini_default = False\<rparr>,
      ini_discrete_inputs =
        \<lparr>ini_start = Metadata 0, ini_capacity = max_capacity, ini_default = False\<rparr>,
      ini_holding_registers =
        \<lparr>ini_start = Metadata 0, ini_capacity = max_capacity, ini_default = 0\<rparr>,
      ini_input_registers =
        \<lparr>ini_start = Metadata 0, ini_capacity = max_capacity, ini_default = 0\<rparr>\<rparr>"

definition make_table :: "table_initializer \<Rightarrow> table" where
  "make_table ini =
     \<lparr>coils = sequential_of_initializer False (ini_coils ini),
      discrete_inputs = sequential_of_initializer False (ini_discrete_inputs ini),
      holding_registers = sequential_of_initializer 0 (ini_holding_registers ini),
      input_registers = sequential_of_initializer 0 (ini_input_registers ini)\<rparr>"

definition table_inv :: "table \<Rightarrow> bool" where
  "table_inv T \<longleftrightarrow> block_inv (coils T) \<and> block_inv (discrete_inputs T) \<and>
     block_inv (holding_registers T) \<and> block_inv (input_registers T)"

lemma table_invD [simp]:
  assumes "table_inv T"
  shows "block_inv (coils T)" "block_inv (discrete_inputs T)"
    "block_inv (holding_registers T)" "block_inv (input_registers T)"
  using assms by (simp_all add: table_inv_def)

lemma table_inv_make [simp]: "table_inv (make_table ini)"
  by (simp add: table_inv_def make_table_def)

lemma table_inv_update [simp]:
  assumes "table_inv T"
  shows "block_inv b \<Longrightarrow> table_inv (T\<lparr>coils := b\<rparr>)"
    "block_inv r \<Longrightarrow> table_inv (T\<lparr>holding_registers := r\<rparr>)"
  using assms by (simp_all add: table_inv_def del: table_invD)

text \<open>The two writable areas of the table are stores again.\<close>

interpretation coil_area: embedded_store block_inv block_cells block_read block_set_slice
  table_inv coils "\<lambda>b T. T\<lparr>coils := b\<rparr>"
  by unfold_locales simp_all

interpretation holding_area: embedded_store block_inv block_cells block_read block_set_slice
  table_inv holding_registers "\<lambda>b T. T\<lparr>holding_registers := b\<rparr>"
  by unfold_locales simp_all

text \<open>A small table for concrete instances: four cells per area, from address 16 on.\<close>

definition sample_table :: table where
  "sample_table =
     make_table
       \<lparr>ini_coils = \<lparr>ini_start = Metadata 16, ini_capacity = 4, ini_default = True\<rparr>,
        ini_discrete_inputs = \<lparr>ini_start = Metadata 16, ini_capacity = 4, ini_default = True\<rparr>,
        ini_holding_registers = \<lparr>ini_start = Metadata 16, ini_capacity = 4, ini_default = 7\<rparr>,
        ini_input_registers = \<lparr>ini_start = Metadata 16, ini_capacity = 4, ini_default = 9\<rparr>\<rparr>"

lemma sample_table_inv [simp]: "table_inv sample_table"
  by (simp add: sample_table_def)

end
