(* ===== verification/Modbus_Response.thy ===== *)
theory Modbus_Response
  imports Modbus_Adu Modbus_Data_Table
begin

text \<open>
  \<open>response.hpp\<close> and \<open>response.cpp\<close>: the base class of responses with the client's check
  of a received packet, and the exception response. The data table a response points to
  is the second component of the state of its \<open>encode\<close>.
\<close>

section \<open>The base class\<close>

datatype stage = stage_bad | stage_error | stage_passed

record response = adu +
  req_header :: header_t

definition make_response :: "function_code \<Rightarrow> header_t \<Rightarrow> response" where
  "make_response f h = adu.extend (adu_of_function f 0x00 0x00) (response.fields h)"

definition make_response_default :: "platform \<Rightarrow> response" where
  "make_response_default P =
     adu.extend (adu_default P)
       (response.fields \<lparr>hd_transaction = 0, hd_length = 0, hd_unit = 0\<rparr>)"

definition initial_check :: "packet_t \<Rightarrow> bool" where
  "initial_check packet \<longleftrightarrow> length packet > header_length"

definition check_stage :: "platform \<Rightarrow> packet_t \<Rightarrow> ('a response_scheme, exn, stage) act" where
  "check_stage P packet =
     (if \<not> initial_check packet then return_act stage_bad
      else
        bind_act (unpack P header_func_format 5 packet 0) (\<lambda>vs.
        bind_act (gets_act req_header) (\<lambda>req.
          if hd_transaction req \<noteq> word_of_nat (vs ! 0) \<or> protocol \<noteq> word_of_nat (vs ! 1) \<or>
             hd_unit req \<noteq> word_of_nat (vs ! 3) \<or>
             vs ! 2 \<noteq> length packet - (header_length - 1)
          then return_act stage_bad
          else
            then_act (decode_header P packet)
            (bind_act (gets_act (\<lambda>r. (adu_function r, adu_function_code r))) (\<lambda>(f, code).
              if \<not> check_function_enum f then return_act stage_bad
              else
                let expected = function_underlying f
                in if expected \<noteq> code \<and> \<not> check_function code
                   then (let diff = code - 0x80
                         in if expected = diff then return_act stage_error
                            else return_act stage_bad)
                   else return_act stage_passed)))))"

text \<open>
  \<open>response::decode\<close>: the virtual \<open>decode_passed\<close> is an argument. Only
  \<open>std::out_of_range\<close> is caught.
\<close>

definition response_decode ::
    "platform \<Rightarrow> (packet_t \<Rightarrow> ('a response_scheme, exn, unit) act) \<Rightarrow> packet_t \<Rightarrow>
     ('a response_scheme, exn, unit) act" where
  "response_decode P decode_passed packet =
     try_act
       (bind_act (check_stage P packet) (\<lambda>st.
          case st of
            stage_bad \<Rightarrow> raise_act (\<lambda>_. Internal bad_data)
          | stage_error \<Rightarrow>
              bind_act (packet_at packet (header_length + 1)) (\<lambda>exc.
              raise_act (\<lambda>r. generate_exception (exception_code_of_byte exc)
                               (adu_function r) (adu_header r)))
          | stage_passed \<Rightarrow> decode_passed packet))
       (\<lambda>e. if e = Std_out_of_range then raise_act (\<lambda>_. Internal bad_data)
            else raise_act (\<lambda>_. e))"

section \<open>The common shape of \<open>encode\<close> and \<open>decode_passed\<close>\<close>

text \<open>Steps on the response object and on the data table.\<close>

definition on_object :: "('r \<Rightarrow> 'r) \<Rightarrow> ('r \<times> table, exn, unit) act" where
  "on_object f = modify_act (\<lambda>(r, T). (f r, T))"

definition of_object :: "('r \<Rightarrow> 'a) \<Rightarrow> ('r \<times> table, exn, 'a) act" where
  "of_object f = gets_act (\<lambda>(r, T). f r)"

text \<open>A const method of the table, and a method that replaces (a part of) the table.\<close>

definition query_table :: "('r \<Rightarrow> table \<Rightarrow> (exn, 'a) outcome) \<Rightarrow> ('r \<times> table, exn, 'a) act" where
  "query_table q = lift_act (\<lambda>(r, T). q r T)"

definition update_table :: "('r \<Rightarrow> table \<Rightarrow> (exn, table) outcome) \<Rightarrow> ('r \<times> table, exn, unit) act" where
  "update_table u s =
     (case s of (r, T) \<Rightarrow>
       (case u r T of Ok T' \<Rightarrow> (Ok (), (r, T')) | Throw e \<Rightarrow> (Throw e, s)
        | Undefined \<Rightarrow> (Undefined, s)))"

declare on_object_def [act_simps] of_object_def [act_simps] query_table_def [act_simps]
  update_table_def [act_simps]

text \<open>The two \<open>catch\<close> clauses of every \<open>encode\<close>.\<close>

definition encode_catch ::
    "('a adu_scheme \<times> table, exn, packet_t) act \<Rightarrow> ('a adu_scheme \<times> table, exn, packet_t) act" where
  "encode_catch body =
     try_act body (\<lambda>e.
       if e = Std_out_of_range
       then raise_act (\<lambda>(r, T). Specification illegal_data_address (adu_function r) (adu_header r))
       else raise_act (\<lambda>(r, T). Specification server_device_failure (adu_function r) (adu_header r)))"

text \<open>\<open>catch (...) { throw ex::bad_data(); }\<close> of every \<open>decode_passed\<close>.\<close>

definition bad_data_catch :: "('r, exn, unit) act \<Rightarrow> ('r, exn, unit) act" where
  "bad_data_catch body = try_act body (\<lambda>e. raise_act (\<lambda>_. Internal bad_data))"

declare encode_catch_def [act_simps] bad_data_catch_def [act_simps]

section \<open>The exception response\<close>

record error_response = response +
  err_code :: exception_code

definition error_packet_size :: nat where
  "error_packet_size = header_length + 2"

text \<open>The constructor from a specification error: its function, header and code.\<close>

definition make_error :: "exception_code \<Rightarrow> function_code \<Rightarrow> header_t \<Rightarrow> error_response" where
  "make_error ec f h =
     initialize \<lparr>init_transaction = hd_transaction h, init_unit = hd_unit h\<rparr>
       (response.extend (make_response f h) (error_response.fields ec))"

definition make_error_default :: "platform \<Rightarrow> exception_code \<Rightarrow> error_response" where
  "make_error_default P ec =
     response.extend (make_response_default P) (error_response.fields ec)"

definition error_encode :: "platform \<Rightarrow> (error_response, exn, packet_t) act" where
  "error_encode P =
     then_act (modify_act (calc_length 1))
     (bind_act (gets_act (header_packet P)) (\<lambda>packet.
      let packet = butlast packet in
      bind_act (gets_act (\<lambda>r. pack P ''BB''
        [unat (function_underlying (adu_function r)) + 0x80,
         unat (exception_underlying (err_code r))])) (\<lambda>pdu.
      let packet = packet @ pdu in
      then_act (throw_if (\<lambda>_. length packet \<noteq> unat (calc_adu_length 1)) (\<lambda>_. Internal bad_data))
      (return_act packet))))"

text \<open>The format \<open>BB\<close> has two fields, the call passes one output.\<close>

definition error_decode :: "platform \<Rightarrow> packet_t \<Rightarrow> (error_response, exn, unit) act" where
  "error_decode P packet =
     then_act (throw_if (\<lambda>_. length packet \<noteq> unat (calc_adu_length 1)) (\<lambda>_. Internal bad_data))
     (then_act (decode_header P packet)
     (bind_act (unpack P ''BB'' 1 packet (header_length + 1)) (\<lambda>vs.
      let ec = word_of_nat (vs ! 0) in
      then_act (throw_if (\<lambda>_. \<not> check_exception ec) (\<lambda>_. Internal bad_exception))
      (modify_act (\<lambda>r. r\<lparr>err_code := exception_code_of_byte ec\<rparr>)))))"

section \<open>Facts\<close>

lemma adu_take_header_response [simp]:
  "req_header (take_header p r) = req_header r"
  by (simp add: take_header_def)

text \<open>What a received packet must look like to pass the checks of the header.\<close>

definition header_matches :: "header_t \<Rightarrow> packet_t \<Rightarrow> bool" where
  "header_matches h p \<longleftrightarrow> 8 \<le> length p \<and> packet_u16 p 0 = hd_transaction h \<and>
     packet_u16 p 2 = 0 \<and> p ! 6 = hd_unit h \<and> unat (packet_u16 p 4) = length p - 6"

text \<open>The stage of a packet, for a response object that expects function \<open>f\<close>.\<close>

definition packet_stage :: "header_t \<Rightarrow> function_code \<Rightarrow> packet_t \<Rightarrow> stage" where
  "packet_stage h f p =
     (if \<not> header_matches h p then stage_bad
      else if check_function (p ! 7) then stage_passed
      else if \<not> check_function_enum f then stage_bad
      else if function_underlying f = p ! 7 then stage_passed
      else if function_underlying f = p ! 7 - 0x80 then stage_error
      else stage_bad)"

lemma check_function_cast:
  "check_function b \<Longrightarrow> check_function_enum (function_code_of_byte b)"
  by (auto simp: check_function_def check_function_enum_def function_code_of_byte_def)

lemma check_stage_eq:
  assumes "platform_ok P"
  shows "check_stage P p r =
    (Ok (packet_stage (req_header r) (adu_function r) p),
     if header_matches (req_header r) p then take_header p r else r)"
proof (cases "8 \<le> length p")
  case False
  then show ?thesis
    by (simp add: check_stage_def initial_check_def header_length_def header_matches_def
        packet_stage_def act_simps)
next
  case True
  have "format_values ''HHHBB'' (drop 0 p) =
      [unat (packet_u16 p 0), unat (packet_u16 p 2), unat (packet_u16 p 4), unat (p ! 6),
       unat (p ! 7)]"
    using True field_value_drop(1) [of 0 p] by (simp add: codec_simps)
  with True assms show ?thesis
    by (auto simp: check_stage_def initial_check_def header_length_def header_func_format_def
        unpack_eq act_simps header_matches_def packet_stage_def decode_header_eq Let_def
        protocol_def tcp_protocol_def check_function_cast take_header_def)
qed

end
