(* ===== verification/Modbus_Request.thy ===== *)
theory Modbus_Request
  imports Modbus_Response
begin

text \<open>
  \<open>request.hpp\<close> and \<open>request.cpp\<close>: the request base class adds no member to \<open>adu\<close>; what
  all requests share are the shape of \<open>decode\<close>, the size check of a response, and the
  class \<open>request::illegal\<close> that stands for a function the server does not support.
\<close>

section \<open>The common shape of requests\<close>

text \<open>\<open>catch (...) { throw ex::server_device_failure(function(), header()); }\<close>\<close>

definition decode_catch ::
    "('a adu_scheme, exn, unit) act \<Rightarrow> ('a adu_scheme, exn, unit) act" where
  "decode_catch body =
     try_act body (\<lambda>e. raise_act
       (\<lambda>a. Specification server_device_failure (adu_function a) (adu_header a)))"

declare decode_catch_def [act_simps]

text \<open>
  \<open>if (packet.at(header_length) != utilities::to_underlying(f)) throw ex::bad_data();\<close>,
  a comparison of a promoted \<open>char\<close> with a promoted \<open>uint8_t\<close>.
\<close>

definition expect_function ::
    "platform \<Rightarrow> ('a adu_scheme \<Rightarrow> function_code) \<Rightarrow> packet_t \<Rightarrow> ('a adu_scheme, exn, unit) act" where
  "expect_function P f packet =
     bind_act (packet_at packet header_length) (\<lambda>b.
     throw_if (\<lambda>a. char_to_int P b \<noteq> uint (function_underlying (f a))) (\<lambda>_. Internal bad_data))"

definition request_response_size :: nat where
  "request_response_size = 0"

text \<open>\<open>check_response_packet\<close>, for a request with the given response size.\<close>

definition check_response_packet :: "nat \<Rightarrow> packet_t \<Rightarrow> bool" where
  "check_response_packet response_size packet \<longleftrightarrow> length packet = response_size"

text \<open>The loop that packs registers one by one, each with format \<open>>H\<close>.\<close>

fun pack_registers :: "platform \<Rightarrow> u16 list \<Rightarrow> packet_t" where
  "pack_registers P [] = []"
| "pack_registers P (v # vs) = pack P ''H'' [unat v] @ pack_registers P vs"

text \<open>
  The loop \<open>for (int idx = 0; idx < n; idx += 2)\<close> that unpacks registers from position
  \<open>start\<close> on and pushes them to a buffer.
\<close>

function unpack_registers ::
    "platform \<Rightarrow> packet_t \<Rightarrow> nat \<Rightarrow> nat \<Rightarrow> nat \<Rightarrow> u16 list \<Rightarrow> ('s, exn, u16 list) act" where
  "unpack_registers P packet start n idx buffer =
     (if idx < n
      then bind_act (unpack P ''H'' 1 packet (start + idx))
        (\<lambda>vs. unpack_registers P packet start n (idx + 2) (buffer @ [word_of_nat (vs ! 0)]))
      else return_act buffer)"
  by pat_completeness auto
termination
  by (relation "measure (\<lambda>(P, packet, start, n, idx, buffer). n - idx)") auto

declare unpack_registers.simps [simp del]

section \<open>The illegal request\<close>

definition make_illegal :: "function_code \<Rightarrow> u16 \<Rightarrow> byte \<Rightarrow> adu" where
  "make_illegal f transaction un = adu_of_function f transaction un"

definition illegal_encode :: "packet_t" where
  "illegal_encode = []"

definition illegal_decode :: "platform \<Rightarrow> packet_t \<Rightarrow> (adu, exn, unit) act" where
  "illegal_decode P packet =
     then_act (decode_header P packet)
     (raise_act (\<lambda>a. Specification illegal_function (adu_function a) (adu_header a)))"

definition illegal_response_size :: nat where
  "illegal_response_size = error_packet_size"

section \<open>Facts\<close>

lemma expect_function_eq:
  assumes "uint (function_underlying (f a)) < 128"
  shows "expect_function P f p a =
     (if 7 < length p
      then (if p ! 7 = function_underlying (f a) then (Ok (), a) else (Throw (Internal bad_data), a))
      else (Throw Std_out_of_range, a))"
  using char_to_int_eq_iff [OF assms, of P "p ! 7"]
  by (simp add: expect_function_def header_length_def act_simps)

definition registers_bytes :: "u16 list \<Rightarrow> packet_t" where
  "registers_bytes vs = concat (map (\<lambda>v. [hi_byte v, lo_byte v]) vs)"

lemma length_registers_bytes [simp]: "length (registers_bytes vs) = 2 * length vs"
  by (induction vs) (simp_all add: registers_bytes_def)

lemma registers_bytes_append [simp]:
  "registers_bytes (vs @ ws) = registers_bytes vs @ registers_bytes ws"
  by (simp add: registers_bytes_def)

lemma pack_registers_eq [codec_simps]:
  "platform_ok P \<Longrightarrow> pack_registers P vs = registers_bytes vs"
proof (induction vs)
  case (Cons v vs)
  then show ?case
    by (simp add: pack_eq field_bytes_u16 registers_bytes_def)
qed (simp add: registers_bytes_def)

text \<open>The registers at positions \<open>i, i + 2, \<dots>\<close> of a packet.\<close>

definition packet_registers :: "packet_t \<Rightarrow> nat \<Rightarrow> nat \<Rightarrow> u16 list" where
  "packet_registers p i n = map (\<lambda>k. packet_u16 p (i + 2 * k)) [0..<n]"

lemma length_packet_registers [simp]: "length (packet_registers p i n) = n"
  by (simp add: packet_registers_def)

lemma packet_registers_Suc:
  "packet_registers p i (Suc n) = packet_u16 p i # packet_registers p (i + 2) n"
  by (simp add: packet_registers_def map_upt_Suc del: upt_Suc)

lemma unpack_registers_loop:
  assumes "platform_ok P"
  shows "start + idx + 2 * k \<le> length p \<Longrightarrow>
     unpack_registers P p start (idx + 2 * k) idx buffer s =
     (Ok (buffer @ packet_registers p (start + idx) k), s)"
proof (induction k arbitrary: idx buffer)
  case 0
  then show ?case
    by (subst unpack_registers.simps) (simp add: act_simps packet_registers_def)
next
  case (Suc k)
  from Suc.IH [of "idx + 2" "buffer @ [packet_u16 p (start + idx)]"] Suc.prems assms
  show ?case
    by (subst unpack_registers.simps)
      (simp add: act_simps codec_simps packet_registers_Suc add.assoc)
qed

lemma unpack_registers_short:
  assumes "platform_ok P"
  shows "0 < k \<Longrightarrow> length p < start + idx + 2 * k \<Longrightarrow>
     unpack_registers P p start (idx + 2 * k) idx buffer s = (Undefined, s)"
proof (induction k arbitrary: idx buffer)
  case (Suc k)
  show ?case
  proof (cases "start + idx + 2 \<le> length p")
    case True
    with Suc.prems Suc.IH [of "idx + 2" "buffer @ [packet_u16 p (start + idx)]"] assms
    show ?thesis
      by (subst unpack_registers.simps) (simp add: act_simps codec_simps add.assoc)
  next
    case False
    with assms show ?thesis
      by (subst unpack_registers.simps) (simp add: act_simps codec_simps)
  qed
qed simp

text \<open>The whole loop, for an even number of bytes.\<close>

lemma unpack_registers_eq [codec_simps]:
  assumes "platform_ok P"
  shows "unpack_registers P p start (2 * k) 0 [] s =
     (if k = 0 \<or> start + 2 * k \<le> length p then (Ok (packet_registers p start k), s)
      else (Undefined, s))"
proof (cases "k = 0")
  case True
  then show ?thesis
    by (subst unpack_registers.simps) (simp add: act_simps packet_registers_def)
next
  case False
  then show ?thesis
    using unpack_registers_loop [OF assms, of start 0 k p "[]" s]
      unpack_registers_short [OF assms, of k p start 0 "[]" s] by simp
qed

text \<open>Registers written to bytes and read back, and the other way round.\<close>

lemma packet_registers_bytes:
  "length p = i + 2 * n \<Longrightarrow> registers_bytes (packet_registers p i n) = drop i p"
proof (induction n arbitrary: i)
  case (Suc n)
  then have "drop i p = p ! i # p ! Suc i # drop (i + 2) p"
    by (simp add: Cons_nth_drop_Suc)
  with Suc show ?case
    by (simp add: packet_registers_Suc registers_bytes_def packet_u16_def)
qed (simp add: packet_registers_def registers_bytes_def)

lemma packet_registers_of_bytes:
  "length h = i \<Longrightarrow> packet_registers (h @ registers_bytes vs @ t) i (length vs) = vs"
proof (induction vs arbitrary: h i)
  case (Cons v vs)
  from Cons.IH [of "h @ [hi_byte v, lo_byte v]" "i + 2"] Cons.prems show ?case
    by (simp add: packet_registers_Suc registers_bytes_def packet_u16_def nth_append)
qed (simp add: packet_registers_def)

lemma illegal_decode_eq:
  "platform_ok P \<Longrightarrow> 8 \<le> length p \<Longrightarrow> illegal_decode P p a =
     (Throw (Specification illegal_function
        (if check_function (p ! 7) then function_code_of_byte (p ! 7) else adu_function a)
        \<lparr>hd_transaction = packet_u16 p 0, hd_length = packet_u16 p 4, hd_unit = p ! 6\<rparr>),
      take_header p a)"
  by (simp add: illegal_decode_def act_simps codec_simps adu_header_def)
    (simp add: take_header_def)

end
