(* ===== verification/Modbus_Operation.thy ===== *)
theory Modbus_Operation
  imports Prelude "HOL-Library.While_Combinator"
begin

unbundle bit_operations_syntax

text \<open>
  \<open>operation.cpp\<close>: packing a range of bits into bytes, least significant bit first, and
  unpacking bytes into bits. The loops are written with the code's own loop variables;
  \<open>pack_bits_chunks\<close> and \<open>unpack_bits_bit\<close> give them a direct reading, from which the
  sizes and the round trips follow.
\<close>

section \<open>The loops\<close>

text \<open>
  The loop of \<open>op::pack_bits\<close>: \<open>shift\<close> and \<open>one_byte\<close> are the \<open>char\<close> variables, which
  stay within \<open>0..7\<close> and one byte.
\<close>

fun pack_bits_loop :: "bool list \<Rightarrow> nat \<Rightarrow> byte \<Rightarrow> packet_t \<Rightarrow> packet_t" where
  "pack_bits_loop [] shift one_byte packet =
     (if shift \<noteq> 0 then packet @ [one_byte] else packet)"
| "pack_bits_loop (b # bs) shift one_byte packet =
     (let one_byte' = one_byte OR push_bit shift (of_bool b)
      in if shift = 7 then pack_bits_loop bs 0 0 (packet @ [one_byte'])
         else pack_bits_loop bs (shift + 1) one_byte' packet)"

definition pack_bits :: "bool list \<Rightarrow> packet_t" where
  "pack_bits bs = pack_bits_loop bs 0 0 []"

text \<open>
  The inner loop of \<open>op::unpack_bits\<close>, \<open>for (int bit = 0x01; bit & 0xff; bit <<= 1)\<close>. It
  stops because doubling eight times clears the low eight bits.
\<close>

function unpack_byte_loop :: "byte \<Rightarrow> int \<Rightarrow> bool list" where
  "unpack_byte_loop c m =
     (if m AND 0xff \<noteq> 0 then (uint c AND m \<noteq> 0) # unpack_byte_loop c (2 * m)
      else [])"
  by pat_completeness auto
termination
proof (relation "measure (\<lambda>(c, m). LEAST n. (256 :: int) dvd m * 2 ^ n)")
  show "wf (measure (\<lambda>(c :: byte, m). LEAST n. (256 :: int) dvd m * 2 ^ n))" by simp
next
  fix c :: byte and m :: int
  assume "m AND 0xff \<noteq> 0"
  moreover have "m AND 0xff = m mod 256"
    using take_bit_eq_mask [of 8 m] by (simp add: take_bit_eq_mod mask_eq_exp_minus_1)
  ultimately have "\<not> 256 dvd m * 2 ^ 0" by (simp add: dvd_eq_mod_eq_0)
  moreover have "256 dvd m * 2 ^ 8" by simp
  ultimately have "(LEAST n. 256 dvd m * 2 ^ n) = Suc (LEAST n. 256 dvd m * 2 ^ Suc n)"
    by (rule Least_Suc [rotated])
  then show "((c, 2 * m), c, m) \<in> measure (\<lambda>(c, m). LEAST n. (256 :: int) dvd m * 2 ^ n)"
    by (simp add: ac_simps)
qed

declare unpack_byte_loop.simps [simp del]

fun unpack_bits :: "packet_t \<Rightarrow> bool list" where
  "unpack_bits [] = []"
| "unpack_bits (c # cs) = unpack_byte_loop c 0x01 @ unpack_bits cs"

section \<open>Unpacking\<close>

lemma uint_and_power: "(uint (c :: byte) AND 2 ^ n \<noteq> 0) = bit c n"
  using bit_imp_le_length [of c n]
  by (auto simp: and_exp_eq_0_iff_not_bit bit_uint_iff)

lemma upt_0_8: "[0..<8] = [0, 1, 2, 3, 4, 5, 6, 7 :: nat]"
  by (simp add: upt_rec)

lemma unpack_byte_loop_eq: "unpack_byte_loop c 1 = map (bit c) [0..<8]"
  using uint_and_power [of c 0] uint_and_power [of c 1] uint_and_power [of c 2]
    uint_and_power [of c 3] uint_and_power [of c 4] uint_and_power [of c 5]
    uint_and_power [of c 6] uint_and_power [of c 7]
  by (simp add: unpack_byte_loop.simps upt_0_8)

lemma length_unpack_bits [simp]: "length (unpack_bits cs) = 8 * length cs"
  by (induction cs) (simp_all add: unpack_byte_loop_eq)

lemma unpack_bits_append [simp]: "unpack_bits (cs @ ds) = unpack_bits cs @ unpack_bits ds"
  by (induction cs) simp_all

lemma unpack_bits_bit: "i < 8 * length cs \<Longrightarrow> unpack_bits cs ! i = bit (cs ! (i div 8)) (i mod 8)"
proof (induction cs arbitrary: i)
  case (Cons c cs)
  show ?case
  proof (cases "i < 8")
    case False
    then have "unpack_bits cs ! (i - 8) = bit (cs ! ((i - 8) div 8)) ((i - 8) mod 8)"
      using Cons.prems by (intro Cons.IH) simp
    with False show ?thesis
      by (simp add: unpack_byte_loop_eq nth_append le_div_geq le_mod_geq)
  qed (simp add: unpack_byte_loop_eq nth_append)
qed simp

section \<open>Packing\<close>

text \<open>The byte that holds the first (at most eight) bits of a list.\<close>

definition byte_of_bits :: "bool list \<Rightarrow> byte" where
  "byte_of_bits bs = horner_sum of_bool 2 (take 8 bs)"

fun pack_bits_chunks :: "bool list \<Rightarrow> packet_t" where
  "pack_bits_chunks [] = []"
| "pack_bits_chunks (b # bs) = byte_of_bits (b # bs) # pack_bits_chunks (drop 7 bs)"

lemma bit_byte_of_bits: "bit (byte_of_bits bs) n \<longleftrightarrow> n < 8 \<and> n < length bs \<and> bs ! n"
  by (auto simp: byte_of_bits_def bit_horner_sum_bit_word_iff min_def)

text \<open>
  The loop, started in the middle of a byte: \<open>done\<close> are the bits already in \<open>one_byte\<close>.
\<close>

lemma byte_of_bits_snoc:
  assumes "length ds < 8"
  shows "byte_of_bits ds OR push_bit (length ds) (of_bool b) = byte_of_bits (ds @ [b])"
proof (rule bit_eqI)
  fix n
  show "bit (byte_of_bits ds OR push_bit (length ds) (of_bool b)) n =
        bit (byte_of_bits (ds @ [b])) n"
    using assms
    by (auto simp: bit_or_iff bit_push_bit_iff bit_byte_of_bits bit_of_bool_iff nth_append
        bit_imp_le_length less_Suc_eq)
qed

lemma pack_bits_loop_chunks:
  assumes "length ds < 8"
  shows "pack_bits_loop bs (length ds) (byte_of_bits ds) packet =
         packet @ pack_bits_chunks (ds @ bs)"
  using assms
proof (induction bs arbitrary: ds packet)
  case Nil
  show ?case
  proof (cases ds)
    case (Cons d ds')
    with Nil show ?thesis by simp
  qed simp
next
  case (Cons b bs)
  note snoc = byte_of_bits_snoc [OF Cons.prems, of b]
  show ?case
  proof (cases "length ds = 7")
    case True
    then obtain d ds' where ds: "ds = d # ds'" "length ds' = 6" by (cases ds) auto
    have chunk: "byte_of_bits (d # ds' @ b # bs) = byte_of_bits (d # ds' @ [b])"
      using ds(2) by (simp add: byte_of_bits_def)
    have "pack_bits_loop bs 0 0 (packet @ [byte_of_bits (ds @ [b])]) =
        (packet @ [byte_of_bits (ds @ [b])]) @ pack_bits_chunks ([] @ bs)"
      using Cons.IH [of "[]"] by (simp add: byte_of_bits_def)
    with True snoc show ?thesis by (simp add: ds chunk)
  next
    case False
    with Cons.prems have "length (ds @ [b]) < 8" by simp
    from Cons.IH [OF this] False snoc show ?thesis by (simp add: Let_def)
  qed
qed

lemma pack_bits_eq_chunks: "pack_bits bs = pack_bits_chunks bs"
  using pack_bits_loop_chunks [of "[]" bs "[]"] by (simp add: pack_bits_def byte_of_bits_def)

lemma length_pack_bits: "length (pack_bits bs) = (length bs + 7) div 8"
  unfolding pack_bits_eq_chunks
proof (induction bs rule: pack_bits_chunks.induct)
  case (2 b bs)
  have "Suc ((n - 7 + 7) div 8) = (8 + n) div 8" for n :: nat by presburger
  with 2 show ?case by simp
qed simp

lemma bits_byte_of_bits:
  "map (bit (byte_of_bits ds)) [0..<8] = take 8 ds @ replicate (8 - length ds) False"
  by (rule nth_equalityI) (auto simp: bit_byte_of_bits nth_append min_def)

lemma unpack_pack_chunks:
  "unpack_bits (pack_bits_chunks bs) =
     bs @ replicate (8 * ((length bs + 7) div 8) - length bs) False"
proof (induction bs rule: pack_bits_chunks.induct)
  case (2 b bs)
  note first = bits_byte_of_bits [of "b # bs"]
  show ?case
  proof (cases "length bs \<le> 7")
    case True
    then have "(8 + length bs) div 8 = 1" by simp
    with True 2 first show ?thesis by (simp add: unpack_byte_loop_eq)
  next
    case False
    with 2 first show ?thesis by (simp add: unpack_byte_loop_eq le_div_geq)
  qed
qed simp

text \<open>
  Packing and unpacking again gives the bits back, followed by the zero bits that fill
  the last byte.
\<close>

lemma unpack_pack_bits:
  "unpack_bits (pack_bits bs) =
     bs @ replicate (8 * ((length bs + 7) div 8) - length bs) False"
  by (simp add: pack_bits_eq_chunks unpack_pack_chunks)

lemma resize_unpack_pack [simp]:
  "vector_resize False (length bs) (unpack_bits (pack_bits bs)) = bs"
  by (simp add: unpack_pack_bits vector_resize_def)

lemma pack_unpack_bits [simp]: "pack_bits (unpack_bits cs) = cs"
  unfolding pack_bits_eq_chunks
proof (induction cs)
  case (Cons c cs)
  have "byte_of_bits (map (bit c) [0..<8] @ bs) = c" for bs
    by (rule bit_eqI) (auto simp: bit_byte_of_bits nth_append bit_imp_le_length)
  then show ?case using Cons
    by (simp add: unpack_byte_loop_eq upt_rec)
qed simp

section \<open>The loop on machine integers\<close>

text \<open>
  The inner loop once more, as the C++ implementation runs it: \<open>bit\<close> is a 32-bit \<open>int\<close>, the
  \<open>char\<close> is promoted to \<open>int\<close> with its own signedness (\<open>sg\<close>), and the loop is a \<open>while\<close> that
  may, as far as its definition goes, run forever (\<open>None\<close>).
\<close>

definition unpack_byte_while :: "bool \<Rightarrow> byte \<Rightarrow> (32 word \<times> bool list) option" where
  "unpack_byte_while sg c =
     while_option (\<lambda>(m, out). m AND 0xff \<noteq> 0)
       (\<lambda>(m, out). (push_bit 1 m, out @ [(if sg then scast c else ucast c) AND m \<noteq> 0]))
       (0x01, [])"

lemma promoted_and_power:
  fixes c :: byte
  assumes "n < 8"
  shows "((if sg then scast c else ucast c :: 32 word) AND 2 ^ n \<noteq> 0) = bit c n"
proof -
  have "bit (if sg then scast c else ucast c :: 32 word) n = bit c n"
    using assms by (auto simp: bit_signed_iff bit_unsigned_iff)
  then show ?thesis by (simp only: and_exp_eq_0_iff_not_bit not_not)
qed

lemma unpack_byte_while_eq: "unpack_byte_while sg c = Some (256, map (bit c) [0..<8])"
  using promoted_and_power [of 0 sg c] promoted_and_power [of 1 sg c]
    promoted_and_power [of 2 sg c] promoted_and_power [of 3 sg c] promoted_and_power [of 4 sg c]
    promoted_and_power [of 5 sg c] promoted_and_power [of 6 sg c] promoted_and_power [of 7 sg c]
  unfolding unpack_byte_while_def
  by (simp add: while_option_unfold upt_0_8)

end
