(* ===== verification/Modbus_Spec.thy ===== *)
theory Modbus_Spec
  imports Modbus_Request Modbus_Operation
begin

text \<open>
  The abstract specification of the server: what a request packet means for the four
  areas of the data table, seen as partial maps from addresses to values. It knows
  nothing of blocks, of the format library, or of the request and response classes. A
  packet gets a verdict: a reply (the PDU after the function byte) and the new areas, a
  failure with an exception code, or \<open>Overread\<close>, when the request is shorter than its
  function needs and the server reads past its end.
\<close>

section \<open>The areas\<close>

record image =
  im_coils :: "nat \<Rightarrow> bool option"
  im_discrete_inputs :: "nat \<Rightarrow> bool option"
  im_holding_registers :: "nat \<Rightarrow> u16 option"
  im_input_registers :: "nat \<Rightarrow> u16 option"

definition table_image :: "table \<Rightarrow> image" where
  "table_image T =
     \<lparr>im_coils = block_cells (coils T), im_discrete_inputs = block_cells (discrete_inputs T),
      im_holding_registers = block_cells (holding_registers T),
      im_input_registers = block_cells (input_registers T)\<rparr>"

datatype verdict = Reply "byte list" image | Fail exception_code | Overread

section \<open>The functions\<close>

text \<open>Positions 8, 10, \<dots> of a request hold its first, second, \<dots> 16-bit field.\<close>

definition u16_bytes :: "u16 \<Rightarrow> byte list" where
  "u16_bytes w = [hi_byte w, lo_byte w]"

definition spec_read_bits ::
    "(image \<Rightarrow> nat \<Rightarrow> bool option) \<Rightarrow> packet_t \<Rightarrow> image \<Rightarrow> verdict" where
  "spec_read_bits area p im =
     (if length p < 12 then Overread
      else let a = unat (packet_u16 p 8); n = unat (packet_u16 p 10)
      in if 1 \<le> n \<and> n \<le> 2000 \<and> all_cells (area im) a n
         then Reply (word_of_nat ((n + 7) div 8) # pack_bits_chunks (cell_list (area im) a n)) im
         else Fail illegal_data_address)"

definition spec_read_registers ::
    "(image \<Rightarrow> nat \<Rightarrow> u16 option) \<Rightarrow> packet_t \<Rightarrow> image \<Rightarrow> verdict" where
  "spec_read_registers area p im =
     (if length p < 12 then Overread
      else let a = unat (packet_u16 p 8); n = unat (packet_u16 p 10)
      in if 1 \<le> n \<and> n \<le> 125 \<and> all_cells (area im) a n
         then Reply (word_of_nat (2 * n) # registers_bytes (cell_list (area im) a n)) im
         else Fail illegal_data_address)"

text \<open>The reply carries the value the coil had before the write.\<close>

definition spec_write_single_coil :: "packet_t \<Rightarrow> image \<Rightarrow> verdict" where
  "spec_write_single_coil p im =
     (if length p < 12 then Overread
      else let a = unat (packet_u16 p 8); v = packet_u16 p 10
      in if v \<noteq> 0 \<and> v \<noteq> 0xFF00 then Fail server_device_failure
         else case im_coils im a of
           None \<Rightarrow> Fail illegal_data_address
         | Some old \<Rightarrow>
             Reply (u16_bytes (packet_u16 p 8) @ u16_bytes (if old then 0xFF00 else 0))
               (im\<lparr>im_coils := put_cells (im_coils im) a [v = 0xFF00]\<rparr>))"

definition spec_write_single_register :: "packet_t \<Rightarrow> image \<Rightarrow> verdict" where
  "spec_write_single_register p im =
     (if length p < 12 then Overread
      else let a = unat (packet_u16 p 8); v = packet_u16 p 10
      in if im_holding_registers im a = None then Fail illegal_data_address
         else Reply (u16_bytes (packet_u16 p 8) @ u16_bytes v)
           (im\<lparr>im_holding_registers := put_cells (im_holding_registers im) a [v]\<rparr>))"

definition spec_write_multiple_coils :: "packet_t \<Rightarrow> image \<Rightarrow> verdict" where
  "spec_write_multiple_coils p im =
     (if length p < 13 then Overread
      else let a = unat (packet_u16 p 8); n = unat (packet_u16 p 10);
               vs = vector_resize False n (unpack_bits (drop 13 p))
      in if 1 \<le> n \<and> n \<le> 1968 \<and> all_cells (im_coils im) a n
         then Reply (u16_bytes (packet_u16 p 8) @ u16_bytes (packet_u16 p 10))
           (im\<lparr>im_coils := put_cells (im_coils im) a vs\<rparr>)
         else Fail illegal_data_address)"

definition spec_write_multiple_registers :: "packet_t \<Rightarrow> image \<Rightarrow> verdict" where
  "spec_write_multiple_registers p im =
     (if length p < 13 then Overread
      else let a = unat (packet_u16 p 8); n = unat (packet_u16 p 10); k = unat (p ! 12)
      in if k \<noteq> 2 * n mod 256 then Fail server_device_failure
         else if length p < 13 + k then Overread
         else if 1 \<le> n \<and> n \<le> 123 \<and> all_cells (im_holding_registers im) a n
         then Reply (u16_bytes (packet_u16 p 8) @ u16_bytes (packet_u16 p 10))
           (im\<lparr>im_holding_registers :=
                 put_cells (im_holding_registers im) a (packet_registers p 13 n)\<rparr>)
         else Fail illegal_data_address)"

definition spec_mask_write_register :: "packet_t \<Rightarrow> image \<Rightarrow> verdict" where
  "spec_mask_write_register p im =
     (if length p < 14 then Overread
      else let a = unat (packet_u16 p 8); m_and = packet_u16 p 10; m_or = packet_u16 p 12
      in case im_holding_registers im a of
           None \<Rightarrow> Fail illegal_data_address
         | Some cur \<Rightarrow>
             Reply (u16_bytes (packet_u16 p 8) @ u16_bytes m_and @ u16_bytes m_or)
               (im\<lparr>im_holding_registers :=
                     put_cells (im_holding_registers im) a [or (and cur m_and) m_or]\<rparr>))"

text \<open>The write comes first, the read sees what was written.\<close>

definition spec_read_write_multiple_registers :: "packet_t \<Rightarrow> image \<Rightarrow> verdict" where
  "spec_read_write_multiple_registers p im =
     (if length p < 17 then Overread
      else let ra = unat (packet_u16 p 8); rn = unat (packet_u16 p 10);
               wa = unat (packet_u16 p 12); wn = unat (packet_u16 p 14); k = unat (p ! 16);
               regs = im_holding_registers im
      in if k \<noteq> 2 * wn mod 256 then Fail server_device_failure
         else if length p < 17 + k then Overread
         else if 1 \<le> rn \<and> rn \<le> 125 \<and> 1 \<le> wn \<and> wn \<le> 123 \<and>
                 all_cells regs ra rn \<and> all_cells regs wa wn
         then let regs' = put_cells regs wa (packet_registers p 17 wn)
              in Reply (word_of_nat (2 * rn) # registers_bytes (cell_list regs' ra rn))
                   (im\<lparr>im_holding_registers := regs'\<rparr>)
         else Fail illegal_data_address)"

text \<open>The meaning of a request packet, by its function byte.\<close>

definition spec_request :: "packet_t \<Rightarrow> image \<Rightarrow> verdict" where
  "spec_request p im =
     (let b = p ! 7 in
      if b = 0x01 then spec_read_bits im_coils p im
      else if b = 0x02 then spec_read_bits im_discrete_inputs p im
      else if b = 0x03 then spec_read_registers im_holding_registers p im
      else if b = 0x04 then spec_read_registers im_input_registers p im
      else if b = 0x05 then spec_write_single_coil p im
      else if b = 0x06 then spec_write_single_register p im
      else if b = 0x0F then spec_write_multiple_coils p im
      else if b = 0x10 then spec_write_multiple_registers p im
      else if b = 0x16 then spec_mask_write_register p im
      else if b = 0x17 then spec_read_write_multiple_registers p im
      else Fail illegal_function)"

section \<open>Serving one function\<close>

text \<open>
  One branch of the server's dispatch: \<open>Request req; req.decode(packet); auto&& res =
  req.execute(data_table); return res->encode();\<close>
\<close>

definition run_function ::
    "('rq, exn, unit) act \<Rightarrow> 'rq \<Rightarrow> ('rq \<Rightarrow> table \<Rightarrow> (exn, 'rs) outcome) \<Rightarrow>
     ('rs \<times> table, exn, packet_t) act \<Rightarrow> (table, exn, packet_t) act" where
  "run_function dec req exe enc T =
     (case dec req of
        (Ok _, rq) \<Rightarrow>
          (case exe rq T of
             Ok rs \<Rightarrow> (case enc (rs, T) of (r, (_, T')) \<Rightarrow> (r, T'))
           | Throw e \<Rightarrow> (Throw e, T)
           | Undefined \<Rightarrow> (Undefined, T))
      | (Throw e, _) \<Rightarrow> (Throw e, T)
      | (Undefined, _) \<Rightarrow> (Undefined, T))"

text \<open>
  A branch implements a verdict: its reply is the packet with the request's transaction
  and unit and the table has the new areas; or it throws the specification error of the
  failure, for its function, and leaves the table alone; or it is undefined.
\<close>

definition implements ::
    "(exn, packet_t) outcome \<times> table \<Rightarrow> packet_t \<Rightarrow> function_code \<Rightarrow> table \<Rightarrow> verdict \<Rightarrow> bool" where
  "implements res p f T v =
     (case v of
        Reply body im \<Rightarrow>
          fst res = Ok (adu_packet (packet_u16 p 0) (p ! 6) (function_underlying f) body) \<and>
          table_image (snd res) = im \<and> table_inv (snd res)
      | Fail ec \<Rightarrow>
          (\<exists>h. fst res = Throw (Specification ec f h) \<and> hd_transaction h = packet_u16 p 0 \<and>
               hd_unit h = p ! 6) \<and> snd res = T
      | Overread \<Rightarrow> fst res = Undefined \<and> snd res = T)"

lemma implements_simps [simp]:
  "implements (r, T') p f T (Reply body im) \<longleftrightarrow>
     r = Ok (adu_packet (packet_u16 p 0) (p ! 6) (function_underlying f) body) \<and>
     table_image T' = im \<and> table_inv T'"
  "implements (r, T') p f T (Fail ec) \<longleftrightarrow>
     (\<exists>h. r = Throw (Specification ec f h) \<and> hd_transaction h = packet_u16 p 0 \<and>
          hd_unit h = p ! 6) \<and> T' = T"
  "implements (r, T') p f T Overread \<longleftrightarrow> r = Undefined \<and> T' = T"
  by (simp_all add: implements_def)

text \<open>
  The contract of a branch: on every packet that carries its function byte, and for every
  table that satisfies the invariant, it implements its verdict. The lemmas below hold
  for every branch that keeps the contract.
\<close>

locale modbus_service =
  fixes run :: "platform \<Rightarrow> packet_t \<Rightarrow> (table, exn, packet_t) act"
    and code :: function_code
    and verdict_of :: "packet_t \<Rightarrow> image \<Rightarrow> verdict"
  assumes contract: "platform_ok P \<Longrightarrow> table_inv T \<Longrightarrow> 8 \<le> length p \<Longrightarrow>
      p ! 7 = function_underlying code \<Longrightarrow>
      implements (run P p T) p code T (verdict_of p (table_image T))"
begin

lemma keeps_table_inv:
  assumes "platform_ok P" "table_inv T" "8 \<le> length p" "p ! 7 = function_underlying code"
  shows "table_inv (snd (run P p T))"
  using contract [OF assms] assms(2)
  by (cases "verdict_of p (table_image T)") (auto simp: implements_def)

lemma throws_specification:
  assumes "platform_ok P" "table_inv T" "8 \<le> length p" "p ! 7 = function_underlying code"
    and "fst (run P p T) = Throw e"
  shows "\<exists>ec h. e = Specification ec code h \<and> verdict_of p (table_image T) = Fail ec \<and>
    hd_transaction h = packet_u16 p 0 \<and> hd_unit h = p ! 6 \<and> snd (run P p T) = T"
  using contract [OF assms(1-4)] assms(5)
  by (cases "verdict_of p (table_image T)") (auto simp: implements_def)

lemma undefined_iff:
  assumes "platform_ok P" "table_inv T" "8 \<le> length p" "p ! 7 = function_underlying code"
  shows "fst (run P p T) = Undefined \<longleftrightarrow> verdict_of p (table_image T) = Overread"
  using contract [OF assms]
  by (cases "verdict_of p (table_image T)") (auto simp: implements_def)

lemma replies:
  assumes "platform_ok P" "table_inv T" "8 \<le> length p" "p ! 7 = function_underlying code"
    and "fst (run P p T) = Ok packet"
  shows "\<exists>body. packet = adu_packet (packet_u16 p 0) (p ! 6) (function_underlying code) body \<and>
    verdict_of p (table_image T) = Reply body (table_image (snd (run P p T)))"
  using contract [OF assms(1-4)] assms(5)
  by (cases "verdict_of p (table_image T)") (auto simp: implements_def)

end

section \<open>Areas and blocks\<close>

lemma table_image_simps [simp]:
  "im_coils (table_image T) = block_cells (coils T)"
  "im_discrete_inputs (table_image T) = block_cells (discrete_inputs T)"
  "im_holding_registers (table_image T) = block_cells (holding_registers T)"
  "im_input_registers (table_image T) = block_cells (input_registers T)"
  by (simp_all add: table_image_def)

lemma table_image_coils:
  "table_inv T \<Longrightarrow> in_block (coils T) a (length vs) \<Longrightarrow>
   table_image (T\<lparr>coils := store (coils T) a vs\<rparr>) =
     (table_image T)\<lparr>im_coils :=
        put_cells (block_cells (coils T)) (unat (meta_get a)) vs\<rparr>"
  by (simp add: table_image_def store_cells)

lemma table_image_holding:
  "table_inv T \<Longrightarrow> in_block (holding_registers T) a (length vs) \<Longrightarrow>
   table_image (T\<lparr>holding_registers := store (holding_registers T) a vs\<rparr>) =
     (table_image T)\<lparr>im_holding_registers :=
        put_cells (block_cells (holding_registers T)) (unat (meta_get a)) vs\<rparr>"
  by (simp add: table_image_def store_cells)

text \<open>One cell.\<close>

lemma in_block_one: "in_block b a 1 \<longleftrightarrow> block_cells b (unat (meta_get a)) \<noteq> None"
  by (simp add: in_block_cells all_cells_def)

lemma stored_one:
  assumes "block_inv b" "in_block b a 1"
  shows "stored b a 1 = [the (block_cells b (unat (meta_get a)))]"
  using stored_cells [OF assms] by (simp add: cell_list_def)

section \<open>Replies of 16-bit fields\<close>

lemma length_u16_bytes [simp]: "length (u16_bytes w) = 2"
  by (simp add: u16_bytes_def)

lemma pack_u16s:
  assumes "platform_ok P"
  shows "pack P ''HH'' [unat a, unat b] = u16_bytes a @ u16_bytes b"
    "pack P ''HHH'' [unat a, unat b, unat c] = u16_bytes a @ u16_bytes b @ u16_bytes c"
  using assms by (simp_all add: pack_eq field_bytes_u16 u16_bytes_def)

lemma header_bytes_four:
  "header_bytes (calc_length 4 a) @ u16_bytes v @ u16_bytes w =
     adu_packet (adu_transaction a) (adu_unit a) (adu_function_code a) (u16_bytes v @ u16_bytes w)"
  by (rule header_bytes_adu_packet) (simp add: u16_bytes_def)

lemma header_bytes_six:
  "header_bytes (calc_length 6 a) @ u16_bytes u @ u16_bytes v @ u16_bytes w =
     adu_packet (adu_transaction a) (adu_unit a) (adu_function_code a)
       (u16_bytes u @ u16_bytes v @ u16_bytes w)"
  by (rule header_bytes_adu_packet) simp

end
