(* ===== verification/Modbus_Bit_Read.thy ===== *)
theory Modbus_Bit_Read
  imports Modbus_Spec
begin

text \<open>
  \<open>bit-read.hpp\<close>, \<open>bit-read.inline.hpp\<close> and \<open>bit-read.cpp\<close>: reading coils (0x01) and
  discrete inputs (0x02). The class template is instantiated for two function codes; its
  code-specific members differ only in the block they use, which is an argument here
  (\<open>area\<close>), and the two instances are the definitions with the code's names.
\<close>

section \<open>The request\<close>

record read_bits_request = adu +
  rbq_address :: address_t
  rbq_count :: read_num_bits_t

definition make_read_bits_request ::
    "function_code \<Rightarrow> address_t \<Rightarrow> read_num_bits_t \<Rightarrow> read_bits_request" where
  "make_read_bits_request f address count =
     adu.extend (adu_of_function f 0x00 0x00) (read_bits_request.fields address count)"

text \<open>The object \<open>request::read_coils req;\<close>: default address 0 and default count 1.\<close>

definition new_read_bits_request :: "function_code \<Rightarrow> read_bits_request" where
  "new_read_bits_request f = make_read_bits_request f (Metadata 0) (Metadata 1)"

definition read_bits_byte_count :: "read_bits_request \<Rightarrow> u16" where
  "read_bits_byte_count r =
     (let byte_count = meta_get (rbq_count r) div 8;
          remainder = meta_get (rbq_count r) mod 8
      in if remainder \<noteq> 0 then byte_count + 1 else byte_count)"

definition read_bits_response_size :: "read_bits_request \<Rightarrow> nat" where
  "read_bits_response_size r = unat (calc_adu_length (1 + read_bits_byte_count r))"

definition read_bits_encode :: "platform \<Rightarrow> (read_bits_request, exn, packet_t) act" where
  "read_bits_encode P =
     then_act (throw_if (\<lambda>r. \<not> meta_valid (rbq_address r) \<or> \<not> meta_valid (rbq_count r))
                 (\<lambda>_. Internal bad_data))
     (then_act (modify_act (calc_length 4))
     (bind_act (gets_act (header_packet P)) (\<lambda>packet.
      bind_act (gets_act (\<lambda>r. pack P ''HH'' [unat (meta_get (rbq_address r)),
                                            unat (meta_get (rbq_count r))])) (\<lambda>pdu.
      return_act (packet @ pdu)))))"

definition read_bits_decode ::
    "platform \<Rightarrow> function_code \<Rightarrow> packet_t \<Rightarrow> (read_bits_request, exn, unit) act" where
  "read_bits_decode P fc packet =
     decode_catch
       (then_act (expect_function P (\<lambda>_. fc) packet)
       (then_act (decode_header P packet)
       (bind_act (unpack P ''HH'' 2 packet (header_length + 1)) (\<lambda>vs.
        modify_act (\<lambda>r. r\<lparr>rbq_address := Metadata (word_of_nat (vs ! 0)),
                          rbq_count := Metadata (word_of_nat (vs ! 1))\<rparr>)))))"

section \<open>The response\<close>

record read_bits_response = response +
  rbs_request :: read_bits_request
  rbs_count :: u16
  rbs_bits :: "bool list"

definition make_read_bits_response ::
    "platform \<Rightarrow> function_code \<Rightarrow> read_bits_request \<Rightarrow> read_bits_response" where
  "make_read_bits_response P fc rq =
     initialize \<lparr>init_transaction = adu_transaction rq, init_unit = adu_unit rq\<rparr>
       (response.extend (make_response fc (adu_header rq))
          (read_bits_response.fields rq (indet_u16 P) []))"

definition read_bits_execute ::
    "platform \<Rightarrow> function_code \<Rightarrow> (table \<Rightarrow> bool block) \<Rightarrow> read_bits_request \<Rightarrow> table \<Rightarrow>
     (exn, read_bits_response) outcome" where
  "read_bits_execute P fc area rq T =
     (if \<not> meta_valid (rbq_count rq)
      then Throw (Specification illegal_data_value (adu_function rq) (adu_header rq))
      else bind_outcome
        (block_validate_count (num_bits_validate False) (area T) (rbq_address rq) (rbq_count rq))
        (\<lambda>ok. if \<not> ok
              then Throw (Specification illegal_data_address (adu_function rq) (adu_header rq))
              else Ok (make_read_bits_response P fc rq)))"

definition read_bits_response_encode ::
    "platform \<Rightarrow> (table \<Rightarrow> bool block) \<Rightarrow> (read_bits_response \<times> table, exn, packet_t) act" where
  "read_bits_response_encode P area =
     encode_catch
       (bind_act (query_table (\<lambda>r T. block_get_slice (num_bits_validate False) (area T)
                    (rbq_address (rbs_request r)) (rbq_count (rbs_request r)))) (\<lambda>range.
        bind_act (query_table (\<lambda>r T. Ok (block_elements (area T) range))) (\<lambda>elems.
        then_act (on_object (\<lambda>r. r\<lparr>rbs_bits := elems\<rparr>))
        (then_act (on_object (\<lambda>r. calc_length (read_bits_byte_count (rbs_request r) + 1) r))
        (bind_act (of_object (header_packet P)) (\<lambda>packet.
         bind_act (of_object (\<lambda>r. pack P ''B'' [unat (read_bits_byte_count (rbs_request r))])) (\<lambda>pdu.
         let packet = packet @ pdu @ pack_bits elems in
         then_act (throw_if
             (\<lambda>(r, T). \<not> check_response_packet (read_bits_response_size (rbs_request r)) packet)
             (\<lambda>(r, T). Specification server_device_failure (adu_function r) (adu_header r)))
         (return_act packet))))))))"

definition read_bits_decode_passed ::
    "platform \<Rightarrow> packet_t \<Rightarrow> (read_bits_response, exn, unit) act" where
  "read_bits_decode_passed P packet =
     bad_data_catch
       (then_act (throw_if (\<lambda>r. length packet \<noteq> read_bits_response_size (rbs_request r))
                    (\<lambda>_. Internal bad_data))
       (let byte_idx = header_length + 1 in
        bind_act (packet_index packet byte_idx) (\<lambda>b.
        then_act (modify_act (\<lambda>r. r\<lparr>rbs_count := char_to_u16 P b\<rparr>))
        (then_act (throw_if (\<lambda>r. rbs_count r \<noteq> meta_get (rbq_count (rbs_request r)))
                     (\<lambda>_. Internal bad_data))
        (bind_act (packet_range packet (byte_idx + 1)) (\<lambda>bytes.
         let buffer = unpack_bits bytes in
         then_act (throw_if
             (\<lambda>r. length buffer \<noteq> unat (meta_get (rbq_count (rbs_request r))))
             (\<lambda>_. Internal bad_data))
         (modify_act (\<lambda>r. r\<lparr>rbs_bits := buffer\<rparr>))))))))"

section \<open>The two instances\<close>

definition read_coils_execute :: "platform \<Rightarrow> read_bits_request \<Rightarrow> table \<Rightarrow>
    (exn, read_bits_response) outcome" where
  "read_coils_execute P = read_bits_execute P read_coils coils"

definition read_discrete_inputs_execute :: "platform \<Rightarrow> read_bits_request \<Rightarrow> table \<Rightarrow>
    (exn, read_bits_response) outcome" where
  "read_discrete_inputs_execute P = read_bits_execute P read_discrete_inputs discrete_inputs"

definition read_coils_encode :: "platform \<Rightarrow> (read_bits_response \<times> table, exn, packet_t) act" where
  "read_coils_encode P = read_bits_response_encode P coils"

definition read_discrete_inputs_encode ::
    "platform \<Rightarrow> (read_bits_response \<times> table, exn, packet_t) act" where
  "read_discrete_inputs_encode P = read_bits_response_encode P discrete_inputs"

section \<open>What the operations compute\<close>

lemma read_bits_response_frame [simp]:
  "rbs_request (calc_length n r) = rbs_request r"
  "rbs_request (initialize i r) = rbs_request r"
  "rbs_request (take_header p r) = rbs_request r"
  "rbs_bits (calc_length n r) = rbs_bits r"
  "rbs_bits (take_header p r) = rbs_bits r"
  by (cases r; simp add: calc_length_def initialize_def take_header_def)+

lemma unat_read_bits_byte_count:
  "unat (read_bits_byte_count r) = (unat (meta_get (rbq_count r)) + 7) div 8"
proof -
  let ?c = "meta_get (rbq_count r)"
  have d: "unat (?c div 8) = unat ?c div 8" and m: "unat (?c mod 8) = unat ?c mod 8"
    by (simp_all add: unat_div unat_mod)
  have "unat ?c div 8 < 65535" using unat_u16_less [of ?c] by linarith
  then have s: "unat (?c div 8 + 1) = unat ?c div 8 + 1"
    using d by (simp add: unat_word_ariths)
  have z: "?c mod 8 = 0 \<longleftrightarrow> unat ?c mod 8 = 0"
    using m by (metis unat_eq_zero)
  show ?thesis
    unfolding read_bits_byte_count_def Let_def z using d s by (auto; presburger)
qed

lemma read_bits_decode_eq:
  assumes "platform_ok P" "uint (function_underlying fc) < 128" "8 \<le> length p"
    "p ! 7 = function_underlying fc"
  shows "read_bits_decode P fc p r =
    (if 12 \<le> length p
     then (Ok (), (take_header p r)\<lparr>rbq_address := Metadata (packet_u16 p 8),
                                   rbq_count := Metadata (packet_u16 p 10)\<rparr>)
     else (Undefined, take_header p r))"
  using assms by (simp add: read_bits_decode_def act_simps expect_function_eq codec_simps
      header_length_def)

lemma read_bits_execute_eq:
  "read_bits_execute P fc area rq T =
    (if num_bits_validate False (meta_get (rbq_count rq)) \<and>
        in_block (area T) (rbq_address rq) (unat (meta_get (rbq_count rq)))
     then Ok (make_read_bits_response P fc rq)
     else Throw (Specification illegal_data_address (adu_function rq) (adu_header rq)))"
  by (simp add: read_bits_execute_def block_validate_count_def num_bits_validate_unat)

lemma read_bits_response_size_eq:
  assumes "num_bits_validate False (meta_get (rbq_count rq))"
  shows "read_bits_response_size rq = 9 + (unat (meta_get (rbq_count rq)) + 7) div 8"
proof -
  have "unat (meta_get (rbq_count rq)) \<le> 2000"
    using assms by (simp add: num_bits_validate_unat)
  then have "unat (read_bits_byte_count rq) < 256"
    by (simp add: unat_read_bits_byte_count)
  then show ?thesis
    by (simp add: read_bits_response_size_def unat_calc_adu_length unat_add_u16
        unat_read_bits_byte_count)
qed

text \<open>\<open>encode\<close> on any response object whose request is valid for the block.\<close>

lemma read_bits_response_encode_eq:
  fixes rs :: read_bits_response
  defines "rq \<equiv> rbs_request rs"
  defines "n \<equiv> unat (meta_get (rbq_count rq))"
  assumes "platform_ok P" "block_inv (area T)"
    and v: "num_bits_validate False (meta_get (rbq_count rq))"
    and "in_block (area T) (rbq_address rq) n"
  defines "E \<equiv> stored (area T) (rbq_address rq) n"
  shows "read_bits_response_encode P area (rs, T) =
    (Ok (header_bytes (calc_length (read_bits_byte_count rq + 1) rs) @
         word_of_nat ((n + 7) div 8) # pack_bits E),
     (calc_length (read_bits_byte_count rq + 1) (rs\<lparr>rbs_bits := E\<rparr>), T))"
proof -
  have n: "0 < n" "n \<le> 2000" using v by (simp_all add: num_bits_validate_unat n_def)
  have bc: "unat (read_bits_byte_count rq) = (n + 7) div 8"
    by (simp add: unat_read_bits_byte_count n_def)
  have "(n + 7) div 8 < 256" using n(2) by simp
  then have p: "pack P ''B'' [unat (read_bits_byte_count rq)] = [word_of_nat ((n + 7) div 8)]"
    using assms(3) bc by (simp add: pack_eq field_bytes_def)
  have E: "length (pack_bits E) = (n + 7) div 8"
    using assms(4,6) by (simp add: E_def length_pack_bits)
  have sz: "read_bits_response_size rq = 9 + (n + 7) div 8"
    using read_bits_response_size_eq [OF v] by (simp add: n_def)
  have g: "block_get_slice (num_bits_validate False) (area T) (rbq_address rq) (rbq_count rq) =
      Ok (offset (area T) (rbq_address rq), offset (area T) (rbq_address rq) + n)"
    using assms(4,6) v by (simp add: block_get_slice_eq [OF _ num_bits_positive] n_def)
  have hb: "header_bytes (calc_length k (rs\<lparr>rbs_bits := E\<rparr>)) = header_bytes (calc_length k rs)"
    for k by (simp add: header_bytes_def calc_length_def)
  show ?thesis
    by (simp add: read_bits_response_encode_def act_simps g
        E_def [symmetric] rq_def [symmetric] header_packet_eq [OF assms(3)] hb p
        check_response_packet_def E sz)
qed

section \<open>The branches of the server\<close>

definition serve_read_bits ::
    "function_code \<Rightarrow> (table \<Rightarrow> bool block) \<Rightarrow> platform \<Rightarrow> packet_t \<Rightarrow> (table, exn, packet_t) act" where
  "serve_read_bits fc area P packet =
     run_function (read_bits_decode P fc packet) (new_read_bits_request fc)
       (read_bits_execute P fc area) (read_bits_response_encode P area)"

lemma make_read_bits_response_simps [simp]:
  "rbs_request (make_read_bits_response P fc rq) = rq"
  "adu_transaction (make_read_bits_response P fc rq) = adu_transaction rq"
  "adu_unit (make_read_bits_response P fc rq) = adu_unit rq"
  "adu_function (make_read_bits_response P fc rq) = fc"
  "adu_function_code (make_read_bits_response P fc rq) = function_underlying fc"
  "req_header (make_read_bits_response P fc rq) = adu_header rq"
  by (simp_all add: make_read_bits_response_def response.extend_def read_bits_response.fields_def
      make_response_def adu.extend_def response.fields_def adu_of_function_def initialize_def)

lemma serve_read_bits_implements:
  assumes P: "platform_ok P" and T: "table_inv T" and "8 \<le> length p"
    and "p ! 7 = function_underlying fc" and fc: "fc_named fc" "uint (function_underlying fc) < 128"
      "check_function (function_underlying fc)"
    and area: "block_inv (area T)" "iarea (table_image T) = block_cells (area T)"
  shows "implements (serve_read_bits fc area P p T) p fc T (spec_read_bits iarea p (table_image T))"
proof (cases "12 \<le> length p")
  case False
  with assms show ?thesis
    by (simp add: serve_read_bits_def run_function_def read_bits_decode_eq spec_read_bits_def)
next
  case True
  define rq where "rq = (take_header p (new_read_bits_request fc))
    \<lparr>rbq_address := Metadata (packet_u16 p 8), rbq_count := Metadata (packet_u16 p 10)\<rparr>"
  let ?a = "packet_u16 p 8" and ?n = "unat (packet_u16 p 10)"
  have dec: "read_bits_decode P fc p (new_read_bits_request fc) = (Ok (), rq)"
    using assms True by (simp add: read_bits_decode_eq rq_def)
  have rq: "rbq_address rq = Metadata ?a" "rbq_count rq = Metadata (packet_u16 p 10)"
    "adu_transaction rq = packet_u16 p 0" "adu_unit rq = p ! 6" "adu_function rq = fc"
    using assms by (simp_all add: rq_def) (simp add: take_header_def fc_named_def)
  let ?ok = "num_bits_validate False (packet_u16 p 10) \<and> in_block (area T) (Metadata ?a) ?n"
  have ok: "?ok \<longleftrightarrow> 1 \<le> ?n \<and> ?n \<le> 2000 \<and> all_cells (block_cells (area T)) (unat ?a) ?n"
    by (auto simp: num_bits_validate_unat in_block_cells)
  show ?thesis
  proof (cases ?ok)
    case False
    have "spec_read_bits iarea p (table_image T) = Fail illegal_data_address"
      using True area(2) False ok by (auto simp: spec_read_bits_def Let_def)
    then show ?thesis
      by (simp add: serve_read_bits_def run_function_def dec read_bits_execute_eq rq False
          adu_header_def)
  next
    case ok': True
    let ?E = "stored (area T) (Metadata ?a) ?n"
    have E: "?E = cell_list (block_cells (area T)) (unat ?a) ?n"
      using stored_cells [OF area(1)] ok' by simp
    have spec: "spec_read_bits iarea p (table_image T) =
        Reply (word_of_nat ((?n + 7) div 8) # pack_bits ?E) (table_image T)"
      using True area(2) ok ok' by (simp add: spec_read_bits_def Let_def E pack_bits_eq_chunks)
    have "unat (read_bits_byte_count rq) = (?n + 7) div 8"
      by (simp add: unat_read_bits_byte_count rq)
    then have "read_bits_byte_count rq = word_of_nat ((?n + 7) div 8)"
      by (rule word_eq_of_unat)
    then have len: "read_bits_byte_count rq + 1 =
        word_of_nat (length (word_of_nat ((?n + 7) div 8) # pack_bits ?E))"
      using ok' area(1) by (simp add: length_pack_bits)
    show ?thesis
      using ok' header_bytes_adu_packet [OF len, of "make_read_bits_response P fc rq"]
      by (simp add: serve_read_bits_def run_function_def dec read_bits_execute_eq rq area(1)
          read_bits_response_encode_eq [OF P] spec T)
  qed
qed

interpretation read_coils_service: modbus_service "serve_read_bits read_coils coils"
  read_coils "spec_read_bits im_coils"
  by unfold_locales
    (rule serve_read_bits_implements; simp add: fc_named_def function_code_of_byte_def
      check_function_def)

interpretation read_discrete_inputs_service: modbus_service
  "serve_read_bits read_discrete_inputs discrete_inputs"
  read_discrete_inputs "spec_read_bits im_discrete_inputs"
  by unfold_locales
    (rule serve_read_bits_implements; simp add: fc_named_def function_code_of_byte_def
      check_function_def)

end
