(* ===== verification/Modbus_Register_Read.thy ===== *)
theory Modbus_Register_Read
  imports Modbus_Spec
begin

text \<open>
  \<open>register-read.hpp\<close>, \<open>register-read.inline.hpp\<close> and \<open>register-read.cpp\<close>: reading holding
  registers (0x03) and input registers (0x04). As for bits, the class template's two
  instances differ in the block they use (\<open>area\<close>).
\<close>

section \<open>The request\<close>

record read_registers_request = adu +
  rrq_address :: address_t
  rrq_count :: read_num_regs_t

definition make_read_registers_request ::
    "function_code \<Rightarrow> address_t \<Rightarrow> read_num_regs_t \<Rightarrow> read_registers_request" where
  "make_read_registers_request f address count =
     adu.extend (adu_of_function f 0x00 0x00) (read_registers_request.fields address count)"

definition new_read_registers_request :: "function_code \<Rightarrow> read_registers_request" where
  "new_read_registers_request f = make_read_registers_request f (Metadata 0) (Metadata 1)"

definition read_registers_byte_count :: "read_registers_request \<Rightarrow> u16" where
  "read_registers_byte_count r = meta_get (rrq_count r) * 2"

definition read_registers_response_size :: "read_registers_request \<Rightarrow> nat" where
  "read_registers_response_size r = unat (calc_adu_length (1 + read_registers_byte_count r))"

definition read_registers_encode :: "platform \<Rightarrow> (read_registers_request, exn, packet_t) act" where
  "read_registers_encode P =
     then_act (throw_if (\<lambda>r. \<not> meta_valid (rrq_address r) \<or> \<not> meta_valid (rrq_count r))
                 (\<lambda>_. Internal bad_data))
     (then_act (modify_act (calc_length 4))
     (bind_act (gets_act (header_packet P)) (\<lambda>packet.
      bind_act (gets_act (\<lambda>r. pack P ''HH'' [unat (meta_get (rrq_address r)),
                                            unat (meta_get (rrq_count r))])) (\<lambda>pdu.
      return_act (packet @ pdu)))))"

definition read_registers_decode ::
    "platform \<Rightarrow> function_code \<Rightarrow> packet_t \<Rightarrow> (read_registers_request, exn, unit) act" where
  "read_registers_decode P fc packet =
     decode_catch
       (then_act (expect_function P (\<lambda>_. fc) packet)
       (then_act (decode_header P packet)
       (bind_act (unpack P ''HH'' 2 packet (header_length + 1)) (\<lambda>vs.
        modify_act (\<lambda>r. r\<lparr>rrq_address := Metadata (word_of_nat (vs ! 0)),
                          rrq_count := Metadata (word_of_nat (vs ! 1))\<rparr>)))))"

section \<open>The response\<close>

record read_registers_response = response +
  rrs_request :: read_registers_request
  rrs_count :: u16
  rrs_registers :: "u16 list"

definition make_read_registers_response ::
    "platform \<Rightarrow> function_code \<Rightarrow> read_registers_request \<Rightarrow> read_registers_response" where
  "make_read_registers_response P fc rq =
     initialize \<lparr>init_transaction = adu_transaction rq, init_unit = adu_unit rq\<rparr>
       (response.extend (make_response fc (adu_header rq))
          (read_registers_response.fields rq (indet_u16 P) []))"

definition read_registers_execute ::
    "platform \<Rightarrow> function_code \<Rightarrow> (table \<Rightarrow> u16 block) \<Rightarrow> read_registers_request \<Rightarrow> table \<Rightarrow>
     (exn, read_registers_response) outcome" where
  "read_registers_execute P fc area rq T =
     (if \<not> meta_valid (rrq_count rq)
      then Throw (Specification illegal_data_value (adu_function rq) (adu_header rq))
      else bind_outcome
        (block_validate_count (num_regs_validate False) (area T) (rrq_address rq) (rrq_count rq))
        (\<lambda>ok. if \<not> ok
              then Throw (Specification illegal_data_address (adu_function rq) (adu_header rq))
              else Ok (make_read_registers_response P fc rq)))"

definition read_registers_response_encode ::
    "platform \<Rightarrow> (table \<Rightarrow> u16 block) \<Rightarrow> (read_registers_response \<times> table, exn, packet_t) act" where
  "read_registers_response_encode P area =
     encode_catch
       (bind_act (query_table (\<lambda>r T. block_get_slice (num_regs_validate False) (area T)
                    (rrq_address (rrs_request r)) (rrq_count (rrs_request r)))) (\<lambda>range.
        bind_act (query_table (\<lambda>r T. Ok (block_elements (area T) range))) (\<lambda>elems.
        then_act (on_object (\<lambda>r. r\<lparr>rrs_registers := elems\<rparr>))
        (then_act (on_object (\<lambda>r. calc_length (read_registers_byte_count (rrs_request r) + 1) r))
        (bind_act (of_object (header_packet P)) (\<lambda>packet.
         bind_act (of_object (\<lambda>r. pack P ''B''
                     [unat (read_registers_byte_count (rrs_request r))])) (\<lambda>pdu.
         let packet = packet @ pdu @ pack_registers P elems in
         then_act (throw_if
             (\<lambda>(r, T). \<not> check_response_packet (read_registers_response_size (rrs_request r)) packet)
             (\<lambda>(r, T). Specification server_device_failure (adu_function r) (adu_header r)))
         (return_act packet))))))))"

definition read_registers_decode_passed ::
    "platform \<Rightarrow> packet_t \<Rightarrow> (read_registers_response, exn, unit) act" where
  "read_registers_decode_passed P packet =
     bad_data_catch
       (then_act (throw_if (\<lambda>r. length packet \<noteq> read_registers_response_size (rrs_request r))
                    (\<lambda>_. Internal bad_data))
       (let byte_idx = header_length + 1 in
        bind_act (packet_index packet byte_idx) (\<lambda>b.
        then_act (modify_act (\<lambda>r. r\<lparr>rrs_count := char_to_u16 P b\<rparr>))
        (then_act (throw_if (\<lambda>r. rrs_count r \<noteq> read_registers_byte_count (rrs_request r))
                     (\<lambda>_. Internal bad_data))
        (bind_act (gets_act (\<lambda>r. unat (read_registers_byte_count (rrs_request r)))) (\<lambda>n.
         bind_act (unpack_registers P packet (byte_idx + 1) n 0 []) (\<lambda>buffer.
         then_act (throw_if
             (\<lambda>r. length buffer \<noteq> unat (meta_get (rrq_count (rrs_request r))))
             (\<lambda>_. Internal bad_data))
         (modify_act (\<lambda>r. r\<lparr>rrs_registers := buffer\<rparr>)))))))))"

section \<open>The two instances\<close>

definition read_holding_registers_execute :: "platform \<Rightarrow> read_registers_request \<Rightarrow> table \<Rightarrow>
    (exn, read_registers_response) outcome" where
  "read_holding_registers_execute P =
     read_registers_execute P read_holding_registers holding_registers"

definition read_input_registers_execute :: "platform \<Rightarrow> read_registers_request \<Rightarrow> table \<Rightarrow>
    (exn, read_registers_response) outcome" where
  "read_input_registers_execute P = read_registers_execute P read_input_registers input_registers"

definition read_holding_registers_encode ::
    "platform \<Rightarrow> (read_registers_response \<times> table, exn, packet_t) act" where
  "read_holding_registers_encode P = read_registers_response_encode P holding_registers"

definition read_input_registers_encode ::
    "platform \<Rightarrow> (read_registers_response \<times> table, exn, packet_t) act" where
  "read_input_registers_encode P = read_registers_response_encode P input_registers"

section \<open>What the operations compute\<close>

lemma read_registers_response_frame [simp]:
  "rrs_request (calc_length n r) = rrs_request r"
  "rrs_request (initialize i r) = rrs_request r"
  "rrs_request (take_header p r) = rrs_request r"
  "rrs_registers (calc_length n r) = rrs_registers r"
  "rrs_registers (take_header p r) = rrs_registers r"
  by (cases r; simp add: calc_length_def initialize_def take_header_def)+

lemma unat_read_registers_byte_count:
  "num_regs_validate False (meta_get (rrq_count r)) \<Longrightarrow>
   unat (read_registers_byte_count r) = 2 * unat (meta_get (rrq_count r))"
  by (simp add: read_registers_byte_count_def num_regs_validate_unat unat_word_ariths)

lemma read_registers_decode_eq:
  assumes "platform_ok P" "uint (function_underlying fc) < 128" "8 \<le> length p"
    "p ! 7 = function_underlying fc"
  shows "read_registers_decode P fc p r =
    (if 12 \<le> length p
     then (Ok (), (take_header p r)\<lparr>rrq_address := Metadata (packet_u16 p 8),
                                   rrq_count := Metadata (packet_u16 p 10)\<rparr>)
     else (Undefined, take_header p r))"
  using assms by (simp add: read_registers_decode_def act_simps expect_function_eq codec_simps
      header_length_def)

lemma read_registers_execute_eq:
  "read_registers_execute P fc area rq T =
    (if num_regs_validate False (meta_get (rrq_count rq)) \<and>
        in_block (area T) (rrq_address rq) (unat (meta_get (rrq_count rq)))
     then Ok (make_read_registers_response P fc rq)
     else Throw (Specification illegal_data_address (adu_function rq) (adu_header rq)))"
  by (simp add: read_registers_execute_def block_validate_count_def num_regs_validate_unat)

lemma read_registers_response_size_eq:
  assumes "num_regs_validate False (meta_get (rrq_count rq))"
  shows "read_registers_response_size rq = 9 + 2 * unat (meta_get (rrq_count rq))"
proof -
  have "unat (meta_get (rrq_count rq)) \<le> 125"
    using assms by (simp add: num_regs_validate_unat)
  then show ?thesis
    by (simp add: read_registers_response_size_def unat_calc_adu_length unat_add_u16
        unat_read_registers_byte_count [OF assms])
qed

text \<open>\<open>encode\<close> on any response object whose request is valid for the block.\<close>

lemma read_registers_response_encode_eq:
  fixes rs :: read_registers_response
  defines "rq \<equiv> rrs_request rs"
  defines "n \<equiv> unat (meta_get (rrq_count rq))"
  assumes "platform_ok P" "block_inv (area T)"
    and v: "num_regs_validate False (meta_get (rrq_count rq))"
    and "in_block (area T) (rrq_address rq) n"
  defines "E \<equiv> stored (area T) (rrq_address rq) n"
  shows "read_registers_response_encode P area (rs, T) =
    (Ok (header_bytes (calc_length (read_registers_byte_count rq + 1) rs) @
         word_of_nat (2 * n) # registers_bytes E),
     (calc_length (read_registers_byte_count rq + 1) (rs\<lparr>rrs_registers := E\<rparr>), T))"
proof -
  have n: "n \<le> 125" using v by (simp_all add: num_regs_validate_unat n_def)
  have bc: "unat (read_registers_byte_count rq) = 2 * n"
    by (simp add: unat_read_registers_byte_count [OF v] n_def)
  have p: "pack P ''B'' [unat (read_registers_byte_count rq)] = [word_of_nat (2 * n)]"
    using assms(3) bc n by (simp add: pack_eq field_bytes_def)
  have E: "length E = n" using assms(4,6) by (simp add: E_def)
  have sz: "read_registers_response_size rq = 9 + 2 * n"
    using read_registers_response_size_eq [OF v] by (simp add: n_def)
  have g: "block_get_slice (num_regs_validate False) (area T) (rrq_address rq) (rrq_count rq) =
      Ok (offset (area T) (rrq_address rq), offset (area T) (rrq_address rq) + n)"
    using assms(4,6) v by (simp add: block_get_slice_eq [OF _ num_regs_positive] n_def)
  have hb: "header_bytes (calc_length k (rs\<lparr>rrs_registers := E\<rparr>)) =
      header_bytes (calc_length k rs)" for k by (simp add: header_bytes_def)
  show ?thesis
    by (simp add: read_registers_response_encode_def act_simps g E_def [symmetric]
        rq_def [symmetric] header_packet_eq [OF assms(3)] pack_registers_eq [OF assms(3)] hb p
        check_response_packet_def E sz)
qed

section \<open>The branches of the server\<close>

definition serve_read_registers ::
    "function_code \<Rightarrow> (table \<Rightarrow> u16 block) \<Rightarrow> platform \<Rightarrow> packet_t \<Rightarrow> (table, exn, packet_t) act" where
  "serve_read_registers fc area P packet =
     run_function (read_registers_decode P fc packet) (new_read_registers_request fc)
       (read_registers_execute P fc area) (read_registers_response_encode P area)"

lemma make_read_registers_response_simps [simp]:
  "rrs_request (make_read_registers_response P fc rq) = rq"
  "adu_transaction (make_read_registers_response P fc rq) = adu_transaction rq"
  "adu_unit (make_read_registers_response P fc rq) = adu_unit rq"
  "adu_function (make_read_registers_response P fc rq) = fc"
  "adu_function_code (make_read_registers_response P fc rq) = function_underlying fc"
  "req_header (make_read_registers_response P fc rq) = adu_header rq"
  by (simp_all add: make_read_registers_response_def response.extend_def
      read_registers_response.fields_def make_response_def adu.extend_def response.fields_def
      adu_of_function_def initialize_def)

lemma serve_read_registers_implements:
  assumes P: "platform_ok P" and T: "table_inv T" and "8 \<le> length p"
    and "p ! 7 = function_underlying fc" and fc: "fc_named fc" "uint (function_underlying fc) < 128"
      "check_function (function_underlying fc)"
    and area: "block_inv (area T)" "iarea (table_image T) = block_cells (area T)"
  shows "implements (serve_read_registers fc area P p T) p fc T
    (spec_read_registers iarea p (table_image T))"
proof (cases "12 \<le> length p")
  case False
  with assms show ?thesis
    by (simp add: serve_read_registers_def run_function_def read_registers_decode_eq
        spec_read_registers_def)
next
  case True
  define rq where "rq = (take_header p (new_read_registers_request fc))
    \<lparr>rrq_address := Metadata (packet_u16 p 8), rrq_count := Metadata (packet_u16 p 10)\<rparr>"
  let ?a = "packet_u16 p 8" and ?n = "unat (packet_u16 p 10)"
  have dec: "read_registers_decode P fc p (new_read_registers_request fc) = (Ok (), rq)"
    using assms True by (simp add: read_registers_decode_eq rq_def)
  have rq: "rrq_address rq = Metadata ?a" "rrq_count rq = Metadata (packet_u16 p 10)"
    "adu_transaction rq = packet_u16 p 0" "adu_unit rq = p ! 6" "adu_function rq = fc"
    using assms by (simp_all add: rq_def) (simp add: take_header_def fc_named_def)
  let ?ok = "num_regs_validate False (packet_u16 p 10) \<and> in_block (area T) (Metadata ?a) ?n"
  have ok: "?ok \<longleftrightarrow> 1 \<le> ?n \<and> ?n \<le> 125 \<and> all_cells (block_cells (area T)) (unat ?a) ?n"
    by (auto simp: num_regs_validate_unat in_block_cells)
  show ?thesis
  proof (cases ?ok)
    case False
    have "spec_read_registers iarea p (table_image T) = Fail illegal_data_address"
      using True area(2) False ok by (auto simp: spec_read_registers_def Let_def)
    then show ?thesis
      by (simp add: serve_read_registers_def run_function_def dec read_registers_execute_eq rq
          False adu_header_def)
  next
    case ok': True
    let ?E = "stored (area T) (Metadata ?a) ?n"
    have E: "?E = cell_list (block_cells (area T)) (unat ?a) ?n"
      using stored_cells [OF area(1)] ok' by simp
    have spec: "spec_read_registers iarea p (table_image T) =
        Reply (word_of_nat (2 * ?n) # registers_bytes ?E) (table_image T)"
      using True area(2) ok ok' by (simp add: spec_read_registers_def Let_def E)
    have "unat (read_registers_byte_count rq) = 2 * ?n"
      using ok' by (simp add: unat_read_registers_byte_count rq)
    then have "read_registers_byte_count rq = word_of_nat (2 * ?n)"
      by (rule word_eq_of_unat)
    then have len: "read_registers_byte_count rq + 1 =
        word_of_nat (length (word_of_nat (2 * ?n) # registers_bytes ?E))"
      using ok' area(1) by simp
    show ?thesis
      using ok' header_bytes_adu_packet [OF len, of "make_read_registers_response P fc rq"]
      by (simp add: serve_read_registers_def run_function_def dec read_registers_execute_eq rq
          area(1) read_registers_response_encode_eq [OF P] spec T)
  qed
qed

interpretation read_holding_registers_service: modbus_service
  "serve_read_registers read_holding_registers holding_registers"
  read_holding_registers "spec_read_registers im_holding_registers"
  by unfold_locales
    (rule serve_read_registers_implements; simp add: fc_named_def function_code_of_byte_def
      check_function_def)

interpretation read_input_registers_service: modbus_service
  "serve_read_registers read_input_registers input_registers"
  read_input_registers "spec_read_registers im_input_registers"
  by unfold_locales
    (rule serve_read_registers_implements; simp add: fc_named_def function_code_of_byte_def
      check_function_def)

end
