(* ===== verification/Modbus_Bit_Write.thy ===== *)
theory Modbus_Bit_Write
  imports Modbus_Spec
begin

text \<open>
  \<open>bit-write.hpp\<close> and \<open>bit-write.cpp\<close>: writing a single coil (0x05) and multiple coils
  (0x0F), requests and responses.
\<close>

section \<open>Write single coil: the request\<close>

record write_single_coil_request = adu +
  wcq_address :: address_t
  wcq_value :: value_bits

definition make_write_single_coil_request ::
    "address_t \<Rightarrow> value_bits \<Rightarrow> write_single_coil_request" where
  "make_write_single_coil_request address v =
     adu.extend (adu_of_function write_single_coil 0x00 0x00)
       (write_single_coil_request.fields address v)"

definition new_write_single_coil_request :: write_single_coil_request where
  "new_write_single_coil_request = make_write_single_coil_request (Metadata 0) bits_on"

definition write_single_coil_response_size :: "write_single_coil_request \<Rightarrow> nat" where
  "write_single_coil_response_size r = unat (calc_adu_length 4)"

definition write_single_coil_encode ::
    "platform \<Rightarrow> (write_single_coil_request, exn, packet_t) act" where
  "write_single_coil_encode P =
     then_act (throw_if (\<lambda>r. \<not> meta_valid (wcq_address r)) (\<lambda>_. Internal bad_data))
     (then_act (modify_act (calc_length 4))
     (bind_act (gets_act (header_packet P)) (\<lambda>packet.
      bind_act (gets_act (\<lambda>r. pack P ''HH'' [unat (meta_get (wcq_address r)),
                                            unat (bits_underlying (wcq_value r))])) (\<lambda>pdu.
      return_act (packet @ pdu)))))"

definition write_single_coil_decode ::
    "platform \<Rightarrow> packet_t \<Rightarrow> (write_single_coil_request, exn, unit) act" where
  "write_single_coil_decode P packet =
     decode_catch
       (then_act (expect_function P adu_function packet)
       (then_act (decode_header P packet)
       (bind_act (unpack P ''HH'' 2 packet (header_length + 1)) (\<lambda>vs.
        then_act (modify_act (\<lambda>r. r\<lparr>wcq_address := Metadata (word_of_nat (vs ! 0))\<rparr>))
        (let temp = word_of_nat (vs ! 1) in
         if check_bits_value temp then modify_act (\<lambda>r. r\<lparr>wcq_value := bits_of_u16 temp\<rparr>)
         else raise_act (\<lambda>_. Internal bad_data))))))"

section \<open>Write single coil: the response\<close>

record write_single_coil_response = response +
  wcs_request :: write_single_coil_request
  wcs_value :: value_bits

definition make_write_single_coil_response ::
    "platform \<Rightarrow> write_single_coil_request \<Rightarrow> write_single_coil_response" where
  "make_write_single_coil_response P rq =
     initialize \<lparr>init_transaction = adu_transaction rq, init_unit = adu_unit rq\<rparr>
       (response.extend (make_response (adu_function rq) (adu_header rq))
          (write_single_coil_response.fields rq (bits_of_u16 (indet_u16 P))))"

definition write_single_coil_execute ::
    "platform \<Rightarrow> write_single_coil_request \<Rightarrow> table \<Rightarrow> (exn, write_single_coil_response) outcome" where
  "write_single_coil_execute P rq T =
     (if \<not> check_bits_value (bits_underlying (wcq_value rq))
      then Throw (Specification illegal_data_value (adu_function rq) (adu_header rq))
      else bind_outcome (block_validate (coils T) (wcq_address rq))
        (\<lambda>ok. if \<not> ok
              then Throw (Specification illegal_data_address (adu_function rq) (adu_header rq))
              else Ok (make_write_single_coil_response P rq)))"

text \<open>The value in the reply is read from the table before the table is written.\<close>

definition write_single_coil_response_encode ::
    "platform \<Rightarrow> (write_single_coil_response \<times> table, exn, packet_t) act" where
  "write_single_coil_response_encode P =
     encode_catch
       (bind_act (query_table (\<lambda>r T. block_get (coils T) (wcq_address (wcs_request r)))) (\<lambda>v.
        then_act (on_object (\<lambda>r. r\<lparr>wcs_value := if v then bits_on else bits_off\<rparr>))
        (then_act (on_object (calc_length 4))
        (bind_act (of_object (header_packet P)) (\<lambda>packet.
         bind_act (of_object (\<lambda>r. pack P ''HH''
            [unat (meta_get (wcq_address (wcs_request r))),
             unat (bits_underlying (wcs_value r))])) (\<lambda>pdu.
         let packet = packet @ pdu in
         then_act (throw_if
             (\<lambda>(r, T). \<not> check_response_packet
                          (write_single_coil_response_size (wcs_request r)) packet)
             (\<lambda>(r, T). Specification server_device_failure (adu_function r) (adu_header r)))
         (then_act (update_table (\<lambda>r T.
            bind_outcome (block_set (coils T) (wcq_address (wcs_request r))
                            (wcq_value (wcs_request r) = bits_on))
              (\<lambda>b. Ok (T\<lparr>coils := b\<rparr>))))
         (return_act packet))))))))"

definition write_single_coil_decode_passed ::
    "platform \<Rightarrow> packet_t \<Rightarrow> (write_single_coil_response, exn, unit) act" where
  "write_single_coil_decode_passed P packet =
     bad_data_catch
       (then_act (throw_if
          (\<lambda>r. length packet \<noteq> write_single_coil_response_size (wcs_request r))
          (\<lambda>_. Internal bad_data))
       (let address_idx = header_length + 1 in
        bind_act (unpack P ''HH'' 2 packet address_idx) (\<lambda>vs.
        let address = word_of_nat (vs ! 0); v = word_of_nat (vs ! 1) in
        then_act (throw_if (\<lambda>r. meta_get (wcq_address (wcs_request r)) \<noteq> address)
                    (\<lambda>_. Internal bad_data))
        (then_act (throw_if
            (\<lambda>r. bits_underlying (wcq_value (wcs_request r)) \<noteq> v \<and> check_bits_value v)
            (\<lambda>_. Internal bad_data))
        (modify_act (\<lambda>r. r\<lparr>wcs_value := bits_of_u16 v\<rparr>))))))"

section \<open>Write multiple coils: the request\<close>

record write_multiple_coils_request = adu +
  wmcq_address :: address_t
  wmcq_count :: write_num_bits_t
  wmcq_values :: "bool list"
  wmcq_byte_count :: byte

text \<open>\<open>byte_count()\<close>: the count is cut to eight bits before it is divided.\<close>

definition coils_byte_count :: "write_num_bits_t \<Rightarrow> byte" where
  "coils_byte_count count =
     (let byte_count = ucast (meta_get count) div 8;
          remainder = ucast (meta_get count) mod (8 :: byte)
      in if remainder \<noteq> 0 then byte_count + 1 else byte_count)"

definition make_write_multiple_coils_request ::
    "address_t \<Rightarrow> write_num_bits_t \<Rightarrow> bool list \<Rightarrow> write_multiple_coils_request" where
  "make_write_multiple_coils_request address count values =
     adu.extend (adu_of_function write_multiple_coils 0x00 0x00)
       (write_multiple_coils_request.fields address count values (coils_byte_count count))"

definition new_write_multiple_coils_request :: write_multiple_coils_request where
  "new_write_multiple_coils_request =
     make_write_multiple_coils_request (Metadata 0) (Metadata 1) []"

definition write_multiple_coils_data_length :: "write_multiple_coils_request \<Rightarrow> u16" where
  "write_multiple_coils_data_length r = 4 + 1 + ucast (wmcq_byte_count r)"

definition write_multiple_coils_response_size :: "write_multiple_coils_request \<Rightarrow> nat" where
  "write_multiple_coils_response_size r = unat (calc_adu_length 4)"

definition write_multiple_coils_encode ::
    "platform \<Rightarrow> (write_multiple_coils_request, exn, packet_t) act" where
  "write_multiple_coils_encode P =
     then_act (throw_if (\<lambda>r. \<not> meta_valid (wmcq_address r) \<or> \<not> meta_valid (wmcq_count r))
                 (\<lambda>_. Internal bad_data))
     (then_act (modify_act (\<lambda>r. calc_length (write_multiple_coils_data_length r) r))
     (bind_act (gets_act (header_packet P)) (\<lambda>packet.
      bind_act (gets_act (\<lambda>r. pack P ''HHB''
         [unat (meta_get (wmcq_address r)), unat (meta_get (wmcq_count r)),
          unat (coils_byte_count (wmcq_count r))])) (\<lambda>pdu.
      bind_act (gets_act (\<lambda>r. pack_bits (wmcq_values r))) (\<lambda>values_packet.
      let packet = packet @ pdu @ values_packet in
      then_act (throw_if
         (\<lambda>r. length packet \<noteq> unat (write_multiple_coils_data_length r) + header_length + 1)
         (\<lambda>_. Internal bad_data))
      (return_act packet))))))"

definition write_multiple_coils_decode ::
    "platform \<Rightarrow> packet_t \<Rightarrow> (write_multiple_coils_request, exn, unit) act" where
  "write_multiple_coils_decode P packet =
     decode_catch
       (then_act (expect_function P adu_function packet)
       (then_act (decode_header P packet)
       (let values_idx = header_length + 1 + 5 in
        bind_act (unpack P ''HHB'' 3 packet (header_length + 1)) (\<lambda>vs.
        then_act (modify_act (\<lambda>r. r\<lparr>wmcq_address := Metadata (word_of_nat (vs ! 0)),
                                   wmcq_count := Metadata (word_of_nat (vs ! 1)),
                                   wmcq_byte_count := word_of_nat (vs ! 2)\<rparr>))
        (bind_act (packet_range packet values_idx) (\<lambda>bytes.
         modify_act (\<lambda>r. r\<lparr>wmcq_values :=
            vector_resize False (unat (meta_get (wmcq_count r))) (unpack_bits bytes)\<rparr>)))))))"

section \<open>Write multiple coils: the response\<close>

record write_multiple_coils_response = response +
  wmcs_request :: write_multiple_coils_request
  wmcs_address :: address_t
  wmcs_count :: write_num_bits_t

definition make_write_multiple_coils_response ::
    "write_multiple_coils_request \<Rightarrow> write_multiple_coils_response" where
  "make_write_multiple_coils_response rq =
     initialize \<lparr>init_transaction = adu_transaction rq, init_unit = adu_unit rq\<rparr>
       (response.extend (make_response (adu_function rq) (adu_header rq))
          (write_multiple_coils_response.fields rq (Metadata 0) (Metadata 1)))"

definition write_multiple_coils_execute ::
    "write_multiple_coils_request \<Rightarrow> table \<Rightarrow> (exn, write_multiple_coils_response) outcome" where
  "write_multiple_coils_execute rq T =
     (if \<not> meta_valid (wmcq_count rq)
      then Throw (Specification illegal_data_value (adu_function rq) (adu_header rq))
      else bind_outcome
        (block_validate_count (num_bits_validate True) (coils T) (wmcq_address rq) (wmcq_count rq))
        (\<lambda>ok. if \<not> ok
              then Throw (Specification illegal_data_address (adu_function rq) (adu_header rq))
              else Ok (make_write_multiple_coils_response rq)))"

definition write_multiple_coils_response_encode ::
    "platform \<Rightarrow> (write_multiple_coils_response \<times> table, exn, packet_t) act" where
  "write_multiple_coils_response_encode P =
     encode_catch
       (then_act (on_object (calc_length 4))
       (bind_act (of_object (header_packet P)) (\<lambda>packet.
        bind_act (of_object (\<lambda>r. pack P ''HH''
           [unat (meta_get (wmcq_address (wmcs_request r))),
            unat (meta_get (wmcq_count (wmcs_request r)))])) (\<lambda>pdu.
        then_act (update_table (\<lambda>r T.
           bind_outcome (block_set_slice (coils T) (wmcq_address (wmcs_request r))
                           (wmcq_values (wmcs_request r)))
             (\<lambda>b. Ok (T\<lparr>coils := b\<rparr>))))
        (return_act (packet @ pdu))))))"

definition write_multiple_coils_decode_passed ::
    "platform \<Rightarrow> packet_t \<Rightarrow> (write_multiple_coils_response, exn, unit) act" where
  "write_multiple_coils_decode_passed P packet =
     bad_data_catch
       (then_act (throw_if
          (\<lambda>r. length packet \<noteq> write_multiple_coils_response_size (wmcs_request r))
          (\<lambda>_. Internal bad_data))
       (let address_idx = header_length + 1 in
        bind_act (unpack P ''HH'' 2 packet address_idx) (\<lambda>vs.
        then_act (modify_act (\<lambda>r. r\<lparr>wmcs_address := Metadata (word_of_nat (vs ! 0)),
                                   wmcs_count := Metadata (word_of_nat (vs ! 1))\<rparr>))
        (then_act (throw_if (\<lambda>r. wmcq_address (wmcs_request r) \<noteq> wmcs_address r)
                    (\<lambda>_. Internal bad_data))
        (throw_if (\<lambda>r. wmcq_count (wmcs_request r) \<noteq> wmcs_count r)
                    (\<lambda>_. Internal bad_data))))))"

section \<open>What the operations compute\<close>

lemma write_single_coil_response_frame [simp]:
  "wcs_request (calc_length n r) = wcs_request r"
  "wcs_request (initialize i r) = wcs_request r"
  "wcs_request (take_header p r) = wcs_request r"
  "wcs_value (calc_length n r) = wcs_value r"
  by (cases r; simp add: calc_length_def initialize_def take_header_def)+

lemma write_multiple_coils_response_frame [simp]:
  "wmcs_request (calc_length n r) = wmcs_request r"
  "wmcs_request (initialize i r) = wmcs_request r"
  "wmcs_request (take_header p r) = wmcs_request r"
  by (cases r; simp add: calc_length_def initialize_def take_header_def)+

lemma write_single_coil_decode_eq:
  assumes "platform_ok P" "adu_function r = write_single_coil" "8 \<le> length p" "p ! 7 = 0x05"
  defines "h \<equiv> (take_header p r)\<lparr>wcq_address := Metadata (packet_u16 p 8)\<rparr>"
  shows "write_single_coil_decode P p r =
    (if 12 \<le> length p
     then if check_bits_value (packet_u16 p 10)
          then (Ok (), h\<lparr>wcq_value := bits_of_u16 (packet_u16 p 10)\<rparr>)
          else (Throw (Specification server_device_failure write_single_coil (adu_header h)), h)
     else (Undefined, take_header p r))"
proof -
  have "adu_function h = write_single_coil"
    using assms by (simp add: h_def take_header_def function_code_of_byte_def)
  with assms show ?thesis
    by (simp add: write_single_coil_decode_def act_simps expect_function_eq codec_simps
        header_length_def Let_def)
qed

lemma write_multiple_coils_decode_eq:
  assumes "platform_ok P" "adu_function r = write_multiple_coils" "8 \<le> length p" "p ! 7 = 0x0F"
  shows "write_multiple_coils_decode P p r =
    (if 13 \<le> length p
     then (Ok (), (take_header p r)\<lparr>wmcq_address := Metadata (packet_u16 p 8),
             wmcq_count := Metadata (packet_u16 p 10), wmcq_byte_count := p ! 12,
             wmcq_values := vector_resize False (unat (packet_u16 p 10))
                              (unpack_bits (drop 13 p))\<rparr>)
     else (Undefined, take_header p r))"
  using assms by (simp add: write_multiple_coils_decode_def act_simps expect_function_eq
      codec_simps header_length_def Let_def)

lemma write_single_coil_execute_eq:
  "check_bits_value (bits_underlying (wcq_value rq)) \<Longrightarrow>
   write_single_coil_execute P rq T =
    (if in_block (coils T) (wcq_address rq) 1 then Ok (make_write_single_coil_response P rq)
     else Throw (Specification illegal_data_address (adu_function rq) (adu_header rq)))"
  by (simp add: write_single_coil_execute_def)

lemma write_multiple_coils_execute_eq:
  "write_multiple_coils_execute rq T =
    (if num_bits_validate True (meta_get (wmcq_count rq)) \<and>
        in_block (coils T) (wmcq_address rq) (unat (meta_get (wmcq_count rq)))
     then Ok (make_write_multiple_coils_response rq)
     else Throw (Specification illegal_data_address (adu_function rq) (adu_header rq)))"
  by (simp add: write_multiple_coils_execute_def block_validate_count_def num_bits_validate_unat)

text \<open>The encoders, on any response object whose request addresses cells of the block.\<close>

lemma write_single_coil_response_encode_eq:
  fixes rs :: write_single_coil_response
  defines "rq \<equiv> wcs_request rs"
  assumes P: "platform_ok P" and inv: "block_inv (coils T)"
    and i: "in_block (coils T) (wcq_address rq) 1"
  defines "old \<equiv> (if stored (coils T) (wcq_address rq) 1 ! 0 then bits_on else bits_off)"
  shows "write_single_coil_response_encode P (rs, T) =
    (Ok (header_bytes (calc_length 4 rs) @ u16_bytes (meta_get (wcq_address rq)) @
         u16_bytes (bits_underlying old)),
     (calc_length 4 (rs\<lparr>wcs_value := old\<rparr>),
      T\<lparr>coils := store (coils T) (wcq_address rq) [wcq_value rq = bits_on]\<rparr>))"
proof -
  have hb: "header_bytes (calc_length 4 (rs\<lparr>wcs_value := v\<rparr>)) = header_bytes (calc_length 4 rs)"
    for v by (simp add: header_bytes_def)
  show ?thesis
    using i inv
    by (simp add: write_single_coil_response_encode_def act_simps block_get_eq block_set_eq
        old_def rq_def [symmetric] header_packet_eq [OF P] hb pack_u16s [OF P]
        check_response_packet_def write_single_coil_response_size_def Let_def)
qed

lemma write_multiple_coils_response_encode_eq:
  fixes rs :: write_multiple_coils_response
  defines "rq \<equiv> wmcs_request rs"
  assumes P: "platform_ok P" and inv: "block_inv (coils T)" and "wmcq_values rq \<noteq> []"
    and i: "in_block (coils T) (wmcq_address rq) (length (wmcq_values rq))"
  shows "write_multiple_coils_response_encode P (rs, T) =
    (Ok (header_bytes (calc_length 4 rs) @ u16_bytes (meta_get (wmcq_address rq)) @
         u16_bytes (meta_get (wmcq_count rq))),
     (calc_length 4 rs, T\<lparr>coils := store (coils T) (wmcq_address rq) (wmcq_values rq)\<rparr>))"
  using assms(4) i inv
  by (simp add: write_multiple_coils_response_encode_def act_simps block_set_slice_eq
      rq_def [symmetric] header_packet_eq [OF P] pack_u16s [OF P])

section \<open>The branches of the server\<close>

definition serve_write_single_coil :: "platform \<Rightarrow> packet_t \<Rightarrow> (table, exn, packet_t) act" where
  "serve_write_single_coil P packet =
     run_function (write_single_coil_decode P packet) new_write_single_coil_request
       (write_single_coil_execute P) (write_single_coil_response_encode P)"

definition serve_write_multiple_coils :: "platform \<Rightarrow> packet_t \<Rightarrow> (table, exn, packet_t) act" where
  "serve_write_multiple_coils P packet =
     run_function (write_multiple_coils_decode P packet) new_write_multiple_coils_request
       write_multiple_coils_execute (write_multiple_coils_response_encode P)"

lemma make_write_single_coil_response_simps [simp]:
  "wcs_request (make_write_single_coil_response P rq) = rq"
  "adu_transaction (make_write_single_coil_response P rq) = adu_transaction rq"
  "adu_unit (make_write_single_coil_response P rq) = adu_unit rq"
  "adu_function (make_write_single_coil_response P rq) = adu_function rq"
  "adu_function_code (make_write_single_coil_response P rq) = function_underlying (adu_function rq)"
  "req_header (make_write_single_coil_response P rq) = adu_header rq"
  by (simp_all add: make_write_single_coil_response_def response.extend_def
      write_single_coil_response.fields_def make_response_def adu.extend_def response.fields_def
      adu_of_function_def initialize_def)

lemma make_write_multiple_coils_response_simps [simp]:
  "wmcs_request (make_write_multiple_coils_response rq) = rq"
  "adu_transaction (make_write_multiple_coils_response rq) = adu_transaction rq"
  "adu_unit (make_write_multiple_coils_response rq) = adu_unit rq"
  "adu_function (make_write_multiple_coils_response rq) = adu_function rq"
  "adu_function_code (make_write_multiple_coils_response rq) =
     function_underlying (adu_function rq)"
  "req_header (make_write_multiple_coils_response rq) = adu_header rq"
  by (simp_all add: make_write_multiple_coils_response_def response.extend_def
      write_multiple_coils_response.fields_def make_response_def adu.extend_def
      response.fields_def adu_of_function_def initialize_def)

lemma new_write_coil_function [simp]:
  "adu_function new_write_single_coil_request = write_single_coil"
  "adu_function new_write_multiple_coils_request = write_multiple_coils"
  by (simp_all add: new_write_single_coil_request_def make_write_single_coil_request_def
      new_write_multiple_coils_request_def make_write_multiple_coils_request_def
      adu.extend_def adu_of_function_def)

lemma serve_write_single_coil_implements:
  assumes P: "platform_ok P" and T: "table_inv T" and "8 \<le> length p" "p ! 7 = 0x05"
  shows "implements (serve_write_single_coil P p T) p write_single_coil T
    (spec_write_single_coil p (table_image T))"
proof (cases "12 \<le> length p \<and> check_bits_value (packet_u16 p 10)")
  case False
  with assms show ?thesis
    by (auto simp: serve_write_single_coil_def run_function_def write_single_coil_decode_eq
        spec_write_single_coil_def Let_def adu_header_def check_bits_value_def)
next
  case True
  define rq where "rq = (take_header p new_write_single_coil_request)
    \<lparr>wcq_address := Metadata (packet_u16 p 8), wcq_value := bits_of_u16 (packet_u16 p 10)\<rparr>"
  let ?a = "Metadata (packet_u16 p 8)" and ?v = "packet_u16 p 10"
  have dec: "write_single_coil_decode P p new_write_single_coil_request = (Ok (), rq)"
    using assms True by (simp add: write_single_coil_decode_eq rq_def)
  have rq: "wcq_address rq = ?a" "wcq_value rq = bits_of_u16 ?v"
    "adu_transaction rq = packet_u16 p 0" "adu_unit rq = p ! 6"
    "adu_function rq = write_single_coil"
    using assms
    by (simp_all add: rq_def)
      (simp add: take_header_def function_code_of_byte_def check_function_def)
  have on: "(bits_of_u16 ?v = bits_on) = (?v = 0xFF00)"
    by (simp add: bits_of_u16_def)
  have v: "?v = 0 \<or> ?v = 0xFF00" using True by (auto simp: check_bits_value_def)
  show ?thesis
  proof (cases "block_cells (coils T) (unat (packet_u16 p 8))")
    case None
    then have "\<not> in_block (coils T) ?a 1" by (simp add: in_block_one del: One_nat_def)
    with True None v show ?thesis
      by (auto simp: serve_write_single_coil_def run_function_def dec rq
          write_single_coil_execute_eq spec_write_single_coil_def Let_def adu_header_def)
  next
    case (Some old)
    then have i: "in_block (coils T) ?a 1" by (simp add: in_block_one del: One_nat_def)
    then have "stored (coils T) ?a 1 = [old]"
      using stored_one [of "coils T" ?a] T Some by (simp del: One_nat_def)
    then have st: "stored (coils T) ?a 1 ! 0 = old" by simp
    let ?T = "T\<lparr>coils := store (coils T) ?a [?v = 0xFF00]\<rparr>"
    have T': "table_inv ?T" using T i by simp
    have im: "table_image ?T = (table_image T)\<lparr>im_coils := put_cells (block_cells (coils T))
        (unat (packet_u16 p 8)) [?v = 0xFF00]\<rparr>"
      using table_image_coils [OF T, of ?a "[?v = 0xFF00]"] i by simp
    have spec: "spec_write_single_coil p (table_image T) =
        Reply (u16_bytes (packet_u16 p 8) @ u16_bytes (if old then 0xFF00 else 0)) (table_image ?T)"
      using True Some v im by (auto simp: spec_write_single_coil_def Let_def)
    show ?thesis
      using True i st T T' spec
      by (simp add: serve_write_single_coil_def run_function_def dec rq on
          write_single_coil_execute_eq write_single_coil_response_encode_eq [OF P]
          header_bytes_four)
  qed
qed

lemma serve_write_multiple_coils_implements:
  assumes P: "platform_ok P" and T: "table_inv T" and "8 \<le> length p" "p ! 7 = 0x0F"
  shows "implements (serve_write_multiple_coils P p T) p write_multiple_coils T
    (spec_write_multiple_coils p (table_image T))"
proof (cases "13 \<le> length p")
  case False
  with assms show ?thesis
    by (simp add: serve_write_multiple_coils_def run_function_def write_multiple_coils_decode_eq
        spec_write_multiple_coils_def)
next
  case True
  let ?a = "Metadata (packet_u16 p 8)" and ?n = "unat (packet_u16 p 10)"
  let ?vs = "vector_resize False ?n (unpack_bits (drop 13 p))"
  define rq where "rq = (take_header p new_write_multiple_coils_request)
    \<lparr>wmcq_address := ?a, wmcq_count := Metadata (packet_u16 p 10), wmcq_byte_count := p ! 12,
     wmcq_values := ?vs\<rparr>"
  have dec: "write_multiple_coils_decode P p new_write_multiple_coils_request = (Ok (), rq)"
    using assms True by (simp add: write_multiple_coils_decode_eq rq_def)
  have rq: "wmcq_address rq = ?a" "wmcq_count rq = Metadata (packet_u16 p 10)"
    "wmcq_values rq = ?vs" "adu_transaction rq = packet_u16 p 0" "adu_unit rq = p ! 6"
    "adu_function rq = write_multiple_coils"
    using assms
    by (simp_all add: rq_def)
      (simp add: take_header_def function_code_of_byte_def check_function_def)
  let ?ok = "num_bits_validate True (packet_u16 p 10) \<and> in_block (coils T) ?a ?n"
  have ok: "?ok \<longleftrightarrow> 1 \<le> ?n \<and> ?n \<le> 1968 \<and>
      all_cells (block_cells (coils T)) (unat (packet_u16 p 8)) ?n"
    by (auto simp: num_bits_validate_unat in_block_cells)
  show ?thesis
  proof (cases ?ok)
    case False
    have "spec_write_multiple_coils p (table_image T) = Fail illegal_data_address"
      using True False ok by (auto simp: spec_write_multiple_coils_def Let_def)
    then show ?thesis
      by (simp add: serve_write_multiple_coils_def run_function_def dec rq
          write_multiple_coils_execute_eq False adu_header_def)
  next
    case ok': True
    let ?T = "T\<lparr>coils := store (coils T) ?a ?vs\<rparr>"
    have ne: "?vs \<noteq> []" using ok' ok by (auto simp flip: length_0_conv)
    have T': "table_inv ?T" using T ok' by simp
    have im: "table_image ?T = (table_image T)\<lparr>im_coils := put_cells (block_cells (coils T))
        (unat (packet_u16 p 8)) ?vs\<rparr>"
      using table_image_coils [OF T, of ?a ?vs] ok' by simp
    have spec: "spec_write_multiple_coils p (table_image T) =
        Reply (u16_bytes (packet_u16 p 8) @ u16_bytes (packet_u16 p 10)) (table_image ?T)"
      using True ok ok' im by (simp add: spec_write_multiple_coils_def Let_def)
    show ?thesis
      using ok' T T' spec ne
      by (simp add: serve_write_multiple_coils_def run_function_def dec rq
          write_multiple_coils_execute_eq write_multiple_coils_response_encode_eq [OF P]
          header_bytes_four)
  qed
qed

interpretation write_single_coil_service: modbus_service serve_write_single_coil
  write_single_coil spec_write_single_coil
  by unfold_locales (simp add: serve_write_single_coil_implements)

interpretation write_multiple_coils_service: modbus_service serve_write_multiple_coils
  write_multiple_coils spec_write_multiple_coils
  by unfold_locales (simp add: serve_write_multiple_coils_implements)

end
