(* ===== verification/Modbus_Register_Write.thy ===== *)
theory Modbus_Register_Write
  imports Modbus_Spec
begin

text \<open>
  The first half of \<open>register-write.hpp\<close> and \<open>register-write.cpp\<close>: writing a single
  register (0x06) and masking a register (0x16), requests and responses.
\<close>

section \<open>Write single register: the request\<close>

record write_single_register_request = adu +
  wrq_address :: address_t
  wrq_value :: reg_value_t

definition make_write_single_register_request ::
    "address_t \<Rightarrow> reg_value_t \<Rightarrow> write_single_register_request" where
  "make_write_single_register_request address v =
     adu.extend (adu_of_function write_single_register 0x00 0x00)
       (write_single_register_request.fields address v)"

definition new_write_single_register_request :: write_single_register_request where
  "new_write_single_register_request =
     make_write_single_register_request (Metadata 0) (Metadata 0)"

definition write_single_register_response_size :: "write_single_register_request \<Rightarrow> nat" where
  "write_single_register_response_size r = unat (calc_adu_length 4)"

definition write_single_register_encode ::
    "platform \<Rightarrow> (write_single_register_request, exn, packet_t) act" where
  "write_single_register_encode P =
     then_act (throw_if (\<lambda>r. \<not> meta_valid (wrq_address r)) (\<lambda>_. Internal bad_data))
     (then_act (modify_act (calc_length 4))
     (bind_act (gets_act (header_packet P)) (\<lambda>packet.
      bind_act (gets_act (\<lambda>r. pack P ''HH'' [unat (meta_get (wrq_address r)),
                                            unat (meta_get (wrq_value r))])) (\<lambda>pdu.
      return_act (packet @ pdu)))))"

definition write_single_register_decode ::
    "platform \<Rightarrow> packet_t \<Rightarrow> (write_single_register_request, exn, unit) act" where
  "write_single_register_decode P packet =
     decode_catch
       (then_act (expect_function P adu_function packet)
       (then_act (decode_header P packet)
       (bind_act (unpack P ''HH'' 2 packet (header_length + 1)) (\<lambda>vs.
        modify_act (\<lambda>r. r\<lparr>wrq_address := Metadata (word_of_nat (vs ! 0)),
                          wrq_value := Metadata (word_of_nat (vs ! 1))\<rparr>)))))"

section \<open>Write single register: the response\<close>

record write_single_register_response = response +
  wrs_request :: write_single_register_request
  wrs_address :: address_t
  wrs_value :: reg_value_t

definition make_write_single_register_response ::
    "write_single_register_request \<Rightarrow> write_single_register_response" where
  "make_write_single_register_response rq =
     initialize \<lparr>init_transaction = adu_transaction rq, init_unit = adu_unit rq\<rparr>
       (response.extend (make_response (adu_function rq) (adu_header rq))
          (write_single_register_response.fields rq (Metadata 0) (Metadata 0)))"

definition write_single_register_execute ::
    "write_single_register_request \<Rightarrow> table \<Rightarrow> (exn, write_single_register_response) outcome" where
  "write_single_register_execute rq T =
     (if \<not> meta_valid (wrq_value rq)
      then Throw (Specification illegal_data_value (adu_function rq) (adu_header rq))
      else bind_outcome (block_validate (holding_registers T) (wrq_address rq))
        (\<lambda>ok. if \<not> ok
              then Throw (Specification illegal_data_address (adu_function rq) (adu_header rq))
              else Ok (make_write_single_register_response rq)))"

definition write_single_register_response_encode ::
    "platform \<Rightarrow> (write_single_register_response \<times> table, exn, packet_t) act" where
  "write_single_register_response_encode P =
     encode_catch
       (then_act (on_object (calc_length 4))
       (bind_act (of_object (header_packet P)) (\<lambda>packet.
        bind_act (of_object (\<lambda>r. pack P ''HH''
           [unat (meta_get (wrq_address (wrs_request r))),
            unat (meta_get (wrq_value (wrs_request r)))])) (\<lambda>pdu.
        let packet = packet @ pdu in
        then_act (throw_if
            (\<lambda>(r, T). \<not> check_response_packet
                         (write_single_register_response_size (wrs_request r)) packet)
            (\<lambda>(r, T). Specification server_device_failure (adu_function r) (adu_header r)))
        (then_act (update_table (\<lambda>r T.
           bind_outcome (block_set (holding_registers T) (wrq_address (wrs_request r))
                           (meta_get (wrq_value (wrs_request r))))
             (\<lambda>b. Ok (T\<lparr>holding_registers := b\<rparr>))))
        (then_act (on_object (\<lambda>r. r\<lparr>wrs_address := wrq_address (wrs_request r),
                                   wrs_value := wrq_value (wrs_request r)\<rparr>))
        (return_act packet)))))))"

definition write_single_register_decode_passed ::
    "platform \<Rightarrow> packet_t \<Rightarrow> (write_single_register_response, exn, unit) act" where
  "write_single_register_decode_passed P packet =
     bad_data_catch
       (then_act (throw_if
          (\<lambda>r. length packet \<noteq> write_single_register_response_size (wrs_request r))
          (\<lambda>_. Internal bad_data))
       (let address_idx = header_length + 1 in
        bind_act (unpack P ''HH'' 2 packet address_idx) (\<lambda>vs.
        let address = word_of_nat (vs ! 0); v = word_of_nat (vs ! 1) in
        then_act (throw_if (\<lambda>r. meta_get (wrq_address (wrs_request r)) \<noteq> address)
                    (\<lambda>_. Internal bad_data))
        (then_act (throw_if (\<lambda>r. meta_get (wrq_value (wrs_request r)) \<noteq> v)
                    (\<lambda>_. Internal bad_data))
        (modify_act (\<lambda>r. r\<lparr>wrs_address := wrq_address (wrs_request r),
                          wrs_value := wrq_value (wrs_request r)\<rparr>))))))"

section \<open>Mask write register: the request\<close>

record mask_write_register_request = adu +
  mwq_address :: address_t
  mwq_and_mask :: mask_t
  mwq_or_mask :: mask_t

definition make_mask_write_register_request ::
    "address_t \<Rightarrow> mask_t \<Rightarrow> mask_t \<Rightarrow> mask_write_register_request" where
  "make_mask_write_register_request address and_mask or_mask =
     adu.extend (adu_of_function mask_write_register 0x00 0x00)
       (mask_write_register_request.fields address and_mask or_mask)"

definition new_mask_write_register_request :: mask_write_register_request where
  "new_mask_write_register_request =
     make_mask_write_register_request (Metadata 0) (Metadata 0x00) (Metadata 0x00)"

definition mask_write_register_response_size :: "mask_write_register_request \<Rightarrow> nat" where
  "mask_write_register_response_size r = unat (calc_adu_length 6)"

definition mask_write_register_encode ::
    "platform \<Rightarrow> (mask_write_register_request, exn, packet_t) act" where
  "mask_write_register_encode P =
     then_act (throw_if (\<lambda>r. \<not> meta_valid (mwq_address r)) (\<lambda>_. Internal bad_data))
     (then_act (modify_act (calc_length 6))
     (bind_act (gets_act (header_packet P)) (\<lambda>packet.
      bind_act (gets_act (\<lambda>r. pack P ''HHH'' [unat (meta_get (mwq_address r)),
         unat (meta_get (mwq_and_mask r)), unat (meta_get (mwq_or_mask r))])) (\<lambda>pdu.
      return_act (packet @ pdu)))))"

definition mask_write_register_decode ::
    "platform \<Rightarrow> packet_t \<Rightarrow> (mask_write_register_request, exn, unit) act" where
  "mask_write_register_decode P packet =
     decode_catch
       (then_act (expect_function P adu_function packet)
       (then_act (decode_header P packet)
       (bind_act (unpack P ''HHH'' 3 packet (header_length + 1)) (\<lambda>vs.
        modify_act (\<lambda>r. r\<lparr>mwq_address := Metadata (word_of_nat (vs ! 0)),
                          mwq_and_mask := Metadata (word_of_nat (vs ! 1)),
                          mwq_or_mask := Metadata (word_of_nat (vs ! 2))\<rparr>)))))"

section \<open>Mask write register: the response\<close>

record mask_write_register_response = response +
  mws_request :: mask_write_register_request
  mws_address :: address_t
  mws_and_mask :: mask_t
  mws_or_mask :: mask_t

definition make_mask_write_register_response ::
    "mask_write_register_request \<Rightarrow> mask_write_register_response" where
  "make_mask_write_register_response rq =
     initialize \<lparr>init_transaction = adu_transaction rq, init_unit = adu_unit rq\<rparr>
       (response.extend (make_response (adu_function rq) (adu_header rq))
          (mask_write_register_response.fields rq (Metadata 0) (Metadata 0) (Metadata 0)))"

definition mask_write_register_execute ::
    "mask_write_register_request \<Rightarrow> table \<Rightarrow> (exn, mask_write_register_response) outcome" where
  "mask_write_register_execute rq T =
     (if \<not> meta_valid (mwq_and_mask rq) \<or> \<not> meta_valid (mwq_or_mask rq)
      then Throw (Specification illegal_data_value (adu_function rq) (adu_header rq))
      else bind_outcome (block_validate (holding_registers T) (mwq_address rq))
        (\<lambda>ok. if \<not> ok
              then Throw (Specification illegal_data_address (adu_function rq) (adu_header rq))
              else Ok (make_mask_write_register_response rq)))"

definition mask_write_register_response_encode ::
    "platform \<Rightarrow> (mask_write_register_response \<times> table, exn, packet_t) act" where
  "mask_write_register_response_encode P =
     encode_catch
       (then_act (on_object (calc_length 6))
       (bind_act (of_object (header_packet P)) (\<lambda>packet.
        bind_act (of_object (\<lambda>r. pack P ''HHH''
           [unat (meta_get (mwq_address (mws_request r))),
            unat (meta_get (mwq_and_mask (mws_request r))),
            unat (meta_get (mwq_or_mask (mws_request r)))])) (\<lambda>pdu.
        let packet = packet @ pdu in
        then_act (throw_if
            (\<lambda>(r, T). \<not> check_response_packet
                         (mask_write_register_response_size (mws_request r)) packet)
            (\<lambda>(r, T). Specification server_device_failure (adu_function r) (adu_header r)))
        (bind_act (query_table (\<lambda>r T.
           block_get (holding_registers T) (mwq_address (mws_request r)))) (\<lambda>current_value.
        then_act (update_table (\<lambda>r T.
           let new_value = or (and current_value (meta_get (mwq_and_mask (mws_request r))))
                              (meta_get (mwq_or_mask (mws_request r)))
           in bind_outcome (block_set (holding_registers T) (mwq_address (mws_request r)) new_value)
                (\<lambda>b. Ok (T\<lparr>holding_registers := b\<rparr>))))
        (then_act (on_object (\<lambda>r. r\<lparr>mws_address := mwq_address (mws_request r),
                                   mws_and_mask := mwq_and_mask (mws_request r),
                                   mws_or_mask := mwq_or_mask (mws_request r)\<rparr>))
        (return_act packet))))))))"

definition mask_write_register_decode_passed ::
    "platform \<Rightarrow> packet_t \<Rightarrow> (mask_write_register_response, exn, unit) act" where
  "mask_write_register_decode_passed P packet =
     bad_data_catch
       (then_act (throw_if
          (\<lambda>r. length packet \<noteq> mask_write_register_response_size (mws_request r))
          (\<lambda>_. Internal bad_data))
       (let address_idx = header_length + 1 in
        bind_act (unpack P ''HHH'' 3 packet address_idx) (\<lambda>vs.
        let address = word_of_nat (vs ! 0); and_mask = word_of_nat (vs ! 1);
            or_mask = word_of_nat (vs ! 2) in
        then_act (throw_if (\<lambda>r. meta_get (mwq_address (mws_request r)) \<noteq> address)
                    (\<lambda>_. Internal bad_data))
        (then_act (throw_if (\<lambda>r. meta_get (mwq_and_mask (mws_request r)) \<noteq> and_mask)
                    (\<lambda>_. Internal bad_data))
        (then_act (throw_if (\<lambda>r. meta_get (mwq_or_mask (mws_request r)) \<noteq> or_mask)
                    (\<lambda>_. Internal bad_data))
        (modify_act (\<lambda>r. r\<lparr>mws_address := mwq_address (mws_request r),
                          mws_and_mask := mwq_and_mask (mws_request r),
                          mws_or_mask := mwq_or_mask (mws_request r)\<rparr>)))))))"

section \<open>What the operations compute\<close>

lemma write_single_register_response_frame [simp]:
  "wrs_request (calc_length n r) = wrs_request r"
  "wrs_request (initialize i r) = wrs_request r"
  "wrs_request (take_header p r) = wrs_request r"
  by (cases r; simp add: calc_length_def initialize_def take_header_def)+

lemma mask_write_register_response_frame [simp]:
  "mws_request (calc_length n r) = mws_request r"
  "mws_request (initialize i r) = mws_request r"
  "mws_request (take_header p r) = mws_request r"
  by (cases r; simp add: calc_length_def initialize_def take_header_def)+

lemma write_single_register_decode_eq:
  assumes "platform_ok P" "adu_function r = write_single_register" "8 \<le> length p" "p ! 7 = 0x06"
  shows "write_single_register_decode P p r =
    (if 12 \<le> length p
     then (Ok (), (take_header p r)\<lparr>wrq_address := Metadata (packet_u16 p 8),
                                   wrq_value := Metadata (packet_u16 p 10)\<rparr>)
     else (Undefined, take_header p r))"
  using assms by (simp add: write_single_register_decode_def act_simps expect_function_eq
      codec_simps header_length_def)

lemma mask_write_register_decode_eq:
  assumes "platform_ok P" "adu_function r = mask_write_register" "8 \<le> length p" "p ! 7 = 0x16"
  shows "mask_write_register_decode P p r =
    (if 14 \<le> length p
     then (Ok (), (take_header p r)\<lparr>mwq_address := Metadata (packet_u16 p 8),
                                   mwq_and_mask := Metadata (packet_u16 p 10),
                                   mwq_or_mask := Metadata (packet_u16 p 12)\<rparr>)
     else (Undefined, take_header p r))"
  using assms by (simp add: mask_write_register_decode_def act_simps expect_function_eq
      codec_simps header_length_def)

lemma write_single_register_execute_eq:
  "write_single_register_execute rq T =
    (if in_block (holding_registers T) (wrq_address rq) 1
     then Ok (make_write_single_register_response rq)
     else Throw (Specification illegal_data_address (adu_function rq) (adu_header rq)))"
  by (simp add: write_single_register_execute_def)

lemma mask_write_register_execute_eq:
  "mask_write_register_execute rq T =
    (if in_block (holding_registers T) (mwq_address rq) 1
     then Ok (make_mask_write_register_response rq)
     else Throw (Specification illegal_data_address (adu_function rq) (adu_header rq)))"
  by (simp add: mask_write_register_execute_def)

lemma write_single_register_response_encode_eq:
  fixes rs :: write_single_register_response
  defines "rq \<equiv> wrs_request rs"
  assumes P: "platform_ok P" and inv: "block_inv (holding_registers T)"
    and i: "in_block (holding_registers T) (wrq_address rq) 1"
  shows "write_single_register_response_encode P (rs, T) =
    (Ok (header_bytes (calc_length 4 rs) @ u16_bytes (meta_get (wrq_address rq)) @
         u16_bytes (meta_get (wrq_value rq))),
     ((calc_length 4 rs)\<lparr>wrs_address := wrq_address rq, wrs_value := wrq_value rq\<rparr>,
      T\<lparr>holding_registers :=
          store (holding_registers T) (wrq_address rq) [meta_get (wrq_value rq)]\<rparr>))"
  using i inv
  by (simp add: write_single_register_response_encode_def act_simps block_set_eq
      rq_def [symmetric] header_packet_eq [OF P] pack_u16s [OF P] check_response_packet_def
      write_single_register_response_size_def Let_def)

lemma mask_write_register_response_encode_eq:
  fixes rs :: mask_write_register_response
  defines "rq \<equiv> mws_request rs"
  assumes P: "platform_ok P" and inv: "block_inv (holding_registers T)"
    and i: "in_block (holding_registers T) (mwq_address rq) 1"
  defines "v \<equiv> or (and (stored (holding_registers T) (mwq_address rq) 1 ! 0)
                     (meta_get (mwq_and_mask rq))) (meta_get (mwq_or_mask rq))"
  shows "mask_write_register_response_encode P (rs, T) =
    (Ok (header_bytes (calc_length 6 rs) @ u16_bytes (meta_get (mwq_address rq)) @
         u16_bytes (meta_get (mwq_and_mask rq)) @ u16_bytes (meta_get (mwq_or_mask rq))),
     ((calc_length 6 rs)\<lparr>mws_address := mwq_address rq, mws_and_mask := mwq_and_mask rq,
        mws_or_mask := mwq_or_mask rq\<rparr>,
      T\<lparr>holding_registers := store (holding_registers T) (mwq_address rq) [v]\<rparr>))"
  using i inv
  by (simp add: mask_write_register_response_encode_def act_simps block_set_eq block_get_eq
      rq_def [symmetric] header_packet_eq [OF P] pack_u16s [OF P] check_response_packet_def
      mask_write_register_response_size_def Let_def v_def)

section \<open>The branches of the server\<close>

definition serve_write_single_register :: "platform \<Rightarrow> packet_t \<Rightarrow> (table, exn, packet_t) act" where
  "serve_write_single_register P packet =
     run_function (write_single_register_decode P packet) new_write_single_register_request
       write_single_register_execute (write_single_register_response_encode P)"

definition serve_mask_write_register :: "platform \<Rightarrow> packet_t \<Rightarrow> (table, exn, packet_t) act" where
  "serve_mask_write_register P packet =
     run_function (mask_write_register_decode P packet) new_mask_write_register_request
       mask_write_register_execute (mask_write_register_response_encode P)"

lemma make_write_single_register_response_simps [simp]:
  "wrs_request (make_write_single_register_response rq) = rq"
  "adu_transaction (make_write_single_register_response rq) = adu_transaction rq"
  "adu_unit (make_write_single_register_response rq) = adu_unit rq"
  "adu_function (make_write_single_register_response rq) = adu_function rq"
  "adu_function_code (make_write_single_register_response rq) =
     function_underlying (adu_function rq)"
  "req_header (make_write_single_register_response rq) = adu_header rq"
  by (simp_all add: make_write_single_register_response_def response.extend_def
      write_single_register_response.fields_def make_response_def adu.extend_def
      response.fields_def adu_of_function_def initialize_def)

lemma make_mask_write_register_response_simps [simp]:
  "mws_request (make_mask_write_register_response rq) = rq"
  "adu_transaction (make_mask_write_register_response rq) = adu_transaction rq"
  "adu_unit (make_mask_write_register_response rq) = adu_unit rq"
  "adu_function (make_mask_write_register_response rq) = adu_function rq"
  "adu_function_code (make_mask_write_register_response rq) =
     function_underlying (adu_function rq)"
  "req_header (make_mask_write_register_response rq) = adu_header rq"
  by (simp_all add: make_mask_write_register_response_def response.extend_def
      mask_write_register_response.fields_def make_response_def adu.extend_def
      response.fields_def adu_of_function_def initialize_def)

lemma new_write_register_function [simp]:
  "adu_function new_write_single_register_request = write_single_register"
  "adu_function new_mask_write_register_request = mask_write_register"
  by (simp_all add: new_write_single_register_request_def make_write_single_register_request_def
      new_mask_write_register_request_def make_mask_write_register_request_def
      adu.extend_def adu_of_function_def)

text \<open>Writing one register: its cell and the new areas.\<close>

lemma holding_cell:
  assumes "table_inv T" "block_cells (holding_registers T) (unat (meta_get a)) = Some cur"
  shows "in_block (holding_registers T) a 1" "stored (holding_registers T) a 1 ! 0 = cur"
    "table_inv (T\<lparr>holding_registers := store (holding_registers T) a [v]\<rparr>)"
    "table_image (T\<lparr>holding_registers := store (holding_registers T) a [v]\<rparr>) =
       (table_image T)\<lparr>im_holding_registers :=
          put_cells (block_cells (holding_registers T)) (unat (meta_get a)) [v]\<rparr>"
proof -
  show i: "in_block (holding_registers T) a 1"
    using assms(2) by (simp add: in_block_one del: One_nat_def)
  have "stored (holding_registers T) a 1 = [cur]"
    using stored_one [OF _ i] assms by (simp del: One_nat_def)
  then show "stored (holding_registers T) a 1 ! 0 = cur" by simp
  show "table_inv (T\<lparr>holding_registers := store (holding_registers T) a [v]\<rparr>)"
    using assms(1) i by simp
  show "table_image (T\<lparr>holding_registers := store (holding_registers T) a [v]\<rparr>) =
       (table_image T)\<lparr>im_holding_registers :=
          put_cells (block_cells (holding_registers T)) (unat (meta_get a)) [v]\<rparr>"
    using table_image_holding [OF assms(1), of a "[v]"] i by simp
qed

lemma serve_write_single_register_implements:
  assumes P: "platform_ok P" and T: "table_inv T" and "8 \<le> length p" "p ! 7 = 0x06"
  shows "implements (serve_write_single_register P p T) p write_single_register T
    (spec_write_single_register p (table_image T))"
proof (cases "12 \<le> length p")
  case False
  with assms show ?thesis
    by (simp add: serve_write_single_register_def run_function_def
        write_single_register_decode_eq spec_write_single_register_def)
next
  case True
  let ?a = "Metadata (packet_u16 p 8)" and ?v = "packet_u16 p 10"
  define rq where "rq = (take_header p new_write_single_register_request)
    \<lparr>wrq_address := ?a, wrq_value := Metadata ?v\<rparr>"
  have dec: "write_single_register_decode P p new_write_single_register_request = (Ok (), rq)"
    using assms True by (simp add: write_single_register_decode_eq rq_def)
  have rq: "wrq_address rq = ?a" "wrq_value rq = Metadata ?v"
    "adu_transaction rq = packet_u16 p 0" "adu_unit rq = p ! 6"
    "adu_function rq = write_single_register"
    using assms
    by (simp_all add: rq_def)
      (simp add: take_header_def function_code_of_byte_def check_function_def)
  show ?thesis
  proof (cases "block_cells (holding_registers T) (unat (packet_u16 p 8))")
    case None
    then have "\<not> in_block (holding_registers T) ?a 1"
      by (simp add: in_block_one del: One_nat_def)
    with True None show ?thesis
      by (simp add: serve_write_single_register_def run_function_def dec rq
          write_single_register_execute_eq spec_write_single_register_def Let_def adu_header_def)
  next
    case (Some cur)
    then have "block_cells (holding_registers T) (unat (meta_get ?a)) = Some cur" by simp
    note cell = holding_cell(1,2) [OF T this] holding_cell(3,4) [OF T this, of ?v]
    have spec: "spec_write_single_register p (table_image T) =
        Reply (u16_bytes (packet_u16 p 8) @ u16_bytes ?v)
          (table_image (T\<lparr>holding_registers := store (holding_registers T) ?a [?v]\<rparr>))"
      using True Some cell(4) by (simp add: spec_write_single_register_def Let_def)
    show ?thesis
      using cell T spec
      by (simp add: serve_write_single_register_def run_function_def dec rq
          write_single_register_execute_eq write_single_register_response_encode_eq [OF P]
          header_bytes_four)
  qed
qed

lemma serve_mask_write_register_implements:
  assumes P: "platform_ok P" and T: "table_inv T" and "8 \<le> length p" "p ! 7 = 0x16"
  shows "implements (serve_mask_write_register P p T) p mask_write_register T
    (spec_mask_write_register p (table_image T))"
proof (cases "14 \<le> length p")
  case False
  with assms show ?thesis
    by (simp add: serve_mask_write_register_def run_function_def
        mask_write_register_decode_eq spec_mask_write_register_def)
next
  case True
  let ?a = "Metadata (packet_u16 p 8)"
  define rq where "rq = (take_header p new_mask_write_register_request)
    \<lparr>mwq_address := ?a, mwq_and_mask := Metadata (packet_u16 p 10),
     mwq_or_mask := Metadata (packet_u16 p 12)\<rparr>"
  have dec: "mask_write_register_decode P p new_mask_write_register_request = (Ok (), rq)"
    using assms True by (simp add: mask_write_register_decode_eq rq_def)
  have rq: "mwq_address rq = ?a" "mwq_and_mask rq = Metadata (packet_u16 p 10)"
    "mwq_or_mask rq = Metadata (packet_u16 p 12)"
    "adu_transaction rq = packet_u16 p 0" "adu_unit rq = p ! 6"
    "adu_function rq = mask_write_register"
    using assms
    by (simp_all add: rq_def)
      (simp add: take_header_def function_code_of_byte_def check_function_def)
  show ?thesis
  proof (cases "block_cells (holding_registers T) (unat (packet_u16 p 8))")
    case None
    then have "\<not> in_block (holding_registers T) ?a 1"
      by (simp add: in_block_one del: One_nat_def)
    with True None show ?thesis
      by (simp add: serve_mask_write_register_def run_function_def dec rq
          mask_write_register_execute_eq spec_mask_write_register_def Let_def adu_header_def)
  next
    case (Some cur)
    let ?v = "or (and cur (packet_u16 p 10)) (packet_u16 p 12)"
    from Some have "block_cells (holding_registers T) (unat (meta_get ?a)) = Some cur" by simp
    note cell = holding_cell(1,2) [OF T this] holding_cell(3,4) [OF T this, of ?v]
    have spec: "spec_mask_write_register p (table_image T) =
        Reply (u16_bytes (packet_u16 p 8) @ u16_bytes (packet_u16 p 10) @
               u16_bytes (packet_u16 p 12))
          (table_image (T\<lparr>holding_registers := store (holding_registers T) ?a [?v]\<rparr>))"
      using True Some cell(4) by (simp add: spec_mask_write_register_def Let_def)
    show ?thesis
      using cell T spec
      by (simp add: serve_mask_write_register_def run_function_def dec rq
          mask_write_register_execute_eq mask_write_register_response_encode_eq [OF P]
          header_bytes_six)
  qed
qed

interpretation write_single_register_service: modbus_service serve_write_single_register
  write_single_register spec_write_single_register
  by unfold_locales (simp add: serve_write_single_register_implements)

interpretation mask_write_register_service: modbus_service serve_mask_write_register
  mask_write_register spec_mask_write_register
  by unfold_locales (simp add: serve_mask_write_register_implements)

end
