(* ===== verification/Modbus_Registers_Write.thy ===== *)
theory Modbus_Registers_Write
  imports Modbus_Spec
begin

text \<open>
  The second half of \<open>register-write.hpp\<close> and \<open>register-write.cpp\<close>: writing multiple
  registers (0x10) and reading and writing multiple registers in one request (0x17).
\<close>

section \<open>Write multiple registers: the request\<close>

record write_multiple_registers_request = adu +
  wmrq_address :: address_t
  wmrq_count :: write_num_regs_t
  wmrq_values :: "u16 list"

definition make_write_multiple_registers_request ::
    "address_t \<Rightarrow> write_num_regs_t \<Rightarrow> u16 list \<Rightarrow> write_multiple_registers_request" where
  "make_write_multiple_registers_request address count values =
     adu.extend (adu_of_function write_multiple_registers 0x00 0x00)
       (write_multiple_registers_request.fields address count values)"

definition new_write_multiple_registers_request :: write_multiple_registers_request where
  "new_write_multiple_registers_request =
     make_write_multiple_registers_request (Metadata 0) (Metadata 1) []"

text \<open>\<open>static_cast<std::uint8_t>(count_() * 2)\<close>\<close>

definition registers_byte_count :: "metadata \<Rightarrow> byte" where
  "registers_byte_count count = ucast (meta_get count * 2)"

definition write_multiple_registers_data_length :: "write_multiple_registers_request \<Rightarrow> u16" where
  "write_multiple_registers_data_length r = 4 + 1 + ucast (registers_byte_count (wmrq_count r))"

definition write_multiple_registers_response_size :: "write_multiple_registers_request \<Rightarrow> nat" where
  "write_multiple_registers_response_size r = unat (calc_adu_length 4)"

definition write_multiple_registers_encode ::
    "platform \<Rightarrow> (write_multiple_registers_request, exn, packet_t) act" where
  "write_multiple_registers_encode P =
     then_act (throw_if (\<lambda>r. \<not> meta_valid (wmrq_address r) \<or> \<not> meta_valid (wmrq_count r))
                 (\<lambda>_. Internal bad_data))
     (then_act (modify_act (\<lambda>r. calc_length (write_multiple_registers_data_length r) r))
     (bind_act (gets_act (header_packet P)) (\<lambda>packet.
      bind_act (gets_act (\<lambda>r. pack P ''HHB''
         [unat (meta_get (wmrq_address r)), unat (meta_get (wmrq_count r)),
          unat (registers_byte_count (wmrq_count r))])) (\<lambda>pdu.
      bind_act (gets_act (\<lambda>r. pack_registers P (wmrq_values r))) (\<lambda>regs.
      let packet = packet @ pdu @ regs in
      then_act (throw_if
         (\<lambda>r. length packet \<noteq> unat (write_multiple_registers_data_length r) + header_length + 1)
         (\<lambda>_. Internal bad_data))
      (return_act packet))))))"

definition write_multiple_registers_decode ::
    "platform \<Rightarrow> packet_t \<Rightarrow> (write_multiple_registers_request, exn, unit) act" where
  "write_multiple_registers_decode P packet =
     decode_catch
       (then_act (expect_function P adu_function packet)
       (then_act (decode_header P packet)
       (let values_idx = header_length + 1 + 5 in
        bind_act (unpack P ''HHB'' 3 packet (header_length + 1)) (\<lambda>vs.
        then_act (modify_act (\<lambda>r. r\<lparr>wmrq_address := Metadata (word_of_nat (vs ! 0)),
                                   wmrq_count := Metadata (word_of_nat (vs ! 1))\<rparr>))
        (then_act (throw_if (\<lambda>r. registers_byte_count (wmrq_count r) \<noteq> word_of_nat (vs ! 2))
                    (\<lambda>_. Internal bad_data))
        (bind_act (gets_act (\<lambda>r. unat (registers_byte_count (wmrq_count r)))) (\<lambda>n.
         bind_act (unpack_registers P packet values_idx n 0 []) (\<lambda>buffer.
         modify_act (\<lambda>r. r\<lparr>wmrq_values :=
            vector_resize 0 (unat (meta_get (wmrq_count r))) buffer\<rparr>)))))))))"

section \<open>Write multiple registers: the response\<close>

record write_multiple_registers_response = response +
  wmrs_request :: write_multiple_registers_request
  wmrs_address :: address_t
  wmrs_count :: write_num_regs_t

definition make_write_multiple_registers_response ::
    "write_multiple_registers_request \<Rightarrow> write_multiple_registers_response" where
  "make_write_multiple_registers_response rq =
     initialize \<lparr>init_transaction = adu_transaction rq, init_unit = adu_unit rq\<rparr>
       (response.extend (make_response (adu_function rq) (adu_header rq))
          (write_multiple_registers_response.fields rq (Metadata 0) (Metadata 1)))"

definition write_multiple_registers_execute ::
    "write_multiple_registers_request \<Rightarrow> table \<Rightarrow> (exn, write_multiple_registers_response) outcome" where
  "write_multiple_registers_execute rq T =
     (if \<not> meta_valid (wmrq_count rq)
      then Throw (Specification illegal_data_value (adu_function rq) (adu_header rq))
      else bind_outcome
        (block_validate_count (num_regs_validate True) (holding_registers T) (wmrq_address rq)
           (wmrq_count rq))
        (\<lambda>ok. if \<not> ok
              then Throw (Specification illegal_data_address (adu_function rq) (adu_header rq))
              else Ok (make_write_multiple_registers_response rq)))"

definition write_multiple_registers_response_encode ::
    "platform \<Rightarrow> (write_multiple_registers_response \<times> table, exn, packet_t) act" where
  "write_multiple_registers_response_encode P =
     encode_catch
       (then_act (on_object (calc_length 4))
       (bind_act (of_object (header_packet P)) (\<lambda>packet.
        bind_act (of_object (\<lambda>r. pack P ''HH''
           [unat (meta_get (wmrq_address (wmrs_request r))),
            unat (meta_get (wmrq_count (wmrs_request r)))])) (\<lambda>pdu.
        then_act (update_table (\<lambda>r T.
           bind_outcome (block_set_slice (holding_registers T) (wmrq_address (wmrs_request r))
                           (wmrq_values (wmrs_request r)))
             (\<lambda>b. Ok (T\<lparr>holding_registers := b\<rparr>))))
        (return_act (packet @ pdu))))))"

definition write_multiple_registers_decode_passed ::
    "platform \<Rightarrow> packet_t \<Rightarrow> (write_multiple_registers_response, exn, unit) act" where
  "write_multiple_registers_decode_passed P packet =
     bad_data_catch
       (then_act (throw_if
          (\<lambda>r. length packet \<noteq> write_multiple_registers_response_size (wmrs_request r))
          (\<lambda>_. Internal bad_data))
       (let address_idx = header_length + 1 in
        bind_act (unpack P ''HH'' 2 packet address_idx) (\<lambda>vs.
        then_act (modify_act (\<lambda>r. r\<lparr>wmrs_address := Metadata (word_of_nat (vs ! 0)),
                                   wmrs_count := Metadata (word_of_nat (vs ! 1))\<rparr>))
        (then_act (throw_if (\<lambda>r. wmrq_address (wmrs_request r) \<noteq> wmrs_address r)
                    (\<lambda>_. Internal bad_data))
        (throw_if (\<lambda>r. wmrq_count (wmrs_request r) \<noteq> wmrs_count r)
                    (\<lambda>_. Internal bad_data))))))"

section \<open>Read and write multiple registers: the request\<close>

record read_write_multiple_registers_request = adu +
  rwq_read_address :: address_t
  rwq_read_count :: read_num_regs_t
  rwq_write_address :: address_t
  rwq_write_count :: write_num_regs_t
  rwq_values :: "u16 list"

definition make_read_write_multiple_registers_request ::
    "address_t \<Rightarrow> read_num_regs_t \<Rightarrow> address_t \<Rightarrow> write_num_regs_t \<Rightarrow> u16 list \<Rightarrow>
     read_write_multiple_registers_request" where
  "make_read_write_multiple_registers_request read_address read_count write_address write_count
       values =
     adu.extend (adu_of_function read_write_multiple_registers 0x00 0x00)
       (read_write_multiple_registers_request.fields read_address read_count write_address
          write_count values)"

definition new_read_write_multiple_registers_request :: read_write_multiple_registers_request where
  "new_read_write_multiple_registers_request =
     make_read_write_multiple_registers_request (Metadata 0) (Metadata 1) (Metadata 0)
       (Metadata 1) []"

definition read_write_data_length :: "read_write_multiple_registers_request \<Rightarrow> u16" where
  "read_write_data_length r = 2 + 2 + 2 + 2 + 1 + ucast (registers_byte_count (rwq_write_count r))"

definition read_write_response_size :: "read_write_multiple_registers_request \<Rightarrow> nat" where
  "read_write_response_size r =
     unat (calc_adu_length (1 + ucast (registers_byte_count (rwq_read_count r))))"

definition read_write_multiple_registers_encode ::
    "platform \<Rightarrow> (read_write_multiple_registers_request, exn, packet_t) act" where
  "read_write_multiple_registers_encode P =
     then_act (throw_if
        (\<lambda>r. \<not> meta_valid (rwq_read_address r) \<or> \<not> meta_valid (rwq_read_count r) \<or>
             \<not> meta_valid (rwq_write_address r) \<or> \<not> meta_valid (rwq_write_count r))
        (\<lambda>_. Internal bad_data))
     (then_act (modify_act (\<lambda>r. calc_length (read_write_data_length r) r))
     (bind_act (gets_act (header_packet P)) (\<lambda>packet.
      bind_act (gets_act (\<lambda>r. pack P ''HHHHB''
         [unat (meta_get (rwq_read_address r)), unat (meta_get (rwq_read_count r)),
          unat (meta_get (rwq_write_address r)), unat (meta_get (rwq_write_count r)),
          unat (registers_byte_count (rwq_write_count r))])) (\<lambda>pdu.
      bind_act (gets_act (\<lambda>r. pack_registers P (rwq_values r))) (\<lambda>regs.
      let packet = packet @ pdu @ regs in
      then_act (throw_if
         (\<lambda>r. length packet \<noteq> unat (read_write_data_length r) + header_length + 1)
         (\<lambda>_. Internal bad_data))
      (return_act packet))))))"

definition read_write_multiple_registers_decode ::
    "platform \<Rightarrow> packet_t \<Rightarrow> (read_write_multiple_registers_request, exn, unit) act" where
  "read_write_multiple_registers_decode P packet =
     decode_catch
       (then_act (expect_function P adu_function packet)
       (then_act (decode_header P packet)
       (let values_idx = header_length + 1 + 9 in
        bind_act (unpack P ''HHHHB'' 5 packet (header_length + 1)) (\<lambda>vs.
        then_act (modify_act (\<lambda>r. r\<lparr>rwq_read_address := Metadata (word_of_nat (vs ! 0)),
                                   rwq_read_count := Metadata (word_of_nat (vs ! 1)),
                                   rwq_write_address := Metadata (word_of_nat (vs ! 2)),
                                   rwq_write_count := Metadata (word_of_nat (vs ! 3))\<rparr>))
        (then_act (throw_if
            (\<lambda>r. registers_byte_count (rwq_write_count r) \<noteq> word_of_nat (vs ! 4))
            (\<lambda>_. Internal bad_data))
        (bind_act (gets_act (\<lambda>r. unat (registers_byte_count (rwq_write_count r)))) (\<lambda>n.
         bind_act (unpack_registers P packet values_idx n 0 []) (\<lambda>buffer.
         modify_act (\<lambda>r. r\<lparr>rwq_values :=
            vector_resize 0 (unat (meta_get (rwq_write_count r))) buffer\<rparr>)))))))))"

section \<open>Read and write multiple registers: the response\<close>

record read_write_multiple_registers_response = response +
  rws_request :: read_write_multiple_registers_request
  rws_count :: byte
  rws_registers :: "u16 list"

definition make_read_write_multiple_registers_response ::
    "read_write_multiple_registers_request \<Rightarrow> read_write_multiple_registers_response" where
  "make_read_write_multiple_registers_response rq =
     initialize \<lparr>init_transaction = adu_transaction rq, init_unit = adu_unit rq\<rparr>
       (response.extend (make_response (adu_function rq) (adu_header rq))
          (read_write_multiple_registers_response.fields rq
             (registers_byte_count (rwq_read_count rq)) []))"

definition read_write_multiple_registers_execute ::
    "read_write_multiple_registers_request \<Rightarrow> table \<Rightarrow>
     (exn, read_write_multiple_registers_response) outcome" where
  "read_write_multiple_registers_execute rq T =
     (if \<not> meta_valid (rwq_read_count rq) \<or> \<not> meta_valid (rwq_write_count rq)
      then Throw (Specification illegal_data_value (adu_function rq) (adu_header rq))
      else
        let bad_address = Throw (Specification illegal_data_address (adu_function rq) (adu_header rq))
        in if \<not> meta_valid (rwq_read_address rq) \<or> \<not> meta_valid (rwq_write_address rq)
           then bad_address
           else bind_outcome
             (block_validate_count (num_regs_validate False) (holding_registers T)
                (rwq_read_address rq) (rwq_read_count rq))
             (\<lambda>ok. if \<not> ok then bad_address
                   else bind_outcome
                     (block_validate_count (num_regs_validate True) (holding_registers T)
                        (rwq_write_address rq) (rwq_write_count rq))
                     (\<lambda>ok. if \<not> ok then bad_address
                           else Ok (make_read_write_multiple_registers_response rq))))"

definition read_write_multiple_registers_response_encode ::
    "platform \<Rightarrow> (read_write_multiple_registers_response \<times> table, exn, packet_t) act" where
  "read_write_multiple_registers_response_encode P =
     encode_catch
       (then_act (update_table (\<lambda>r T.
           bind_outcome (block_set_slice (holding_registers T) (rwq_write_address (rws_request r))
                           (rwq_values (rws_request r)))
             (\<lambda>b. Ok (T\<lparr>holding_registers := b\<rparr>))))
       (bind_act (query_table (\<lambda>r T. block_get_slice (num_regs_validate False)
           (holding_registers T) (rwq_read_address (rws_request r))
           (rwq_read_count (rws_request r)))) (\<lambda>range.
        bind_act (query_table (\<lambda>r T. Ok (block_elements (holding_registers T) range))) (\<lambda>elems.
        then_act (on_object (\<lambda>r. r\<lparr>rws_registers := elems\<rparr>))
        (then_act (on_object (\<lambda>r. calc_length (1 + ucast (rws_count r)) r))
        (bind_act (of_object (header_packet P)) (\<lambda>packet.
         bind_act (of_object (\<lambda>r. pack P ''B'' [unat (rws_count r)])) (\<lambda>pdu.
         let packet = packet @ pdu @ pack_registers P elems in
         then_act (throw_if
             (\<lambda>(r, T). \<not> check_response_packet (read_write_response_size (rws_request r)) packet)
             (\<lambda>(r, T). Specification server_device_failure (adu_function r) (adu_header r)))
         (return_act packet)))))))))"

definition read_write_multiple_registers_decode_passed ::
    "platform \<Rightarrow> packet_t \<Rightarrow> (read_write_multiple_registers_response, exn, unit) act" where
  "read_write_multiple_registers_decode_passed P packet =
     bad_data_catch
       (then_act (throw_if (\<lambda>r. length packet \<noteq> read_write_response_size (rws_request r))
                    (\<lambda>_. Internal bad_data))
       (bind_act (gets_act (\<lambda>r. registers_byte_count (rwq_read_count (rws_request r))))
         (\<lambda>byte_count_recv.
        let byte_idx = header_length + 1 in
        bind_act (packet_index packet byte_idx) (\<lambda>b.
        then_act (modify_act (\<lambda>r. r\<lparr>rws_count := b\<rparr>))
        (then_act (throw_if (\<lambda>r. rws_count r \<noteq> byte_count_recv) (\<lambda>_. Internal bad_data))
        (bind_act (gets_act (\<lambda>r. unat (rws_count r))) (\<lambda>n.
         bind_act (unpack_registers P packet (byte_idx + 1) n 0 []) (\<lambda>buffer.
         then_act (throw_if
             (\<lambda>r. length buffer \<noteq> unat (meta_get (rwq_read_count (rws_request r))))
             (\<lambda>_. Internal bad_data))
         (modify_act (\<lambda>r. r\<lparr>rws_registers := buffer\<rparr>))))))))))"

section \<open>What the operations compute\<close>

lemma unat_registers_byte_count:
  "unat (registers_byte_count c) = 2 * unat (meta_get c) mod 256"
proof -
  have "unat (registers_byte_count c) = take_bit 8 (unat (meta_get c * 2))"
    by (simp only: registers_byte_count_def unsigned_ucast_eq) simp
  also have "\<dots> = 2 * unat (meta_get c) mod 65536 mod 256"
    by (simp add: take_bit_eq_mod unat_word_ariths mult.commute)
  also have "\<dots> = 2 * unat (meta_get c) mod 256"
    by (simp add: mod_mod_cancel)
  finally show ?thesis .
qed

lemma registers_byte_count_even:
  "\<exists>k. unat (registers_byte_count c) = 2 * k"
proof -
  have "even (unat (registers_byte_count c))"
    by (simp only: unat_registers_byte_count) (rule dvd_mod; simp)
  then show ?thesis by (simp add: dvd_def)
qed

lemma registers_byte_count_eq_iff:
  "registers_byte_count c = b \<longleftrightarrow> unat b = 2 * unat (meta_get c) mod 256"
  by (metis unat_registers_byte_count word_unat_eq_iff)

lemma unat_ucast_byte [simp]: "unat (ucast (b :: byte) :: u16) = unat b"
proof -
  have "unat (ucast b :: u16) = take_bit 16 (unat b)"
    by (simp only: unsigned_ucast_eq) simp
  then show ?thesis using unat_byte_less [of b] by (simp add: take_bit_eq_mod)
qed

lemma write_multiple_registers_response_frame [simp]:
  "wmrs_request (calc_length n r) = wmrs_request r"
  "wmrs_request (initialize i r) = wmrs_request r"
  "wmrs_request (take_header p r) = wmrs_request r"
  by (cases r; simp add: calc_length_def initialize_def take_header_def)+

lemma read_write_response_frame [simp]:
  "rws_request (calc_length n r) = rws_request r"
  "rws_request (initialize i r) = rws_request r"
  "rws_request (take_header p r) = rws_request r"
  "rws_count (calc_length n r) = rws_count r"
  "rws_count (initialize i r) = rws_count r"
  "rws_registers (calc_length n r) = rws_registers r"
  by (cases r; simp add: calc_length_def initialize_def take_header_def)+


lemma unpack_registers_bytes:
  assumes "platform_ok P"
  shows "unpack_registers P p start (unat (registers_byte_count c)) 0 [] s =
     (let k = 2 * unat (meta_get c) mod 256 in
      if k = 0 \<or> start + k \<le> length p
      then (Ok (packet_registers p start (k div 2)), s) else (Undefined, s))"
proof -
  from registers_byte_count_even obtain k where k: "unat (registers_byte_count c) = 2 * k"
    by blast
  then have "2 * unat (meta_get c) mod 256 = 2 * k" by (simp add: unat_registers_byte_count)
  with k show ?thesis using unpack_registers_eq [OF assms, of p start k s] by simp
qed

lemma write_multiple_registers_decode_eq:
  assumes "platform_ok P" "adu_function r = write_multiple_registers" "8 \<le> length p"
    "p ! 7 = 0x10"
  defines "h \<equiv> (take_header p r)\<lparr>wmrq_address := Metadata (packet_u16 p 8),
                                wmrq_count := Metadata (packet_u16 p 10)\<rparr>"
  shows "write_multiple_registers_decode P p r =
    (if \<not> 13 \<le> length p then (Undefined, take_header p r)
     else if unat (p ! 12) \<noteq> 2 * unat (packet_u16 p 10) mod 256
     then (Throw (Specification server_device_failure write_multiple_registers (adu_header h)), h)
     else if 13 + unat (p ! 12) \<le> length p
     then (Ok (), h\<lparr>wmrq_values := vector_resize 0 (unat (packet_u16 p 10))
                      (packet_registers p 13 (unat (p ! 12) div 2))\<rparr>)
     else (Undefined, h))"
proof -
  have "adu_function h = write_multiple_registers"
    using assms by (simp add: h_def take_header_def function_code_of_byte_def)
  with assms show ?thesis
    by (simp add: write_multiple_registers_decode_def act_simps expect_function_eq codec_simps
        header_length_def Let_def registers_byte_count_eq_iff unpack_registers_bytes)
qed

lemma read_write_multiple_registers_decode_eq:
  assumes "platform_ok P" "adu_function r = read_write_multiple_registers" "8 \<le> length p"
    "p ! 7 = 0x17"
  defines "h \<equiv> (take_header p r)\<lparr>rwq_read_address := Metadata (packet_u16 p 8),
      rwq_read_count := Metadata (packet_u16 p 10),
      rwq_write_address := Metadata (packet_u16 p 12),
      rwq_write_count := Metadata (packet_u16 p 14)\<rparr>"
  shows "read_write_multiple_registers_decode P p r =
    (if \<not> 17 \<le> length p then (Undefined, take_header p r)
     else if unat (p ! 16) \<noteq> 2 * unat (packet_u16 p 14) mod 256
     then (Throw (Specification server_device_failure read_write_multiple_registers
             (adu_header h)), h)
     else if 17 + unat (p ! 16) \<le> length p
     then (Ok (), h\<lparr>rwq_values := vector_resize 0 (unat (packet_u16 p 14))
                      (packet_registers p 17 (unat (p ! 16) div 2))\<rparr>)
     else (Undefined, h))"
proof -
  have "adu_function h = read_write_multiple_registers"
    using assms by (simp add: h_def take_header_def function_code_of_byte_def)
  with assms show ?thesis
    by (simp add: read_write_multiple_registers_decode_def act_simps expect_function_eq
        codec_simps header_length_def Let_def registers_byte_count_eq_iff unpack_registers_bytes)
qed

lemma write_multiple_registers_execute_eq:
  "write_multiple_registers_execute rq T =
    (if num_regs_validate True (meta_get (wmrq_count rq)) \<and>
        in_block (holding_registers T) (wmrq_address rq) (unat (meta_get (wmrq_count rq)))
     then Ok (make_write_multiple_registers_response rq)
     else Throw (Specification illegal_data_address (adu_function rq) (adu_header rq)))"
  by (simp add: write_multiple_registers_execute_def block_validate_count_def
      num_regs_validate_unat)

lemma read_write_multiple_registers_execute_eq:
  "read_write_multiple_registers_execute rq T =
    (if num_regs_validate False (meta_get (rwq_read_count rq)) \<and>
        in_block (holding_registers T) (rwq_read_address rq)
          (unat (meta_get (rwq_read_count rq))) \<and>
        num_regs_validate True (meta_get (rwq_write_count rq)) \<and>
        in_block (holding_registers T) (rwq_write_address rq)
          (unat (meta_get (rwq_write_count rq)))
     then Ok (make_read_write_multiple_registers_response rq)
     else Throw (Specification illegal_data_address (adu_function rq) (adu_header rq)))"
  by (simp add: read_write_multiple_registers_execute_def block_validate_count_def
      num_regs_validate_unat Let_def)

lemma write_multiple_registers_response_encode_eq:
  fixes rs :: write_multiple_registers_response
  defines "rq \<equiv> wmrs_request rs"
  assumes P: "platform_ok P" and inv: "block_inv (holding_registers T)"
    and "wmrq_values rq \<noteq> []"
    and i: "in_block (holding_registers T) (wmrq_address rq) (length (wmrq_values rq))"
  shows "write_multiple_registers_response_encode P (rs, T) =
    (Ok (header_bytes (calc_length 4 rs) @ u16_bytes (meta_get (wmrq_address rq)) @
         u16_bytes (meta_get (wmrq_count rq))),
     (calc_length 4 rs,
      T\<lparr>holding_registers := store (holding_registers T) (wmrq_address rq) (wmrq_values rq)\<rparr>))"
  using assms(4) i inv
  by (simp add: write_multiple_registers_response_encode_def act_simps block_set_slice_eq
      rq_def [symmetric] header_packet_eq [OF P] pack_u16s [OF P])

lemma read_write_response_size_eq:
  assumes "num_regs_validate False (meta_get (rwq_read_count rq))"
  shows "unat (registers_byte_count (rwq_read_count rq)) = 2 * unat (meta_get (rwq_read_count rq))"
    "read_write_response_size rq = 9 + 2 * unat (meta_get (rwq_read_count rq))"
proof -
  have n: "unat (meta_get (rwq_read_count rq)) \<le> 125"
    using assms by (simp add: num_regs_validate_unat)
  then show "unat (registers_byte_count (rwq_read_count rq)) =
      2 * unat (meta_get (rwq_read_count rq))"
    by (simp add: unat_registers_byte_count)
  with n show "read_write_response_size rq = 9 + 2 * unat (meta_get (rwq_read_count rq))"
    by (simp add: read_write_response_size_def unat_calc_adu_length unat_add_u16)
qed

text \<open>The registers written, then the registers read out of the new block.\<close>

lemma read_write_response_encode_eq:
  fixes rs :: read_write_multiple_registers_response
  defines "rq \<equiv> rws_request rs"
  defines "n \<equiv> unat (meta_get (rwq_read_count rq))"
  assumes P: "platform_ok P" and inv: "block_inv (holding_registers T)"
    and "rwq_values rq \<noteq> []"
    and w: "in_block (holding_registers T) (rwq_write_address rq) (length (rwq_values rq))"
    and v: "num_regs_validate False (meta_get (rwq_read_count rq))"
    and r: "in_block (holding_registers T) (rwq_read_address rq) n"
    and c: "rws_count rs = registers_byte_count (rwq_read_count rq)"
  defines "B \<equiv> store (holding_registers T) (rwq_write_address rq) (rwq_values rq)"
  defines "E \<equiv> stored B (rwq_read_address rq) n"
  shows "read_write_multiple_registers_response_encode P (rs, T) =
    (Ok (header_bytes (calc_length (1 + ucast (rws_count rs)) rs) @
         word_of_nat (2 * n) # registers_bytes E),
     (calc_length (1 + ucast (rws_count rs)) (rs\<lparr>rws_registers := E\<rparr>),
      T\<lparr>holding_registers := B\<rparr>))"
proof -
  have n: "n \<le> 125" using v by (simp_all add: num_regs_validate_unat n_def)
  have bc: "unat (rws_count rs) = 2 * n"
    using read_write_response_size_eq(1) [OF v] by (simp add: n_def c)
  have p: "pack P ''B'' [2 * n] = [word_of_nat (2 * n)]"
    using P n by (simp add: pack_eq field_bytes_def)
  have B: "block_inv B" using inv w by (simp add: B_def)
  have rB: "in_block B (rwq_read_address rq) n" using r by (simp add: B_def)
  have E: "length E = n" using B rB by (simp add: E_def)
  have sz: "read_write_response_size rq = 9 + 2 * n"
    using read_write_response_size_eq(2) [OF v] by (simp add: n_def)
  have s: "block_set_slice (holding_registers T) (rwq_write_address rq) (rwq_values rq) = Ok B"
    using assms(5) w inv by (simp add: block_set_slice_eq B_def)
  have g: "block_get_slice (num_regs_validate False) B (rwq_read_address rq) (rwq_read_count rq) =
      Ok (offset B (rwq_read_address rq), offset B (rwq_read_address rq) + n)"
    using B rB v by (simp add: block_get_slice_eq [OF _ num_regs_positive] n_def)
  have hb: "header_bytes (calc_length k (rs\<lparr>rws_registers := E\<rparr>)) =
      header_bytes (calc_length k rs)" for k by (simp add: header_bytes_def)
  show ?thesis
    by (simp add: read_write_multiple_registers_response_encode_def act_simps s g
        E_def [symmetric] rq_def [symmetric] header_packet_eq [OF P] pack_registers_eq [OF P] hb
        bc p check_response_packet_def E sz)
qed

section \<open>The branches of the server\<close>

definition serve_write_multiple_registers ::
    "platform \<Rightarrow> packet_t \<Rightarrow> (table, exn, packet_t) act" where
  "serve_write_multiple_registers P packet =
     run_function (write_multiple_registers_decode P packet)
       new_write_multiple_registers_request write_multiple_registers_execute
       (write_multiple_registers_response_encode P)"

definition serve_read_write_multiple_registers ::
    "platform \<Rightarrow> packet_t \<Rightarrow> (table, exn, packet_t) act" where
  "serve_read_write_multiple_registers P packet =
     run_function (read_write_multiple_registers_decode P packet)
       new_read_write_multiple_registers_request read_write_multiple_registers_execute
       (read_write_multiple_registers_response_encode P)"

lemma make_write_multiple_registers_response_simps [simp]:
  "wmrs_request (make_write_multiple_registers_response rq) = rq"
  "adu_transaction (make_write_multiple_registers_response rq) = adu_transaction rq"
  "adu_unit (make_write_multiple_registers_response rq) = adu_unit rq"
  "adu_function (make_write_multiple_registers_response rq) = adu_function rq"
  "adu_function_code (make_write_multiple_registers_response rq) =
     function_underlying (adu_function rq)"
  "req_header (make_write_multiple_registers_response rq) = adu_header rq"
  by (simp_all add: make_write_multiple_registers_response_def response.extend_def
      write_multiple_registers_response.fields_def make_response_def adu.extend_def
      response.fields_def adu_of_function_def initialize_def)

lemma make_read_write_response_simps [simp]:
  "rws_request (make_read_write_multiple_registers_response rq) = rq"
  "rws_count (make_read_write_multiple_registers_response rq) =
     registers_byte_count (rwq_read_count rq)"
  "adu_transaction (make_read_write_multiple_registers_response rq) = adu_transaction rq"
  "adu_unit (make_read_write_multiple_registers_response rq) = adu_unit rq"
  "adu_function (make_read_write_multiple_registers_response rq) = adu_function rq"
  "adu_function_code (make_read_write_multiple_registers_response rq) =
     function_underlying (adu_function rq)"
  "req_header (make_read_write_multiple_registers_response rq) = adu_header rq"
  by (simp_all add: make_read_write_multiple_registers_response_def response.extend_def
      read_write_multiple_registers_response.fields_def make_response_def adu.extend_def
      response.fields_def adu_of_function_def initialize_def)

lemma new_write_registers_function [simp]:
  "adu_function new_write_multiple_registers_request = write_multiple_registers"
  "adu_function new_read_write_multiple_registers_request = read_write_multiple_registers"
  by (simp_all add: new_write_multiple_registers_request_def
      make_write_multiple_registers_request_def new_read_write_multiple_registers_request_def
      make_read_write_multiple_registers_request_def adu.extend_def adu_of_function_def)

lemma double_div_two: "n \<le> 127 \<Longrightarrow> 2 * n mod 256 div 2 = (n :: nat)"
  by simp

text \<open>The request object that a well-formed packet is decoded into.\<close>

lemma write_registers_decoded:
  assumes P: "platform_ok P" and "8 \<le> length p" "p ! 7 = 0x10"
    and w: "13 \<le> length p" "unat (p ! 12) = 2 * unat (packet_u16 p 10) mod 256"
      "13 + unat (p ! 12) \<le> length p"
  obtains rq where
    "write_multiple_registers_decode P p new_write_multiple_registers_request = (Ok (), rq)"
    "wmrq_address rq = Metadata (packet_u16 p 8)" "wmrq_count rq = Metadata (packet_u16 p 10)"
    "wmrq_values rq =
       vector_resize 0 (unat (packet_u16 p 10)) (packet_registers p 13 (unat (p ! 12) div 2))"
    "adu_transaction rq = packet_u16 p 0" "adu_unit rq = p ! 6"
    "adu_function rq = write_multiple_registers"
proof -
  define rq where "rq = (take_header p new_write_multiple_registers_request)
    \<lparr>wmrq_address := Metadata (packet_u16 p 8), wmrq_count := Metadata (packet_u16 p 10),
     wmrq_values :=
       vector_resize 0 (unat (packet_u16 p 10)) (packet_registers p 13 (unat (p ! 12) div 2))\<rparr>"
  have "adu_function rq = write_multiple_registers"
    using assms by (simp add: rq_def take_header_def function_code_of_byte_def check_function_def)
  moreover have
    "write_multiple_registers_decode P p new_write_multiple_registers_request = (Ok (), rq)"
    using assms by (simp add: write_multiple_registers_decode_eq rq_def)
  ultimately show thesis by (intro that [of rq]) (simp_all add: rq_def)
qed

lemma serve_write_multiple_registers_implements:
  assumes P: "platform_ok P" and T: "table_inv T" and "8 \<le> length p" "p ! 7 = 0x10"
  shows "implements (serve_write_multiple_registers P p T) p write_multiple_registers T
    (spec_write_multiple_registers p (table_image T))"
proof (cases "13 \<le> length p \<and> unat (p ! 12) = 2 * unat (packet_u16 p 10) mod 256 \<and>
    13 + unat (p ! 12) \<le> length p")
  case False
  with assms show ?thesis
    by (auto simp: serve_write_multiple_registers_def run_function_def
        write_multiple_registers_decode_eq spec_write_multiple_registers_def Let_def
        adu_header_def)
next
  case True
  let ?a = "Metadata (packet_u16 p 8)" and ?n = "unat (packet_u16 p 10)"
  obtain rq where dec:
      "write_multiple_registers_decode P p new_write_multiple_registers_request = (Ok (), rq)"
    and rq: "wmrq_address rq = ?a" "wmrq_count rq = Metadata (packet_u16 p 10)"
      "adu_transaction rq = packet_u16 p 0" "adu_unit rq = p ! 6"
      "adu_function rq = write_multiple_registers"
    and vs: "wmrq_values rq = vector_resize 0 ?n (packet_registers p 13 (unat (p ! 12) div 2))"
    using write_registers_decoded [OF P, of p] assms True by metis
  show ?thesis
  proof (cases "num_regs_validate True (packet_u16 p 10) \<and> in_block (holding_registers T) ?a ?n")
    case False
    then have "spec_write_multiple_registers p (table_image T) = Fail illegal_data_address"
      using True by (auto simp: spec_write_multiple_registers_def Let_def num_regs_validate_unat
          in_block_cells)
    then show ?thesis
      by (simp add: serve_write_multiple_registers_def run_function_def dec rq
          write_multiple_registers_execute_eq False adu_header_def)
  next
    case ok: True
    let ?vs = "packet_registers p 13 ?n"
    let ?T = "T\<lparr>holding_registers := store (holding_registers T) ?a ?vs\<rparr>"
    have n: "1 \<le> ?n" "?n \<le> 127" using ok by (auto simp: num_regs_validate_unat)
    then have "unat (p ! 12) div 2 = ?n" using True by (simp only: double_div_two)
    with vs have vs: "wmrq_values rq = ?vs" by simp
    have "length ?vs \<noteq> 0" using n by simp
    then have ne: "?vs \<noteq> []" by fastforce
    have "all_cells (block_cells (holding_registers T)) (unat (packet_u16 p 8)) ?n"
      using ok n in_block_cells [of ?n "holding_registers T" ?a] by simp
    then have spec: "spec_write_multiple_registers p (table_image T) =
        Reply (u16_bytes (packet_u16 p 8) @ u16_bytes (packet_u16 p 10)) (table_image ?T)"
      using True ok table_image_holding [OF T, of ?a ?vs]
      by (simp add: spec_write_multiple_registers_def Let_def num_regs_validate_unat)
    show ?thesis
      using ok T spec ne
      by (simp add: serve_write_multiple_registers_def run_function_def dec rq vs
          write_multiple_registers_execute_eq write_multiple_registers_response_encode_eq [OF P]
          header_bytes_four)
  qed
qed

text \<open>The request object that a well-formed packet is decoded into.\<close>

lemma read_write_decoded:
  assumes P: "platform_ok P" and "8 \<le> length p" "p ! 7 = 0x17"
    and w: "17 \<le> length p" "unat (p ! 16) = 2 * unat (packet_u16 p 14) mod 256"
      "17 + unat (p ! 16) \<le> length p"
  obtains rq where
    "read_write_multiple_registers_decode P p new_read_write_multiple_registers_request = (Ok (), rq)"
    "rwq_read_address rq = Metadata (packet_u16 p 8)"
    "rwq_read_count rq = Metadata (packet_u16 p 10)"
    "rwq_write_address rq = Metadata (packet_u16 p 12)"
    "rwq_write_count rq = Metadata (packet_u16 p 14)"
    "rwq_values rq =
       vector_resize 0 (unat (packet_u16 p 14)) (packet_registers p 17 (unat (p ! 16) div 2))"
    "adu_transaction rq = packet_u16 p 0" "adu_unit rq = p ! 6"
    "adu_function rq = read_write_multiple_registers"
proof -
  define rq where "rq = (take_header p new_read_write_multiple_registers_request)
    \<lparr>rwq_read_address := Metadata (packet_u16 p 8), rwq_read_count := Metadata (packet_u16 p 10),
     rwq_write_address := Metadata (packet_u16 p 12), rwq_write_count := Metadata (packet_u16 p 14),
     rwq_values :=
       vector_resize 0 (unat (packet_u16 p 14)) (packet_registers p 17 (unat (p ! 16) div 2))\<rparr>"
  have "adu_function rq = read_write_multiple_registers"
    using assms by (simp add: rq_def take_header_def function_code_of_byte_def check_function_def)
  moreover have
    "read_write_multiple_registers_decode P p new_read_write_multiple_registers_request = (Ok (), rq)"
    using assms by (simp add: read_write_multiple_registers_decode_eq rq_def)
  ultimately show thesis by (intro that [of rq]) (simp_all add: rq_def)
qed

text \<open>The answer to a request within the limits: the registers of the block after the write.\<close>

lemma read_write_accepted:
  fixes rq :: read_write_multiple_registers_request
  assumes P: "platform_ok P" and T: "table_inv T"
    and f: "adu_function rq = read_write_multiple_registers"
    and r: "num_regs_validate False (meta_get (rwq_read_count rq))"
      "in_block (holding_registers T) (rwq_read_address rq) (unat (meta_get (rwq_read_count rq)))"
    and w: "rwq_values rq \<noteq> []"
      "in_block (holding_registers T) (rwq_write_address rq) (length (rwq_values rq))"
  defines "B \<equiv> store (holding_registers T) (rwq_write_address rq) (rwq_values rq)"
  defines "n \<equiv> unat (meta_get (rwq_read_count rq))"
  shows "\<exists>s. read_write_multiple_registers_response_encode P
      (make_read_write_multiple_registers_response rq, T) =
    (Ok (adu_packet (adu_transaction rq) (adu_unit rq)
       (function_underlying read_write_multiple_registers)
       (word_of_nat (2 * n) # registers_bytes (stored B (rwq_read_address rq) n))),
     (s, T\<lparr>holding_registers := B\<rparr>))"
proof -
  let ?rs = "make_read_write_multiple_registers_response rq"
  let ?E = "stored B (rwq_read_address rq) n"
  have B: "block_inv B" using T w by (simp add: B_def)
  have n: "n \<le> 125" using r by (simp add: n_def num_regs_validate_unat)
  have E: "length ?E = n" using B r by (simp add: B_def n_def)
  have bc: "unat (registers_byte_count (rwq_read_count rq)) = 2 * n"
    using read_write_response_size_eq(1) r by (simp add: n_def)
  have len: "1 + ucast (rws_count ?rs) =
      (word_of_nat (length (word_of_nat (2 * n) # registers_bytes ?E)) :: u16)"
    using E n by (intro word_eq_of_unat) (simp add: bc unat_add_u16)
  show ?thesis
    using T r w header_bytes_adu_packet [OF len, of ?rs]
    by (simp add: read_write_response_encode_eq [OF P] f B_def n_def)
qed

text \<open>The cells and the registers that the specification names.\<close>

lemma read_write_spec:
  assumes "table_inv T"
    and p: "17 \<le> length p" "unat (p ! 16) = 2 * unat (packet_u16 p 14) mod 256"
      "17 + unat (p ! 16) \<le> length p"
    and r: "num_regs_validate False (packet_u16 p 10)"
      "in_block (holding_registers T) (Metadata (packet_u16 p 8)) (unat (packet_u16 p 10))"
    and w: "num_regs_validate True (packet_u16 p 14)"
      "in_block (holding_registers T) (Metadata (packet_u16 p 12)) (unat (packet_u16 p 14))"
  defines "B \<equiv> store (holding_registers T) (Metadata (packet_u16 p 12))
      (packet_registers p 17 (unat (packet_u16 p 14)))"
  shows "spec_read_write_multiple_registers p (table_image T) =
    Reply (word_of_nat (2 * unat (packet_u16 p 10)) #
           registers_bytes (stored B (Metadata (packet_u16 p 8)) (unat (packet_u16 p 10))))
      (table_image (T\<lparr>holding_registers := B\<rparr>))"
proof -
  let ?vs = "packet_registers p 17 (unat (packet_u16 p 14))"
  have B: "block_inv B" using assms by (simp add: B_def)
  have cells: "block_cells B =
      put_cells (block_cells (holding_registers T)) (unat (packet_u16 p 12)) ?vs"
    using store_cells [of "holding_registers T" "Metadata (packet_u16 p 12)" ?vs] assms by simp
  have E: "stored B (Metadata (packet_u16 p 8)) (unat (packet_u16 p 10)) =
      cell_list (block_cells B) (unat (packet_u16 p 8)) (unat (packet_u16 p 10))"
    using stored_cells [OF B, of "Metadata (packet_u16 p 8)"] r by (simp add: B_def)
  show ?thesis
    using p r w
    by (simp add: spec_read_write_multiple_registers_def Let_def E cells table_image_def
        num_regs_validate_unat in_block_cells)
qed

lemma serve_read_write_multiple_registers_implements:
  assumes P: "platform_ok P" and T: "table_inv T" and "8 \<le> length p" "p ! 7 = 0x17"
  shows "implements (serve_read_write_multiple_registers P p T) p read_write_multiple_registers T
    (spec_read_write_multiple_registers p (table_image T))"
proof (cases "17 \<le> length p \<and> unat (p ! 16) = 2 * unat (packet_u16 p 14) mod 256 \<and>
    17 + unat (p ! 16) \<le> length p")
  case False
  with assms show ?thesis
    by (auto simp: serve_read_write_multiple_registers_def run_function_def
        read_write_multiple_registers_decode_eq spec_read_write_multiple_registers_def Let_def
        adu_header_def)
next
  case True
  let ?H = "holding_registers T" and ?rn = "unat (packet_u16 p 10)" and ?wn = "unat (packet_u16 p 14)"
  obtain rq where dec:
      "read_write_multiple_registers_decode P p new_read_write_multiple_registers_request = (Ok (), rq)"
    and rq: "rwq_read_address rq = Metadata (packet_u16 p 8)"
      "rwq_read_count rq = Metadata (packet_u16 p 10)"
      "rwq_write_address rq = Metadata (packet_u16 p 12)"
      "rwq_write_count rq = Metadata (packet_u16 p 14)"
      "adu_transaction rq = packet_u16 p 0" "adu_unit rq = p ! 6"
      "adu_function rq = read_write_multiple_registers"
    and vs: "rwq_values rq = vector_resize 0 ?wn (packet_registers p 17 (unat (p ! 16) div 2))"
    using read_write_decoded [OF P, of p] assms True by metis
  show ?thesis
  proof (cases "(num_regs_validate False (packet_u16 p 10) \<and> in_block ?H (Metadata (packet_u16 p 8)) ?rn)
      \<and> num_regs_validate True (packet_u16 p 14) \<and> in_block ?H (Metadata (packet_u16 p 12)) ?wn")
    case False
    have "spec_read_write_multiple_registers p (table_image T) = Fail illegal_data_address"
      using True False
      by (auto simp: spec_read_write_multiple_registers_def Let_def num_regs_validate_unat
          in_block_cells)
    moreover have "read_write_multiple_registers_execute rq T =
        Throw (Specification illegal_data_address read_write_multiple_registers (adu_header rq))"
      using False by (auto simp: read_write_multiple_registers_execute_eq rq)
    ultimately show ?thesis
      by (simp add: serve_read_write_multiple_registers_def run_function_def dec rq
          adu_header_def)
  next
    case ok: True
    have wn: "1 \<le> ?wn" "?wn \<le> 127" using ok by (auto simp: num_regs_validate_unat)
    then have "unat (p ! 16) div 2 = ?wn" using True by (simp only: double_div_two)
    with vs have vs: "rwq_values rq = packet_registers p 17 ?wn" by simp
    have "length (packet_registers p 17 ?wn) \<noteq> 0" using wn by simp
    then have ne: "packet_registers p 17 ?wn \<noteq> []" by fastforce
    then obtain s where enc: "read_write_multiple_registers_response_encode P
        (make_read_write_multiple_registers_response rq, T) = (Ok (adu_packet (packet_u16 p 0) (p ! 6)
         (function_underlying read_write_multiple_registers)
         (word_of_nat (2 * ?rn) # registers_bytes (stored (store ?H (Metadata (packet_u16 p 12))
            (packet_registers p 17 ?wn)) (Metadata (packet_u16 p 8)) ?rn))),
        (s, T\<lparr>holding_registers := store ?H (Metadata (packet_u16 p 12)) (packet_registers p 17 ?wn)\<rparr>))"
      using read_write_accepted [OF P T rq(7)] ok by (auto simp: rq vs)
    show ?thesis
      using ok T True read_write_spec [OF T, of p]
      by (simp add: serve_read_write_multiple_registers_def run_function_def dec rq
          read_write_multiple_registers_execute_eq enc)
  qed
qed

interpretation write_multiple_registers_service: modbus_service serve_write_multiple_registers
  write_multiple_registers spec_write_multiple_registers
  by unfold_locales (simp add: serve_write_multiple_registers_implements)

interpretation read_write_multiple_registers_service: modbus_service
  serve_read_write_multiple_registers
  read_write_multiple_registers spec_read_write_multiple_registers
  by unfold_locales (simp add: serve_read_write_multiple_registers_implements)

end
