(* ===== verification/Modbus_Spec_Facts.thy ===== *)
theory Modbus_Spec_Facts
  imports Modbus_Spec
begin

text \<open>
  Consequences of the abstract specification that hold for every function: how long a
  request must be, how long a reply can be, which failures exist, and which cells a request
  can change. The properties of the handler are these facts, carried over by refinement.
\<close>

section \<open>Shapes of requests\<close>

definition supported_bytes :: "byte list" where
  "supported_bytes = [0x01, 0x02, 0x03, 0x04, 0x05, 0x06, 0x0F, 0x10, 0x16, 0x17]"

text \<open>
  The number of bytes the server reads of a request: the fixed fields of the function, and
  the register values when the byte count of the request agrees with its register count.
\<close>

definition request_extent :: "packet_t \<Rightarrow> nat" where
  "request_extent p =
     (let b = p ! 7 in
      if b \<in> set [0x01, 0x02, 0x03, 0x04, 0x05, 0x06] then 12
      else if b = 0x0F then 13
      else if b = 0x10 then
        (if 13 \<le> length p \<and> unat (p ! 12) = 2 * unat (packet_u16 p 10) mod 256
         then 13 + unat (p ! 12) else 13)
      else if b = 0x16 then 14
      else if b = 0x17 then
        (if 17 \<le> length p \<and> unat (p ! 16) = 2 * unat (packet_u16 p 14) mod 256
         then 17 + unat (p ! 16) else 17)
      else 8)"

text \<open>The addresses a request may write, among the coils and among the holding registers.\<close>

definition written_coils :: "packet_t \<Rightarrow> nat set" where
  "written_coils p =
     (let a = unat (packet_u16 p 8) in
      if p ! 7 = 0x05 then {a}
      else if p ! 7 = 0x0F then {a ..< a + unat (packet_u16 p 10)}
      else {})"

definition written_registers :: "packet_t \<Rightarrow> nat set" where
  "written_registers p =
     (let a = unat (packet_u16 p 8) in
      if p ! 7 = 0x06 \<or> p ! 7 = 0x16 then {a}
      else if p ! 7 = 0x10 then {a ..< a + unat (packet_u16 p 10)}
      else if p ! 7 = 0x17
      then {unat (packet_u16 p 12) ..< unat (packet_u16 p 12) + unat (packet_u16 p 14)}
      else {})"

lemmas spec_defs =
  spec_read_bits_def spec_read_registers_def spec_write_single_coil_def
  spec_write_single_register_def spec_write_multiple_coils_def
  spec_write_multiple_registers_def spec_mask_write_register_def
  spec_read_write_multiple_registers_def

section \<open>Facts\<close>

lemma put_cells_outside: "j \<notin> {k ..< k + length vs} \<Longrightarrow> put_cells m k vs j = m j"
  by (auto simp: put_cells_def)

lemma put_cells_None:
  "all_cells m k n \<Longrightarrow> length vs = n \<Longrightarrow> put_cells m k vs j = None \<longleftrightarrow> m j = None"
  using all_cells_put [of m k vs j 1] by (simp add: all_cells_def del: not_None_eq)

lemma put_cell_None: "m k \<noteq> None \<Longrightarrow> put_cells m k [v] j = None \<longleftrightarrow> m j = None"
  using put_cells_None [of m k 1 "[v]" j] by (simp add: all_cells_def)

lemma spec_overread_iff:
  "spec_request p im = Overread \<longleftrightarrow>
     p ! 7 \<in> set supported_bytes \<and> length p < request_extent p"
proof -
  have f: "spec_request p im = Overread \<longleftrightarrow> length p < request_extent p"
    if "p ! 7 = b" "b \<in> set supported_bytes" for b
    using that unfolding supported_bytes_def list.set insert_iff empty_iff simp_thms
    by (elim disjE; simp add: spec_request_def request_extent_def spec_defs Let_def
        split: option.split)
  show ?thesis
  proof (cases "p ! 7 \<in> set supported_bytes")
    case True
    then show ?thesis using f [OF refl] by simp
  next
    case False
    then show ?thesis by (simp add: spec_request_def supported_bytes_def)
  qed
qed

lemma spec_fail_codes:
  "spec_request p im = Fail ec \<Longrightarrow>
   ec \<in> {illegal_function, illegal_data_address, server_device_failure}"
  by (auto simp: spec_request_def spec_defs Let_def split: if_splits option.splits)

lemmas length_pack_bits_chunks [simp] = length_pack_bits [unfolded pack_bits_eq_chunks]

lemma spec_reply_body_length:
  "spec_request p im = Reply body im' \<Longrightarrow> 2 \<le> length body \<and> length body \<le> 251"
  by (auto simp: spec_request_def spec_defs Let_def split: if_splits option.splits)

text \<open>A request changes no cell outside its window, and the areas keep their addresses.\<close>

lemma put_window:
  "j \<notin> {k ..< k + n} \<Longrightarrow> length vs = n \<Longrightarrow> put_cells m k vs j = m j"
  using put_cells_outside by blast

lemma spec_outside_window:
  assumes "spec_request p im = Reply body im'"
  shows "j \<notin> written_coils p \<Longrightarrow> im_coils im' j = im_coils im j"
    "j \<notin> written_registers p \<Longrightarrow> im_holding_registers im' j = im_holding_registers im j"
    "im_discrete_inputs im' = im_discrete_inputs im"
    "im_input_registers im' = im_input_registers im"
  using assms
  by (auto simp: spec_request_def spec_defs Let_def written_coils_def written_registers_def
      put_cells_def split: if_splits option.splits)

lemma spec_domains:
  assumes "spec_request p im = Reply body im'"
  shows "im_coils im' j = None \<longleftrightarrow> im_coils im j = None"
    "im_holding_registers im' j = None \<longleftrightarrow> im_holding_registers im j = None"
  using assms
  by (auto simp: spec_request_def spec_defs Let_def put_cells_None put_cell_None
      simp del: not_None_eq not_Some_eq split: if_splits option.splits)


text \<open>What a normal reply to the two multiple writes says.\<close>

lemma spec_write_registers_replied:
  assumes "spec_request p im = Reply body im'" "p ! 7 = 0x10"
  shows "1 \<le> unat (packet_u16 p 10)" "unat (packet_u16 p 10) \<le> 123"
    "all_cells (im_holding_registers im) (unat (packet_u16 p 8)) (unat (packet_u16 p 10))"
    "im_holding_registers im' = put_cells (im_holding_registers im) (unat (packet_u16 p 8))
       (packet_registers p 13 (unat (packet_u16 p 10)))"
  using assms
  by (auto simp: spec_request_def spec_write_multiple_registers_def Let_def split: if_splits)

lemma spec_write_coils_replied:
  assumes "spec_request p im = Reply body im'" "p ! 7 = 0x0F"
  shows "1 \<le> unat (packet_u16 p 10)" "unat (packet_u16 p 10) \<le> 1968"
    "all_cells (im_coils im) (unat (packet_u16 p 8)) (unat (packet_u16 p 10))"
    "im_coils im' = put_cells (im_coils im) (unat (packet_u16 p 8))
       (vector_resize False (unat (packet_u16 p 10)) (unpack_bits (drop 13 p)))"
  using assms
  by (auto simp: spec_request_def spec_write_multiple_coils_def Let_def split: if_splits)


lemma spec_read_write_replied:
  assumes "spec_request p im = Reply body im'" "p ! 7 = 0x17"
  shows "body = word_of_nat (2 * unat (packet_u16 p 10)) #
      registers_bytes (cell_list (im_holding_registers im') (unat (packet_u16 p 8))
        (unat (packet_u16 p 10)))"
    "im_holding_registers im' = put_cells (im_holding_registers im) (unat (packet_u16 p 12))
       (packet_registers p 17 (unat (packet_u16 p 14)))"
  using assms
  by (auto simp: spec_request_def spec_read_write_multiple_registers_def Let_def split: if_splits)

end
