(* ===== verification/Modbus_Request_Handler.thy ===== *)
theory Modbus_Request_Handler
  imports Modbus_Bit_Read Modbus_Register_Read Modbus_Bit_Write Modbus_Register_Write
    Modbus_Registers_Write Modbus_Spec_Facts
begin

text \<open>
  \<open>request-handler.hpp\<close> and \<open>request-handler.cpp\<close>: the dispatch of a received packet on its
  function byte and the translation of exceptions into replies. The main result is that
  \<open>handle\<close> refines the abstract server \<open>spec_handle\<close>, which maps a packet and the four
  areas to a reply and new areas.
\<close>

section \<open>The handler\<close>

text \<open>The default branch: \<open>request::illegal req; req.decode(packet);\<close> and then \<open>return {};\<close>\<close>

definition serve_illegal :: "platform \<Rightarrow> packet_t \<Rightarrow> (table, exn, packet_t) act" where
  "serve_illegal P packet T =
     (case illegal_decode P packet (make_illegal fc_min 0x00 0x00) of
        (Ok _, _) \<Rightarrow> (Ok [], T)
      | (Throw e, _) \<Rightarrow> (Throw e, T)
      | (Undefined, _) \<Rightarrow> (Undefined, T))"

definition dispatch :: "platform \<Rightarrow> function_code \<Rightarrow> packet_t \<Rightarrow> (table, exn, packet_t) act" where
  "dispatch P function packet =
     (case function of
        read_coils \<Rightarrow> serve_read_bits read_coils coils P packet
      | read_discrete_inputs \<Rightarrow> serve_read_bits read_discrete_inputs discrete_inputs P packet
      | read_holding_registers \<Rightarrow>
          serve_read_registers read_holding_registers holding_registers P packet
      | read_input_registers \<Rightarrow>
          serve_read_registers read_input_registers input_registers P packet
      | write_single_coil \<Rightarrow> serve_write_single_coil P packet
      | write_single_register \<Rightarrow> serve_write_single_register P packet
      | write_multiple_coils \<Rightarrow> serve_write_multiple_coils P packet
      | write_multiple_registers \<Rightarrow> serve_write_multiple_registers P packet
      | mask_write_register \<Rightarrow> serve_mask_write_register P packet
      | read_write_multiple_registers \<Rightarrow> serve_read_write_multiple_registers P packet
      | _ \<Rightarrow> serve_illegal P packet)"

text \<open>
  \<open>catch (const ex::specification_error& exc)\<close>: an exception response is made and encoded;
  what its \<open>encode\<close> throws leaves \<open>handle\<close>. The other clauses only log.
\<close>

definition report :: "platform \<Rightarrow> exn \<Rightarrow> (table, exn, packet_t) act" where
  "report P e =
     (case e of
        Specification ec f h \<Rightarrow> (\<lambda>T. (fst (error_encode P (make_error ec f h)), T))
      | Internal _ \<Rightarrow> return_act []
      | Std_out_of_range \<Rightarrow> return_act []
      | Std_exception \<Rightarrow> return_act [])"

definition handle :: "platform \<Rightarrow> packet_t \<Rightarrow> (table, exn, packet_t) act" where
  "handle P packet =
     try_act
       (then_act (throw_if (\<lambda>_. length packet \<le> header_length) (\<lambda>_. Internal bad_data_size))
       (bind_act (packet_at packet header_length) (\<lambda>b.
        dispatch P (function_code_of_byte b) packet)))
       (report P)"

section \<open>The abstract server\<close>

text \<open>
  The function byte of an exception reply: the request's, with the top bit set, except
  that all bytes outside the range of \<open>check_function\<close> give the same byte.
\<close>

definition error_function_byte :: "byte \<Rightarrow> byte" where
  "error_function_byte b = (if check_function b then b + 0x80 else 0x80)"

text \<open>\<open>None\<close> is undefined behaviour.\<close>

definition spec_handle :: "packet_t \<Rightarrow> image \<Rightarrow> (packet_t \<times> image) option" where
  "spec_handle p im =
     (if length p < 8 then Some ([], im)
      else case spec_request p im of
        Reply body im' \<Rightarrow> Some (adu_packet (packet_u16 p 0) (p ! 6) (p ! 7) body, im')
      | Fail ec \<Rightarrow>
          Some (adu_packet (packet_u16 p 0) (p ! 6) (error_function_byte (p ! 7))
                  [exception_underlying ec], im)
      | Overread \<Rightarrow> None)"

section \<open>Exception replies\<close>

lemma make_error_simps [simp]:
  "adu_transaction (make_error ec f h) = hd_transaction h"
  "adu_unit (make_error ec f h) = hd_unit h"
  "adu_function (make_error ec f h) = f"
  "adu_function_code (make_error ec f h) = function_underlying f"
  "err_code (make_error ec f h) = ec"
  by (simp_all add: make_error_def response.extend_def error_response.fields_def
      make_response_def adu.extend_def response.fields_def adu_of_function_def initialize_def)

lemma error_response_frame [simp]:
  "err_code (calc_length n r) = err_code r"
  "err_code (take_header p r) = err_code r"
  by (cases r; simp add: calc_length_def take_header_def)+

lemma error_encode_eq:
  assumes P: "platform_ok P" and f: "uint (function_underlying f) < 128"
  shows "fst (error_encode P (make_error ec f h)) =
    Ok (adu_packet (hd_transaction h) (hd_unit h) (function_underlying f + 0x80)
          [exception_underlying ec])"
proof -
  let ?f = "function_underlying f" and ?e = "exception_underlying ec"
  have "int (unat ?f) < int 128" using f by simp
  then have lt: "unat ?f < 128" by (simp only: of_nat_less_iff)
  have pk: "pack P ''BB'' [unat ?f + 0x80, unat ?e] = [?f + 0x80, ?e]"
    using P lt by (simp add: pack_eq field_bytes_def)
  have hb: "butlast (header_bytes (calc_length 1 (make_error ec f h))) @ [?f + 0x80, ?e] =
      adu_packet (hd_transaction h) (hd_unit h) (?f + 0x80) [?e]"
    by (simp add: header_bytes_def adu_packet_def Let_def)
  have one: "unat (calc_adu_length 1) = 9" by (simp add: unat_calc_adu_length)
  show ?thesis
    by (simp add: error_encode_def act_simps header_packet_eq [OF P] pk hb one)
qed

section \<open>The refinement\<close>

text \<open>What the catch clauses make of the result of a branch.\<close>

definition finish :: "platform \<Rightarrow> (exn, packet_t) outcome \<times> table \<Rightarrow> (exn, packet_t) outcome \<times> table" where
  "finish P res = (case res of (Throw e, T) \<Rightarrow> report P e T | _ \<Rightarrow> res)"

lemma handle_eq:
  "handle P p T =
     (if length p < 8 then (Ok [], T)
      else finish P (dispatch P (function_code_of_byte (p ! 7)) p T))"
  by (simp add: handle_def act_simps header_length_def report_def finish_def
      split: outcome.split prod.split)

lemma finish_table [simp]: "snd (finish P res) = snd res"
  by (cases res; cases "fst res") (auto simp: finish_def report_def act_simps split: exn.split)

lemma serve_illegal_eq:
  assumes "platform_ok P" "8 \<le> length p"
  shows "serve_illegal P p T = (Throw (Specification illegal_function
      (if check_function (p ! 7) then function_code_of_byte (p ! 7) else fc_min)
      \<lparr>hd_transaction = packet_u16 p 0, hd_length = packet_u16 p 4, hd_unit = p ! 6\<rparr>), T)"
  using assms
  by (simp add: serve_illegal_def illegal_decode_eq make_illegal_def adu_of_function_def)

text \<open>The supported functions, with the contract of the branch that serves each.\<close>

lemmas service_contracts =
  read_coils_service.contract read_discrete_inputs_service.contract
  read_holding_registers_service.contract read_input_registers_service.contract
  write_single_coil_service.contract write_single_register_service.contract
  write_multiple_coils_service.contract write_multiple_registers_service.contract
  mask_write_register_service.contract read_write_multiple_registers_service.contract

text \<open>The function an exception reply names: unknown bytes leave the default one.\<close>

definition named_function :: "byte \<Rightarrow> function_code" where
  "named_function b = (if check_function b then function_code_of_byte b else fc_min)"

lemma named_function_byte:
  "uint (function_underlying (named_function b)) < 128"
  "function_underlying (named_function b) + 0x80 = error_function_byte b"
  by (auto simp: named_function_def error_function_byte_def check_function_def word_less_def)

text \<open>The dispatch implements the specification of requests, for every function byte.\<close>

lemma dispatch_implements:
  assumes "platform_ok P" "table_inv T" "8 \<le> length p"
  shows "implements (dispatch P (function_code_of_byte (p ! 7)) p T) p (named_function (p ! 7)) T
    (spec_request p (table_image T))"
proof (cases "p ! 7 \<in> set supported_bytes")
  case True
  then show ?thesis
    unfolding supported_bytes_def list.set insert_iff empty_iff simp_thms
    by (elim disjE; simp add: dispatch_def spec_request_def function_code_of_byte_def
        service_contracts [OF assms] named_function_def check_function_def)
next
  case False
  then have d: "dispatch P (function_code_of_byte (p ! 7)) p T = serve_illegal P p T"
    by (simp add: supported_bytes_def dispatch_def function_code_of_byte_def)
  have s: "spec_request p (table_image T) = Fail illegal_function"
    using False by (simp add: supported_bytes_def spec_request_def)
  show ?thesis
    using assms by (simp add: d s serve_illegal_eq named_function_def)
qed

lemma supported_checked: "b \<in> set supported_bytes \<Longrightarrow> check_function b"
  unfolding supported_bytes_def list.set insert_iff empty_iff simp_thms
  by (elim disjE; simp add: check_function_def)

lemma spec_reply_supported:
  "spec_request p im = Reply body im' \<Longrightarrow> p ! 7 \<in> set supported_bytes"
  by (auto simp: spec_request_def supported_bytes_def Let_def split: if_splits)

lemma reply_function_byte:
  assumes "spec_request p im = Reply body im'"
  shows "function_underlying (named_function (p ! 7)) = p ! 7"
  using supported_checked [OF spec_reply_supported [OF assms]] by (simp add: named_function_def)

text \<open>The four ways \<open>handle\<close> can end.\<close>

lemma handle_cases:
  assumes "platform_ok P" "table_inv T"
  obtains (short) "length p < 8" "handle P p T = (Ok [], T)"
  | (reply) body T' where "8 \<le> length p"
      "spec_request p (table_image T) = Reply body (table_image T')" "table_inv T'"
      "handle P p T = (Ok (adu_packet (packet_u16 p 0) (p ! 6) (p ! 7) body), T')"
  | (failure) ec where "8 \<le> length p" "spec_request p (table_image T) = Fail ec"
      "handle P p T = (Ok (adu_packet (packet_u16 p 0) (p ! 6) (error_function_byte (p ! 7))
                             [exception_underlying ec]), T)"
  | (overread) "8 \<le> length p" "spec_request p (table_image T) = Overread"
      "handle P p T = (Undefined, T)"
proof (cases "length p < 8")
  case True
  then show ?thesis using short by (simp add: handle_eq)
next
  case False
  then have p: "8 \<le> length p" by simp
  let ?d = "dispatch P (function_code_of_byte (p ! 7)) p T"
  have h: "handle P p T = finish P ?d" using False by (simp add: handle_eq)
  note impl = dispatch_implements [OF assms p]
  show ?thesis
  proof (cases "spec_request p (table_image T)")
    case (Reply body im)
    with impl have "handle P p T = (Ok (adu_packet (packet_u16 p 0) (p ! 6) (p ! 7) body), snd ?d)"
      "table_image (snd ?d) = im" "table_inv (snd ?d)"
      unfolding h using reply_function_byte [OF Reply]
      by (auto simp: implements_def finish_def prod_eq_iff split: prod.split)
    with Reply show ?thesis using reply [OF p] by blast
  next
    case (Fail ec)
    with impl obtain hd where "?d = (Throw (Specification ec (named_function (p ! 7)) hd), T)"
      "hd_transaction hd = packet_u16 p 0" "hd_unit hd = p ! 6"
      by (auto simp: implements_def prod_eq_iff)
    then have "handle P p T = (Ok (adu_packet (packet_u16 p 0) (p ! 6)
        (error_function_byte (p ! 7)) [exception_underlying ec]), T)"
      using error_encode_eq [OF assms(1) named_function_byte(1)]
      by (simp add: h finish_def report_def named_function_byte(2))
    with Fail show ?thesis using failure [OF p] by blast
  next
    case Overread
    with impl have "handle P p T = (Undefined, T)"
      unfolding h by (auto simp: implements_def finish_def prod_eq_iff split: prod.split)
    with Overread show ?thesis using overread [OF p] by blast
  qed
qed


text \<open>From the specification to the handler, and back from a normal reply.\<close>

lemma handle_reply:
  assumes "platform_ok P" "table_inv T" "8 \<le> length p"
    and "spec_request p (table_image T) = Reply body im"
  shows "fst (handle P p T) = Ok (adu_packet (packet_u16 p 0) (p ! 6) (p ! 7) body)"
    "table_image (snd (handle P p T)) = im" "table_inv (snd (handle P p T))"
  by (cases rule: handle_cases [OF assms(1,2), of p]; use assms(3,4) in auto)+

lemma handle_fail:
  assumes "platform_ok P" "table_inv T" "8 \<le> length p"
    and "spec_request p (table_image T) = Fail ec"
  shows "handle P p T = (Ok (adu_packet (packet_u16 p 0) (p ! 6) (error_function_byte (p ! 7))
           [exception_underlying ec]), T)"
  by (cases rule: handle_cases [OF assms(1,2), of p]; use assms(3,4) in auto)

lemma error_byte_differs: "b \<in> set supported_bytes \<Longrightarrow> error_function_byte b \<noteq> b"
  using supported_checked [of b] by (simp add: error_function_byte_def)

lemma handle_replied:
  assumes "platform_ok P" "table_inv T" "p ! 7 \<in> set supported_bytes"
    and "fst (handle P p T) = Ok r" "r ! 7 = p ! 7" "r \<noteq> []"
  obtains body where "8 \<le> length p" "r = adu_packet (packet_u16 p 0) (p ! 6) (p ! 7) body"
    "spec_request p (table_image T) = Reply body (table_image (snd (handle P p T)))"
    "table_inv (snd (handle P p T))"
  by (cases rule: handle_cases [OF assms(1,2), of p])
    (use assms(3-6) that error_byte_differs [OF assms(3)] in auto)

end
