(* ===== verification/Modbus_Request_Programs.thy ===== *)
theory Modbus_Request_Programs
  imports Programs Modbus_Request_Handler
begin

text \<open>
  The handler as a program that shares the data table with others. The server runs its receive
  callback on several threads (\<open>server\<close> passes a concurrency to the networking library), and the
  only lock is the one a block holds during one \<open>get\<close> or \<open>set\<close>; elements are read through
  iterators, which hold no lock. Here every call that touches one cell, every check of a range,
  and every read and every write of an element of a range is an access of its own: a reader can
  see a \<open>set\<close> of a range half done. The lock keeps two \<open>set\<close>s apart, which is not used here, so
  that the runs include all those of the code; \<open>Modbus_Locked_Requests\<close> adds the locks. Run alone, the programs are the methods of the
  other theories: \<open>run_handle_program\<close>.
\<close>

section \<open>Steps\<close>

definition object_set :: "('r \<Rightarrow> 'r) \<Rightarrow> (table, 'r, exn, unit) shared_act" where
  "object_set f = local_act (modify_act f)"

definition object_get :: "('r \<Rightarrow> 'a) \<Rightarrow> (table, 'r, exn, 'a) shared_act" where
  "object_get f = local_act (gets_act f)"

definition object_check :: "('r \<Rightarrow> bool) \<Rightarrow> ('r \<Rightarrow> exn) \<Rightarrow> (table, 'r, exn, unit) shared_act" where
  "object_check b e = local_act (throw_if b e)"

definition give :: "'a \<Rightarrow> (table, 'r, exn, 'a) shared_act" where
  "give a = local_act (return_act a)"

definition encode_catch_shared ::
    "(table, 'a adu_scheme, exn, packet_t) shared_act \<Rightarrow> (table, 'a adu_scheme, exn, packet_t) shared_act"
  where
  "encode_catch_shared body =
     try_shared body (\<lambda>e.
       if e = Std_out_of_range
       then local_act (raise_act (\<lambda>r. Specification illegal_data_address (adu_function r) (adu_header r)))
       else local_act (raise_act (\<lambda>r. Specification server_device_failure (adu_function r) (adu_header r))))"

text \<open>\<open>*ptr\<close> for an iterator into a container, and a loop of it over a range of iterators.\<close>

definition block_element :: "'a block \<Rightarrow> nat \<Rightarrow> (exn, 'a) outcome" where
  "block_element b i = bind_outcome (container_element b i) (\<lambda>i. Ok (blk_container b ! i))"

fun read_elements :: "(table \<Rightarrow> 'a block) \<Rightarrow> nat list \<Rightarrow> (table, 'r, exn, 'a list) shared_act" where
  "read_elements area [] = give []"
| "read_elements area (i # is) =
     bind_shared (read_shared (\<lambda>r T. block_element (area T) i)) (\<lambda>v.
     bind_shared (read_elements area is) (\<lambda>vs. give (v # vs)))"

text \<open>
  \<open>set(address, buffer)\<close>: the check, and then the loop of \<open>std::transform\<close>. Each element is written
  by itself, also in the block of the coils, whose \<open>std::vector<bool>\<close> packs neighbouring coils into
  one word: there an unlocked read of a coil races with the write of a neighbour as well, and C++
  leaves both undefined; here they have the values of the coils.
\<close>

definition block_put_element :: "'a block \<Rightarrow> nat \<Rightarrow> 'a \<Rightarrow> (exn, 'a block) outcome" where
  "block_put_element b i v =
     bind_outcome (container_element b i) (\<lambda>i. Ok (b\<lparr>blk_container := (blk_container b)[i := v]\<rparr>))"

fun write_elements ::
    "(table \<Rightarrow> 'a block) \<Rightarrow> ('a block \<Rightarrow> table \<Rightarrow> table) \<Rightarrow> nat \<Rightarrow> 'a list \<Rightarrow> (table, 'r, exn, unit) shared_act"
  where
  "write_elements area upd i [] = give ()"
| "write_elements area upd i (v # vs) =
     then_shared
       (write_shared (\<lambda>r T. bind_outcome (block_put_element (area T) i v) (\<lambda>b. Ok (upd b T))))
       (write_elements area upd (Suc i) vs)"

definition set_range ::
    "(table \<Rightarrow> 'a block) \<Rightarrow> ('a block \<Rightarrow> table \<Rightarrow> table) \<Rightarrow> ('r \<Rightarrow> address_t) \<Rightarrow> ('r \<Rightarrow> 'a list) \<Rightarrow>
     (table, 'r, exn, unit) shared_act" where
  "set_range area upd address buffer =
     bind_shared (object_get buffer) (\<lambda>vs.
     bind_shared (read_shared (\<lambda>r T. block_ref_slice (area T) (address r) (length vs))) (\<lambda>(i, j).
     write_elements area upd i vs))"

text \<open>The elements are read twice: into the response object, and then into the packet.\<close>

definition read_bits_program ::
    "platform \<Rightarrow> (table \<Rightarrow> bool block) \<Rightarrow> (table, read_bits_response, exn, packet_t) shared_act" where
  "read_bits_program P area =
     encode_catch_shared
       (bind_shared (read_shared (\<lambda>r T. block_get_slice (num_bits_validate False) (area T)
                       (rbq_address (rbs_request r)) (rbq_count (rbs_request r)))) (\<lambda>(i, j).
        bind_shared (read_elements area [i..<j]) (\<lambda>elems.
        then_shared (object_set (\<lambda>r. r\<lparr>rbs_bits := elems\<rparr>))
        (then_shared (object_set (\<lambda>r. calc_length (read_bits_byte_count (rbs_request r) + 1) r))
        (bind_shared (object_get (header_packet P)) (\<lambda>packet.
         bind_shared (object_get (\<lambda>r. pack P ''B'' [unat (read_bits_byte_count (rbs_request r))])) (\<lambda>pdu.
         bind_shared (read_elements area [i..<j]) (\<lambda>elems.
         let packet = packet @ pdu @ pack_bits elems in
         then_shared (object_check
             (\<lambda>r. \<not> check_response_packet (read_bits_response_size (rbs_request r)) packet)
             (\<lambda>r. Specification server_device_failure (adu_function r) (adu_header r)))
         (give packet)))))))))"

definition read_registers_program ::
    "platform \<Rightarrow> (table \<Rightarrow> u16 block) \<Rightarrow> (table, read_registers_response, exn, packet_t) shared_act" where
  "read_registers_program P area =
     encode_catch_shared
       (bind_shared (read_shared (\<lambda>r T. block_get_slice (num_regs_validate False) (area T)
                       (rrq_address (rrs_request r)) (rrq_count (rrs_request r)))) (\<lambda>(i, j).
        bind_shared (read_elements area [i..<j]) (\<lambda>elems.
        then_shared (object_set (\<lambda>r. r\<lparr>rrs_registers := elems\<rparr>))
        (then_shared (object_set (\<lambda>r. calc_length (read_registers_byte_count (rrs_request r) + 1) r))
        (bind_shared (object_get (header_packet P)) (\<lambda>packet.
         bind_shared (object_get (\<lambda>r. pack P ''B''
                        [unat (read_registers_byte_count (rrs_request r))])) (\<lambda>pdu.
         bind_shared (read_elements area [i..<j]) (\<lambda>elems.
         let packet = packet @ pdu @ pack_registers P elems in
         then_shared (object_check
             (\<lambda>r. \<not> check_response_packet (read_registers_response_size (rrs_request r)) packet)
             (\<lambda>r. Specification server_device_failure (adu_function r) (adu_header r)))
         (give packet)))))))))"

definition write_single_coil_program ::
    "platform \<Rightarrow> (table, write_single_coil_response, exn, packet_t) shared_act" where
  "write_single_coil_program P =
     encode_catch_shared
       (bind_shared (read_shared (\<lambda>r T. block_get (coils T) (wcq_address (wcs_request r)))) (\<lambda>v.
        then_shared (object_set (\<lambda>r. r\<lparr>wcs_value := if v then bits_on else bits_off\<rparr>))
        (then_shared (object_set (calc_length 4))
        (bind_shared (object_get (header_packet P)) (\<lambda>packet.
         bind_shared (object_get (\<lambda>r. pack P ''HH''
            [unat (meta_get (wcq_address (wcs_request r))),
             unat (bits_underlying (wcs_value r))])) (\<lambda>pdu.
         let packet = packet @ pdu in
         then_shared (object_check
             (\<lambda>r. \<not> check_response_packet
                     (write_single_coil_response_size (wcs_request r)) packet)
             (\<lambda>r. Specification server_device_failure (adu_function r) (adu_header r)))
         (then_shared (write_shared (\<lambda>r T.
            bind_outcome (block_set (coils T) (wcq_address (wcs_request r))
                            (wcq_value (wcs_request r) = bits_on))
              (\<lambda>b. Ok (T\<lparr>coils := b\<rparr>))))
         (give packet))))))))"

definition write_multiple_coils_program ::
    "platform \<Rightarrow> (table, write_multiple_coils_response, exn, packet_t) shared_act" where
  "write_multiple_coils_program P =
     encode_catch_shared
       (then_shared (object_set (calc_length 4))
       (bind_shared (object_get (header_packet P)) (\<lambda>packet.
        bind_shared (object_get (\<lambda>r. pack P ''HH''
           [unat (meta_get (wmcq_address (wmcs_request r))),
            unat (meta_get (wmcq_count (wmcs_request r)))])) (\<lambda>pdu.
        then_shared (set_range coils (\<lambda>b T. T\<lparr>coils := b\<rparr>)
            (\<lambda>r. wmcq_address (wmcs_request r)) (\<lambda>r. wmcq_values (wmcs_request r)))
        (give (packet @ pdu))))))"

definition write_single_register_program ::
    "platform \<Rightarrow> (table, write_single_register_response, exn, packet_t) shared_act" where
  "write_single_register_program P =
     encode_catch_shared
       (then_shared (object_set (calc_length 4))
       (bind_shared (object_get (header_packet P)) (\<lambda>packet.
        bind_shared (object_get (\<lambda>r. pack P ''HH''
           [unat (meta_get (wrq_address (wrs_request r))),
            unat (meta_get (wrq_value (wrs_request r)))])) (\<lambda>pdu.
        let packet = packet @ pdu in
        then_shared (object_check
            (\<lambda>r. \<not> check_response_packet
                    (write_single_register_response_size (wrs_request r)) packet)
            (\<lambda>r. Specification server_device_failure (adu_function r) (adu_header r)))
        (then_shared (write_shared (\<lambda>r T.
           bind_outcome (block_set (holding_registers T) (wrq_address (wrs_request r))
                           (meta_get (wrq_value (wrs_request r))))
             (\<lambda>b. Ok (T\<lparr>holding_registers := b\<rparr>))))
        (then_shared (object_set (\<lambda>r. r\<lparr>wrs_address := wrq_address (wrs_request r),
                                        wrs_value := wrq_value (wrs_request r)\<rparr>))
        (give packet)))))))"

definition write_multiple_registers_program ::
    "platform \<Rightarrow> (table, write_multiple_registers_response, exn, packet_t) shared_act" where
  "write_multiple_registers_program P =
     encode_catch_shared
       (then_shared (object_set (calc_length 4))
       (bind_shared (object_get (header_packet P)) (\<lambda>packet.
        bind_shared (object_get (\<lambda>r. pack P ''HH''
           [unat (meta_get (wmrq_address (wmrs_request r))),
            unat (meta_get (wmrq_count (wmrs_request r)))])) (\<lambda>pdu.
        then_shared (set_range holding_registers (\<lambda>b T. T\<lparr>holding_registers := b\<rparr>)
            (\<lambda>r. wmrq_address (wmrs_request r)) (\<lambda>r. wmrq_values (wmrs_request r)))
        (give (packet @ pdu))))))"

definition mask_write_register_program ::
    "platform \<Rightarrow> (table, mask_write_register_response, exn, packet_t) shared_act" where
  "mask_write_register_program P =
     encode_catch_shared
       (then_shared (object_set (calc_length 6))
       (bind_shared (object_get (header_packet P)) (\<lambda>packet.
        bind_shared (object_get (\<lambda>r. pack P ''HHH''
           [unat (meta_get (mwq_address (mws_request r))),
            unat (meta_get (mwq_and_mask (mws_request r))),
            unat (meta_get (mwq_or_mask (mws_request r)))])) (\<lambda>pdu.
        let packet = packet @ pdu in
        then_shared (object_check
            (\<lambda>r. \<not> check_response_packet
                    (mask_write_register_response_size (mws_request r)) packet)
            (\<lambda>r. Specification server_device_failure (adu_function r) (adu_header r)))
        (bind_shared (read_shared (\<lambda>r T.
           block_get (holding_registers T) (mwq_address (mws_request r)))) (\<lambda>current_value.
        then_shared (write_shared (\<lambda>r T.
           let new_value = or (and current_value (meta_get (mwq_and_mask (mws_request r))))
                              (meta_get (mwq_or_mask (mws_request r)))
           in bind_outcome (block_set (holding_registers T) (mwq_address (mws_request r)) new_value)
                (\<lambda>b. Ok (T\<lparr>holding_registers := b\<rparr>))))
        (then_shared (object_set (\<lambda>r. r\<lparr>mws_address := mwq_address (mws_request r),
                                        mws_and_mask := mwq_and_mask (mws_request r),
                                        mws_or_mask := mwq_or_mask (mws_request r)\<rparr>))
        (give packet))))))))"

definition read_write_multiple_registers_program ::
    "platform \<Rightarrow> (table, read_write_multiple_registers_response, exn, packet_t) shared_act" where
  "read_write_multiple_registers_program P =
     encode_catch_shared
       (then_shared (set_range holding_registers (\<lambda>b T. T\<lparr>holding_registers := b\<rparr>)
            (\<lambda>r. rwq_write_address (rws_request r)) (\<lambda>r. rwq_values (rws_request r)))
       (bind_shared (read_shared (\<lambda>r T. block_get_slice (num_regs_validate False)
           (holding_registers T) (rwq_read_address (rws_request r))
           (rwq_read_count (rws_request r)))) (\<lambda>(i, j).
        bind_shared (read_elements holding_registers [i..<j]) (\<lambda>elems.
        then_shared (object_set (\<lambda>r. r\<lparr>rws_registers := elems\<rparr>))
        (then_shared (object_set (\<lambda>r. calc_length (1 + ucast (rws_count r)) r))
        (bind_shared (object_get (header_packet P)) (\<lambda>packet.
         bind_shared (object_get (\<lambda>r. pack P ''B'' [unat (rws_count r)])) (\<lambda>pdu.
         bind_shared (read_elements holding_registers [i..<j]) (\<lambda>elems.
         let packet = packet @ pdu @ pack_registers P elems in
         then_shared (object_check
             (\<lambda>r. \<not> check_response_packet (read_write_response_size (rws_request r)) packet)
             (\<lambda>r. Specification server_device_failure (adu_function r) (adu_header r)))
         (give packet))))))))))"

section \<open>The handler\<close>

text \<open>\<open>execute\<close> looks at the extent of a block once: one access.\<close>

definition function_program ::
    "('rq, exn, unit) act \<Rightarrow> 'rq \<Rightarrow> ('rq \<Rightarrow> table \<Rightarrow> (exn, 'rs) outcome) \<Rightarrow>
     (table, 'rs, exn, packet_t) shared_act \<Rightarrow> (table, (exn, packet_t) outcome) prog" where
  "function_program dec req exe enc =
     (case dec req of
        (Ok _, rq) \<Rightarrow> Access (\<lambda>T.
          (case exe rq T of
             Ok rs \<Rightarrow> bind_prog (enc rs) (\<lambda>(x, _). Done x)
           | Throw e \<Rightarrow> Done (Throw e)
           | Undefined \<Rightarrow> Done Undefined, T))
      | (Throw e, _) \<Rightarrow> Done (Throw e)
      | (Undefined, _) \<Rightarrow> Done Undefined)"

definition dispatch_program ::
    "platform \<Rightarrow> function_code \<Rightarrow> packet_t \<Rightarrow> (table, (exn, packet_t) outcome) prog" where
  "dispatch_program P function packet =
     (case function of
        read_coils \<Rightarrow>
          function_program (read_bits_decode P read_coils packet) (new_read_bits_request read_coils)
            (read_coils_execute P) (read_bits_program P coils)
      | read_discrete_inputs \<Rightarrow>
          function_program (read_bits_decode P read_discrete_inputs packet)
            (new_read_bits_request read_discrete_inputs)
            (read_discrete_inputs_execute P) (read_bits_program P discrete_inputs)
      | read_holding_registers \<Rightarrow>
          function_program (read_registers_decode P read_holding_registers packet)
            (new_read_registers_request read_holding_registers)
            (read_holding_registers_execute P) (read_registers_program P holding_registers)
      | read_input_registers \<Rightarrow>
          function_program (read_registers_decode P read_input_registers packet)
            (new_read_registers_request read_input_registers)
            (read_input_registers_execute P) (read_registers_program P input_registers)
      | write_single_coil \<Rightarrow>
          function_program (write_single_coil_decode P packet) new_write_single_coil_request
            (write_single_coil_execute P) (write_single_coil_program P)
      | write_single_register \<Rightarrow>
          function_program (write_single_register_decode P packet) new_write_single_register_request
            write_single_register_execute (write_single_register_program P)
      | write_multiple_coils \<Rightarrow>
          function_program (write_multiple_coils_decode P packet) new_write_multiple_coils_request
            write_multiple_coils_execute (write_multiple_coils_program P)
      | write_multiple_registers \<Rightarrow>
          function_program (write_multiple_registers_decode P packet)
            new_write_multiple_registers_request
            write_multiple_registers_execute (write_multiple_registers_program P)
      | mask_write_register \<Rightarrow>
          function_program (mask_write_register_decode P packet) new_mask_write_register_request
            mask_write_register_execute (mask_write_register_program P)
      | read_write_multiple_registers \<Rightarrow>
          function_program (read_write_multiple_registers_decode P packet)
            new_read_write_multiple_registers_request
            read_write_multiple_registers_execute (read_write_multiple_registers_program P)
      | _ \<Rightarrow>
          (case illegal_decode P packet (make_illegal fc_min 0x00 0x00) of
             (Ok _, _) \<Rightarrow> Done (Ok [])
           | (Throw e, _) \<Rightarrow> Done (Throw e)
           | (Undefined, _) \<Rightarrow> Done Undefined))"

text \<open>The catch clauses do not touch the table.\<close>

definition report_outcome :: "platform \<Rightarrow> exn \<Rightarrow> (exn, packet_t) outcome" where
  "report_outcome P e =
     (case e of
        Specification ec f h \<Rightarrow> fst (error_encode P (make_error ec f h))
      | _ \<Rightarrow> Ok [])"

definition handle_program :: "platform \<Rightarrow> packet_t \<Rightarrow> (table, (exn, packet_t) outcome) prog" where
  "handle_program P packet =
     bind_prog
       (if length packet \<le> header_length then Done (Throw (Internal bad_data_size))
        else dispatch_program P (function_code_of_byte (packet ! header_length)) packet)
       (\<lambda>x. case x of Throw e \<Rightarrow> Done (report_outcome P e) | _ \<Rightarrow> Done x)"

section \<open>Run alone\<close>

lemma alone_steps [alone_simps]:
  "alone (object_set f) = on_object f"
  "alone (object_get g) = of_object g"
  "alone (object_check b e) = throw_if (\<lambda>(r, T). b r) (\<lambda>(r, T). e r)"
  "alone (give a) = return_act a"
  "alone (write_shared u) = update_table u"
  by (auto simp: object_set_def object_get_def object_check_def give_def alone_simps act_simps
      alone_write fun_eq_iff split: outcome.split)

lemma alone_query [alone_simps]: "alone (read_shared q) = query_table q"
  by (simp add: alone_read query_table_def)

lemma alone_encode_catch [alone_simps]:
  "alone (encode_catch_shared body) = encode_catch (alone body)"
  by (auto simp: encode_catch_shared_def encode_catch_def alone_simps act_simps fun_eq_iff
      split: prod.split outcome.split)

lemma alone_read_elements:
  "j \<le> length (blk_container (area T)) \<Longrightarrow> i \<le> j \<Longrightarrow>
   alone (read_elements area [i..<j]) (r, T) = (Ok (block_elements (area T) (i, j)), (r, T))"
proof (induction "j - i" arbitrary: i)
  case 0
  then show ?case by (simp add: alone_simps act_simps block_elements_def slice_def)
next
  case (Suc n)
  then have "[i..<j] = i # [Suc i..<j]" "i < length (blk_container (area T))"
    by (auto simp: upt_conv_Cons)
  moreover have "block_elements (area T) (i, j) =
      blk_container (area T) ! i # block_elements (area T) (Suc i, j)"
    using \<open>i < length (blk_container (area T))\<close> Suc.hyps(2)
    by (simp add: block_elements_def slice_def Cons_nth_drop_Suc [symmetric] take_Cons'
        Suc_diff_Suc [symmetric] del: Suc_diff_Suc)
  ultimately show ?case
    using Suc by (simp add: alone_simps act_simps block_element_def container_element_def)
qed

lemma overwrite_Cons:
  "i < length xs \<Longrightarrow> overwrite (Suc i) vs (xs[i := v]) = overwrite i (v # vs) xs"
  by (simp add: overwrite_def take_Suc_conv_app_nth)

text \<open>An area of the table and its update.\<close>

definition area_of_table :: "(table \<Rightarrow> 'a block) \<Rightarrow> ('a block \<Rightarrow> table \<Rightarrow> table) \<Rightarrow> bool" where
  "area_of_table area upd \<longleftrightarrow>
     (\<forall>T b c. area (upd b T) = b \<and> upd c (upd b T) = upd c T \<and> upd (area T) T = T)"

lemma table_areas [simp]:
  "area_of_table coils (\<lambda>b T. T\<lparr>coils := b\<rparr>)"
  "area_of_table holding_registers (\<lambda>b T. T\<lparr>holding_registers := b\<rparr>)"
  by (simp_all add: area_of_table_def)

lemma alone_write_elements:
  assumes "area_of_table area upd" "i + length vs \<le> length (blk_container (area T))"
  shows "alone (write_elements area upd i vs) (r, T) =
    (Ok (), (r, upd ((area T)\<lparr>blk_container := overwrite i vs (blk_container (area T))\<rparr>) T))"
  using assms(2)
proof (induction vs arbitrary: i T)
  case Nil
  then show ?case
    using assms(1) by (simp add: alone_simps act_simps overwrite_def area_of_table_def)
next
  case (Cons v vs)
  then show ?case
    using assms(1)
    by (simp add: alone_simps act_simps block_put_element_def container_element_def
        area_of_table_def overwrite_Cons)
qed

lemma alone_set_range [alone_simps]:
  assumes "area_of_table area upd"
  shows "alone (set_range area upd address buffer) =
    update_table (\<lambda>r T. bind_outcome (block_set_slice (area T) (address r) (buffer r))
      (\<lambda>b. Ok (upd b T)))"
proof (rule ext, clarify)
  fix r T
  show "alone (set_range area upd address buffer) (r, T) = update_table (\<lambda>r T. bind_outcome
      (block_set_slice (area T) (address r) (buffer r)) (\<lambda>b. Ok (upd b T))) (r, T)"
    using alone_write_elements [OF assms]
    by (auto simp: set_range_def alone_simps act_simps block_ref_slice_def block_set_slice_def
        require_def container_range_def split: outcome.split)
qed

lemma range_in_container:
  "block_get_slice v b a c = Ok (i, j) \<Longrightarrow> i \<le> j \<and> j \<le> length (blk_container b)"
  by (auto simp: block_get_slice_def require_def container_range_def split: outcome.splits if_splits)

lemmas program_defs = read_bits_program_def read_registers_program_def write_single_coil_program_def
  write_multiple_coils_program_def write_single_register_program_def
  write_multiple_registers_program_def mask_write_register_program_def
  read_write_multiple_registers_program_def

lemma alone_write_programs:
  "alone (write_single_coil_program P) = write_single_coil_response_encode P"
  "alone (write_multiple_coils_program P) = write_multiple_coils_response_encode P"
  "alone (write_single_register_program P) = write_single_register_response_encode P"
  "alone (write_multiple_registers_program P) = write_multiple_registers_response_encode P"
  "alone (mask_write_register_program P) = mask_write_register_response_encode P"
  by (simp_all add: program_defs alone_simps Let_def
      write_single_coil_response_encode_def write_multiple_coils_response_encode_def
      write_single_register_response_encode_def write_multiple_registers_response_encode_def
      mask_write_register_response_encode_def)

lemma alone_read_bits_program: "alone (read_bits_program P area) = read_bits_response_encode P area"
proof (rule ext, clarify)
  fix r T
  show "alone (read_bits_program P area) (r, T) = read_bits_response_encode P area (r, T)"
    by (cases "block_get_slice (num_bits_validate False) (area T)
          (rbq_address (rbs_request r)) (rbq_count (rbs_request r))")
      (auto simp: read_bits_program_def read_bits_response_encode_def encode_catch_def Let_def
        alone_simps act_simps alone_read_elements dest: range_in_container)
qed

lemma alone_read_registers_program:
  "alone (read_registers_program P area) = read_registers_response_encode P area"
proof (rule ext, clarify)
  fix r T
  show "alone (read_registers_program P area) (r, T) = read_registers_response_encode P area (r, T)"
    by (cases "block_get_slice (num_regs_validate False) (area T)
          (rrq_address (rrs_request r)) (rrq_count (rrs_request r))")
      (auto simp: read_registers_program_def read_registers_response_encode_def encode_catch_def
        Let_def alone_simps act_simps alone_read_elements dest: range_in_container)
qed

lemma alone_read_write_program:
  "alone (read_write_multiple_registers_program P) = read_write_multiple_registers_response_encode P"
proof (rule ext, clarify)
  fix r :: read_write_multiple_registers_response and T :: table
  let ?s = "block_set_slice (holding_registers T) (rwq_write_address (rws_request r))
    (rwq_values (rws_request r))"
  let ?g = "\<lambda>b. block_get_slice (num_regs_validate False) b (rwq_read_address (rws_request r))
    (rwq_read_count (rws_request r))"
  note unfolds = read_write_multiple_registers_program_def
    read_write_multiple_registers_response_encode_def encode_catch_def Let_def alone_simps act_simps
  show "alone (read_write_multiple_registers_program P) (r, T) =
      read_write_multiple_registers_response_encode P (r, T)"
  proof (cases ?s)
    case (Ok b)
    then show ?thesis
      by (cases "?g b") (auto simp: unfolds alone_read_elements dest: range_in_container)
  qed (simp_all add: unfolds)
qed

lemmas alone_programs = alone_write_programs alone_read_bits_program alone_read_registers_program
  alone_read_write_program

lemma run_function_program:
  "run_prog (function_program dec req exe enc) T = run_function dec req exe (alone enc) T"
  by (auto simp: function_program_def run_function_def alone_def split: prod.split outcome.split)

lemma run_dispatch_program: "run_prog (dispatch_program P f p) T = dispatch P f p T"
  by (cases f)
    (simp_all add: dispatch_program_def dispatch_def run_function_program alone_programs
      serve_read_bits_def serve_read_registers_def serve_write_single_coil_def
      serve_write_single_register_def serve_write_multiple_coils_def
      serve_write_multiple_registers_def serve_mask_write_register_def
      serve_read_write_multiple_registers_def serve_illegal_def read_coils_execute_def
      read_discrete_inputs_execute_def read_holding_registers_execute_def
      read_input_registers_execute_def split: prod.split outcome.split)

lemma report_outcome_eq: "report P e T = (report_outcome P e, T)"
  by (simp add: report_def report_outcome_def act_simps split: exn.split)

theorem run_handle_program: "run_prog (handle_program P p) T = handle P p T"
  by (auto simp: handle_program_def handle_eq header_length_def run_dispatch_program finish_def
      report_outcome_eq report_outcome_def split: prod.split outcome.split)

end
