(* ===== verification/Modbus_Concurrent_Safety.thy ===== *)
theory Modbus_Concurrent_Safety
  imports Modbus_Request_Programs
begin

text \<open>
  What can be relied on when any number of requests run interleaved: every access keeps the
  table as it must be, and every request ends in the way it would end alone, with a normal
  reply of the same length, the same exception, or the same over-read. Only the values in a
  normal reply depend on the interleaving.
\<close>

section \<open>Tables of the same extent\<close>

definition same_extent :: "'a block \<Rightarrow> 'a block \<Rightarrow> bool" where
  "same_extent b c \<longleftrightarrow> blk_start b = blk_start c \<and> blk_capacity b = blk_capacity c"

definition table_like :: "table \<Rightarrow> table \<Rightarrow> bool" where
  "table_like T0 T \<longleftrightarrow> table_inv T \<and> same_extent (coils T) (coils T0) \<and>
     same_extent (holding_registers T) (holding_registers T0) \<and>
     same_extent (discrete_inputs T) (discrete_inputs T0) \<and>
     same_extent (input_registers T) (input_registers T0)"

lemma table_like_refl: "table_inv T \<Longrightarrow> table_like T T"
  by (simp add: table_like_def same_extent_def)

lemma same_extent_store [simp]: "same_extent (store b a vs) c = same_extent b c"
  by (simp add: same_extent_def)

lemma same_extentD:
  "same_extent b c \<Longrightarrow> in_block b a n = in_block c a n"
  "same_extent b c \<Longrightarrow> offset b a = offset c a"
  "same_extent b c \<Longrightarrow> block_cells b k = None \<longleftrightarrow> block_cells c k = None"
  by (auto simp: same_extent_def in_block_def offset_def block_cells_def)

lemma table_likeD:
  assumes "table_like T0 T"
  shows "table_inv T" "in_block (coils T) a n = in_block (coils T0) a n"
    "in_block (holding_registers T) a n = in_block (holding_registers T0) a n"
    "in_block (discrete_inputs T) a n = in_block (discrete_inputs T0) a n"
    "in_block (input_registers T) a n = in_block (input_registers T0) a n"
    "offset (coils T) a = offset (coils T0) a"
    "offset (holding_registers T) a = offset (holding_registers T0) a"
    "offset (discrete_inputs T) a = offset (discrete_inputs T0) a"
    "offset (input_registers T) a = offset (input_registers T0) a"
  using assms by (auto simp: table_like_def same_extentD)

lemma table_like_store:
  "table_like T0 T \<Longrightarrow> in_block (coils T0) a (length bs) \<Longrightarrow>
     table_like T0 (T\<lparr>coils := store (coils T) a bs\<rparr>)"
  "table_like T0 T \<Longrightarrow> in_block (holding_registers T0) a (length vs) \<Longrightarrow>
     table_like T0 (T\<lparr>holding_registers := store (holding_registers T) a vs\<rparr>)"
  by (auto simp: table_like_def same_extentD)

section \<open>How a request ends\<close>

text \<open>The shape of a verdict: the length of the reply, or the failure, or an over-read.\<close>

definition verdict_shape :: "verdict \<Rightarrow> (nat + exception_code) option" where
  "verdict_shape v =
     (case v of Reply body _ \<Rightarrow> Some (Inl (length body)) | Fail ec \<Rightarrow> Some (Inr ec) | Overread \<Rightarrow> None)"

lemma verdict_shape_simps [simp]:
  "verdict_shape (Reply body im) = Some (Inl (length body))"
  "verdict_shape (Fail ec) = Some (Inr ec)" "verdict_shape Overread = None"
  by (simp_all add: verdict_shape_def)

definition same_addresses :: "image \<Rightarrow> image \<Rightarrow> bool" where
  "same_addresses im im' \<longleftrightarrow>
     (\<forall>k. (im_coils im k = None \<longleftrightarrow> im_coils im' k = None) \<and>
          (im_discrete_inputs im k = None \<longleftrightarrow> im_discrete_inputs im' k = None) \<and>
          (im_holding_registers im k = None \<longleftrightarrow> im_holding_registers im' k = None) \<and>
          (im_input_registers im k = None \<longleftrightarrow> im_input_registers im' k = None))"

lemma table_like_addresses: "table_like T0 T \<Longrightarrow> same_addresses (table_image T) (table_image T0)"
  by (auto simp: table_like_def same_addresses_def table_image_def same_extentD simp del: not_None_eq)

text \<open>The shape depends on the addresses of the areas only.\<close>

lemma shape_of_addresses:
  assumes "same_addresses im im'"
  shows "verdict_shape (spec_request p im) = verdict_shape (spec_request p im')"
proof -
  have c: "all_cells (im_coils im) = all_cells (im_coils im')"
    "all_cells (im_discrete_inputs im) = all_cells (im_discrete_inputs im')"
    "all_cells (im_holding_registers im) = all_cells (im_holding_registers im')"
    "all_cells (im_input_registers im) = all_cells (im_input_registers im')"
    using assms by (simp_all add: same_addresses_def all_cells_def fun_eq_iff del: not_None_eq)
  have n: "im_coils im k = None \<longleftrightarrow> im_coils im' k = None"
    "im_holding_registers im k = None \<longleftrightarrow> im_holding_registers im' k = None" for k
    using assms by (simp_all add: same_addresses_def)
  have b: "verdict_shape (spec_read_bits area p im) = verdict_shape (spec_read_bits area p im')"
    if "all_cells (area im) = all_cells (area im')" for area
    using that by (simp add: spec_read_bits_def Let_def)
  have r: "verdict_shape (spec_read_registers area p im) = verdict_shape (spec_read_registers area p im')"
    if "all_cells (area im) = all_cells (area im')" for area
    using that by (simp add: spec_read_registers_def Let_def)
  have "verdict_shape (spec_write_single_coil p im) = verdict_shape (spec_write_single_coil p im')"
    using n(1) [of "unat (packet_u16 p 8)"]
    by (cases "im_coils im (unat (packet_u16 p 8))"; cases "im_coils im' (unat (packet_u16 p 8))")
      (simp_all add: spec_write_single_coil_def Let_def)
  moreover have "verdict_shape (spec_mask_write_register p im) =
      verdict_shape (spec_mask_write_register p im')"
    using n(2) [of "unat (packet_u16 p 8)"]
    by (cases "im_holding_registers im (unat (packet_u16 p 8))";
        cases "im_holding_registers im' (unat (packet_u16 p 8))")
      (simp_all add: spec_mask_write_register_def Let_def)
  moreover have "verdict_shape (spec_write_single_register p im) =
      verdict_shape (spec_write_single_register p im')"
    using n(2) [of "unat (packet_u16 p 8)"]
    by (simp add: spec_write_single_register_def Let_def del: not_None_eq)
  moreover have
    "verdict_shape (spec_write_multiple_coils p im) = verdict_shape (spec_write_multiple_coils p im')"
    "verdict_shape (spec_write_multiple_registers p im) =
       verdict_shape (spec_write_multiple_registers p im')"
    "verdict_shape (spec_read_write_multiple_registers p im) =
       verdict_shape (spec_read_write_multiple_registers p im')"
    by (simp_all add: spec_write_multiple_coils_def spec_write_multiple_registers_def
        spec_read_write_multiple_registers_def c Let_def)
  ultimately show ?thesis by (simp add: spec_request_def Let_def b r c)
qed

text \<open>What a branch ends with, before the catch clauses of the handler.\<close>

definition branch_ends ::
    "packet_t \<Rightarrow> function_code \<Rightarrow> (nat + exception_code) option \<Rightarrow> (exn, packet_t) outcome \<Rightarrow> bool" where
  "branch_ends p f shape x \<longleftrightarrow>
     (case shape of
        Some (Inl n) \<Rightarrow> \<exists>body. length body = n \<and>
          x = Ok (adu_packet (packet_u16 p 0) (p ! 6) (function_underlying f) body)
      | Some (Inr ec) \<Rightarrow> \<exists>h. x = Throw (Specification ec f h) \<and>
          hd_transaction h = packet_u16 p 0 \<and> hd_unit h = p ! 6
      | None \<Rightarrow> x = Undefined)"

lemma implements_ends:
  "implements res p f T v \<Longrightarrow> branch_ends p f (verdict_shape v) (fst res)"
  by (cases v) (auto simp: implements_def branch_ends_def)

lemma adu_packet_inject:
  assumes "adu_packet t u f b = adu_packet t' u' f' b'"
  shows "t = t' \<and> u = u' \<and> f = f' \<and> b = b'"
proof -
  have "drop 8 (adu_packet t u f b) = b" for t u f b by (simp add: adu_packet_def Let_def)
  then show ?thesis using assms by (metis adu_packet_fields(1,4,5))
qed

text \<open>The packet that an encoder makes of its object, up to a body of a known length.\<close>

definition packet_of :: "'a adu_scheme \<Rightarrow> nat \<Rightarrow> (exn, packet_t) outcome \<times> 'b \<Rightarrow> bool" where
  "packet_of r n = (\<lambda>(x, _). \<exists>body. length body = n \<and>
     x = Ok (adu_packet (adu_transaction r) (adu_unit r) (adu_function_code r) body))"

text \<open>
  A branch whose encoder always makes such a packet ends the way it ends alone on any of the
  tables it can meet.
\<close>

lemma function_program_guarantees:
  assumes T0: "table_inv T0"
    and ends: "\<And>T. table_like T0 T \<Longrightarrow>
      branch_ends p f shape (fst (run_prog (function_program dec req exe enc) T))"
    and encodes: "\<And>rq rs T. dec req = (Ok (), rq) \<Longrightarrow> table_like T0 T \<Longrightarrow> exe rq T = Ok rs \<Longrightarrow>
      \<exists>n. guarantees (table_like T0) (packet_of rs n) (enc rs)"
  shows "guarantees (table_like T0) (branch_ends p f shape) (function_program dec req exe enc)"
proof (cases "dec req")
  case (Pair x rq)
  show ?thesis
  proof (cases x)
    case (Ok u)
    have "guarantees (table_like T0) (branch_ends p f shape)
        (case exe rq T of Ok rs \<Rightarrow> bind_prog (enc rs) (\<lambda>(x, _). Done x)
         | Throw e \<Rightarrow> Done (Throw e) | Undefined \<Rightarrow> Done Undefined)" if T: "table_like T0 T" for T
    proof (cases "exe rq T")
      case ok: (Ok rs)
      obtain n where n: "guarantees (table_like T0) (packet_of rs n) (enc rs)"
        using encodes [OF _ T ok] Pair Ok by auto
      have "fst (run_prog (function_program dec req exe enc) T) = fst (fst (run_prog (enc rs) T))"
        using Pair Ok ok by (simp add: function_program_def split: prod.split)
      moreover have "packet_of rs n (fst (run_prog (enc rs) T))"
        using guarantees_run [OF n T] by simp
      ultimately obtain body where body: "length body = n"
        "branch_ends p f shape (Ok (adu_packet (adu_transaction rs) (adu_unit rs) (adu_function_code rs) body))"
        using ends [OF T] by (auto simp: packet_of_def split_beta)
      then have "branch_ends p f shape
          (Ok (adu_packet (adu_transaction rs) (adu_unit rs) (adu_function_code rs) body'))"
        if "length body' = n" for body'
        using that adu_packet_inject
        by (fastforce simp: branch_ends_def split: option.splits sum.splits)
      then show ?thesis
        using ok by (auto intro!: guarantees_bind [OF n] simp: packet_of_def)
    qed (use ends [OF T] Pair Ok in \<open>simp_all add: function_program_def\<close>)
    then show ?thesis
      using Pair Ok by (simp add: function_program_def guarantees_Access_iff)
  qed (use ends [OF table_like_refl [OF T0]] Pair in \<open>simp_all add: function_program_def\<close>)
qed

section \<open>The encoders\<close>

lemma bind_object [prog_simps]:
  "bind_shared (object_set f) k r = k () (f r)"
  "bind_shared (object_get g) k' r = k' (g r) r"
  "bind_shared (object_check b e) k r = (if b r then Done (Throw (e r), r) else k () r)"
  "give a r = Done (Ok a, r)"
  by (simp_all add: object_set_def object_get_def object_check_def give_def prog_simps act_simps)
    (simp add: local_act_def return_act_def)

lemma guarantees_encode_catch:
  "guarantees I (\<lambda>(x, r'). (\<exists>a. x = Ok a) \<and> Q (x, r')) (body r) \<Longrightarrow>
   guarantees I Q (encode_catch_shared body r)"
  by (auto simp: encode_catch_shared_def try_shared_def intro: guarantees_bind)

lemma guarantees_read_elements:
  assumes "\<And>i T. i \<in> set is \<Longrightarrow> I T \<Longrightarrow> i < length (blk_container (area T))"
  shows "guarantees I (\<lambda>(x, r'). r' = r \<and> (\<exists>vs. x = Ok vs \<and> length vs = length is))
    (read_elements area is r)"
  using assms
proof (induction "is")
  case (Cons i "is")
  have "guarantees I (\<lambda>(x, r'). r' = r \<and> (\<exists>vs. x = Ok vs \<and> length vs = length (i # is)))
      (bind_shared (read_elements area is) (\<lambda>vs. give (v # vs)) r)" for v
    unfolding bind_shared_def
    by (rule guarantees_bind [OF Cons.IH]) (use Cons.prems in \<open>auto simp: prog_simps\<close>)
  then show ?case
    using Cons.prems
    by (simp add: prog_simps guarantees_Access_iff block_element_def container_element_def)
qed (simp add: prog_simps)

lemma guarantees_bind_elements:
  assumes "\<And>i T. i \<in> set is \<Longrightarrow> I T \<Longrightarrow> i < length (blk_container (area T))"
    and "\<And>vs. length vs = length is \<Longrightarrow> guarantees I Q (f vs r)"
  shows "guarantees I Q (bind_shared (read_elements area is) f r)"
  unfolding bind_shared_def
  by (rule guarantees_bind [OF guarantees_read_elements]) (use assms in auto)

lemma packet_of_packet [simp]:
  "packet_of r n (Ok (adu_packet (adu_transaction r) (adu_unit r) (adu_function_code r) body), r') \<longleftrightarrow>
     length body = n"
  using adu_packet_inject by (fastforce simp: packet_of_def)

lemma header_bytes_wcs_value [simp]:
  "header_bytes (calc_length n (rs\<lparr>wcs_value := v\<rparr>)) = header_bytes (calc_length n rs)"
  by (simp add: header_bytes_def)

lemmas guarantees_simps = prog_simps guarantees_Access_iff block_get_eq block_set_eq
  block_set_slice_eq table_likeD table_like_store check_response_packet_def Let_def
  header_bytes_four header_bytes_six

lemma write_single_register_guarantees:
  fixes rs :: write_single_register_response
  assumes P: "platform_ok P"
    and i: "in_block (holding_registers T0) (wrq_address (wrs_request rs)) 1"
  shows "guarantees (table_like T0) (packet_of rs 4) (write_single_register_program P rs)"
  unfolding write_single_register_program_def
  using i by (intro guarantees_encode_catch)
    (auto simp: guarantees_simps header_packet_eq [OF P] pack_u16s [OF P]
      write_single_register_response_size_def)

lemma mask_write_register_guarantees:
  fixes rs :: mask_write_register_response
  assumes P: "platform_ok P"
    and i: "in_block (holding_registers T0) (mwq_address (mws_request rs)) 1"
  shows "guarantees (table_like T0) (packet_of rs 6) (mask_write_register_program P rs)"
  unfolding mask_write_register_program_def
  using i by (intro guarantees_encode_catch)
    (auto simp: guarantees_simps header_packet_eq [OF P] pack_u16s [OF P]
      mask_write_register_response_size_def)

lemma write_single_coil_guarantees:
  fixes rs :: write_single_coil_response
  assumes P: "platform_ok P" and i: "in_block (coils T0) (wcq_address (wcs_request rs)) 1"
  shows "guarantees (table_like T0) (packet_of rs 4) (write_single_coil_program P rs)"
  unfolding write_single_coil_program_def
  using i by (intro guarantees_encode_catch)
    (auto simp: guarantees_simps header_packet_eq [OF P] pack_u16s [OF P]
      write_single_coil_response_size_def)

text \<open>The iterators of a read stay inside the container, whatever is written in between.\<close>

lemma offset_inside:
  "block_inv b \<Longrightarrow> in_block b a n \<Longrightarrow> i \<in> set [offset b a..<offset b a + n] \<Longrightarrow>
   i < length (blk_container b)"
  using offset_in_container [of b a n] by auto

text \<open>An area of the table whose extent does not change.\<close>

definition steady :: "table \<Rightarrow> (table \<Rightarrow> 'a block) \<Rightarrow> bool" where
  "steady T0 area \<longleftrightarrow>
     (\<forall>T. table_like T0 T \<longrightarrow> block_inv (area T) \<and> same_extent (area T) (area T0))"

lemma steady_areas [simp]:
  "steady T0 coils" "steady T0 discrete_inputs" "steady T0 holding_registers"
  "steady T0 input_registers"
  using table_likeD(1) table_invD
  by (auto simp: steady_def) (auto simp: table_like_def same_extent_def)

lemma steadyD:
  assumes "steady T0 area" "table_like T0 T"
  shows "block_inv (area T)" "in_block (area T) a n = in_block (area T0) a n"
    "offset (area T) a = offset (area T0) a"
  using assms by (auto simp: steady_def same_extentD)

lemma guarantees_elements:
  assumes "steady T0 area" "in_block (area T0) a n"
    and "\<And>vs. length vs = n \<Longrightarrow> guarantees (table_like T0) Q (f vs r)"
  shows "guarantees (table_like T0) Q
    (bind_shared (read_elements area [offset (area T0) a..<offset (area T0) a + n]) f r)"
proof (rule guarantees_bind_elements)
  fix i T assume "i \<in> set [offset (area T0) a..<offset (area T0) a + n]" "table_like T0 T"
  then show "i < length (blk_container (area T))"
    using assms(2) steadyD [OF assms(1) \<open>table_like T0 T\<close>] offset_inside [of "area T" a n i] by simp
qed (simp add: assms(3))

text \<open>An area whose elements can be written: the table stays as it must be.\<close>

definition writable :: "table \<Rightarrow> (table \<Rightarrow> 'a block) \<Rightarrow> ('a block \<Rightarrow> table \<Rightarrow> table) \<Rightarrow> bool" where
  "writable T0 area upd \<longleftrightarrow> steady T0 area \<and>
     (\<forall>T i v. table_like T0 T \<longrightarrow>
        table_like T0 (upd ((area T)\<lparr>blk_container := (blk_container (area T))[i := v]\<rparr>) T))"

lemma writable_areas [simp]:
  "writable T0 coils (\<lambda>b T. T\<lparr>coils := b\<rparr>)"
  "writable T0 holding_registers (\<lambda>b T. T\<lparr>holding_registers := b\<rparr>)"
  by (auto simp: writable_def)
    (auto simp: table_like_def same_extent_def table_inv_def block_inv_def)

lemma guarantees_write_elements:
  assumes "writable T0 area upd" "\<And>T. table_like T0 T \<Longrightarrow> i + length vs \<le> length (blk_container (area T))"
  shows "guarantees (table_like T0) (\<lambda>(x, r'). r' = r \<and> x = Ok ()) (write_elements area upd i vs r)"
  using assms(2)
proof (induction vs arbitrary: i)
  case (Cons v vs)
  have "guarantees (table_like T0) (\<lambda>(x, r'). r' = r \<and> x = Ok ()) (write_elements area upd (Suc i) vs r)"
    using Cons by simp
  moreover have "i < length (blk_container (area T))" if "table_like T0 T" for T
    using Cons.prems [OF that] by simp
  ultimately show ?case
    using assms(1)
    by (auto simp: prog_simps guarantees_Access_iff block_put_element_def container_element_def
        writable_def)
qed (simp add: prog_simps)

lemma guarantees_set_range:
  assumes "writable T0 area upd" "buffer r \<noteq> []"
    and "in_block (area T0) (address r) (length (buffer r))" "guarantees (table_like T0) Q (f () r)"
  shows "guarantees (table_like T0) Q (bind_shared (set_range area upd address buffer) f r)"
proof -
  have s: "steady T0 area" using assms(1) by (simp add: writable_def)
  have ref: "block_ref_slice (area T) (address r) (length (buffer r)) =
      Ok (offset (area T0) (address r), offset (area T0) (address r) + length (buffer r))"
    if "table_like T0 T" for T
    using steadyD [OF s that] assms(2,3) by (simp add: block_ref_slice_eq)
  have "offset (area T0) (address r) + length (buffer r) \<le> length (blk_container (area T))"
    if "table_like T0 T" for T
    using steadyD [OF s that] assms(3) offset_in_container [of "area T" "address r"] by simp
  from guarantees_write_elements [OF assms(1) this]
  have "guarantees (table_like T0) (\<lambda>(x, r'). r' = r \<and> x = Ok ())
      (write_elements area upd (offset (area T0) (address r)) (buffer r) r)" .
  then have "guarantees (table_like T0) Q
      (bind_shared (write_elements area upd (offset (area T0) (address r)) (buffer r)) f r)"
    unfolding bind_shared_def
    by (rule guarantees_bind) (use assms(4) in auto)
  then show ?thesis
    by (simp add: set_range_def bind_shared_assoc bind_object guarantees_Access_iff
        bind_shared_read ref)
qed

lemma write_multiple_coils_guarantees:
  fixes rs :: write_multiple_coils_response
  defines "rq \<equiv> wmcs_request rs"
  assumes P: "platform_ok P" and "wmcq_values rq \<noteq> []"
    and i: "in_block (coils T0) (wmcq_address rq) (length (wmcq_values rq))"
  shows "guarantees (table_like T0) (packet_of rs 4) (write_multiple_coils_program P rs)"
  unfolding write_multiple_coils_program_def
  by (intro guarantees_encode_catch)
    (use assms in \<open>simp add: guarantees_simps header_packet_eq [OF P] pack_u16s [OF P]
      guarantees_set_range\<close>)

lemma write_multiple_registers_guarantees:
  fixes rs :: write_multiple_registers_response
  defines "rq \<equiv> wmrs_request rs"
  assumes P: "platform_ok P" and "wmrq_values rq \<noteq> []"
    and i: "in_block (holding_registers T0) (wmrq_address rq) (length (wmrq_values rq))"
  shows "guarantees (table_like T0) (packet_of rs 4) (write_multiple_registers_program P rs)"
  unfolding write_multiple_registers_program_def
  by (intro guarantees_encode_catch)
    (use assms in \<open>simp add: guarantees_simps header_packet_eq [OF P] pack_u16s [OF P]
      guarantees_set_range\<close>)

lemma read_registers_reply:
  fixes rs :: read_registers_response
  defines "rq \<equiv> rrs_request rs"
  defines "n \<equiv> unat (meta_get (rrq_count rq))"
  assumes P: "platform_ok P" and v: "num_regs_validate False (meta_get (rrq_count rq))"
  shows "pack P ''B'' [unat (read_registers_byte_count rq)] = [word_of_nat (2 * n)]"
    and "read_registers_response_size rq = 9 + 2 * n"
    and "length E = n \<Longrightarrow> header_bytes (calc_length (read_registers_byte_count rq + 1) rs) @
      word_of_nat (2 * n) # registers_bytes E =
      adu_packet (adu_transaction rs) (adu_unit rs) (adu_function_code rs)
        (word_of_nat (2 * n) # registers_bytes E)"
    and "header_bytes (calc_length k (rs\<lparr>rrs_registers := E'\<rparr>)) = header_bytes (calc_length k rs)"
proof -
  have n: "n \<le> 125" using v by (simp_all add: num_regs_validate_unat n_def)
  have bc: "unat (read_registers_byte_count rq) = 2 * n"
    by (simp add: unat_read_registers_byte_count [OF v] n_def)
  show "pack P ''B'' [unat (read_registers_byte_count rq)] = [word_of_nat (2 * n)]"
    using P bc n by (simp add: pack_eq field_bytes_def)
  show "read_registers_response_size rq = 9 + 2 * n"
    using read_registers_response_size_eq [OF v] by (simp add: n_def)
  have "read_registers_byte_count rq + 1 = word_of_nat (2 * n + 1)"
    using n by (intro word_eq_of_unat) (simp add: bc unat_add_u16)
  then show "length E = n \<Longrightarrow> header_bytes (calc_length (read_registers_byte_count rq + 1) rs) @
      word_of_nat (2 * n) # registers_bytes E =
      adu_packet (adu_transaction rs) (adu_unit rs) (adu_function_code rs)
        (word_of_nat (2 * n) # registers_bytes E)"
    by (intro header_bytes_adu_packet) simp
  show "header_bytes (calc_length k (rs\<lparr>rrs_registers := E'\<rparr>)) = header_bytes (calc_length k rs)"
    by (simp add: header_bytes_def)
qed

lemma read_registers_guarantees:
  fixes rs :: read_registers_response
  defines "rq \<equiv> rrs_request rs"
  defines "n \<equiv> unat (meta_get (rrq_count rq))"
  assumes P: "platform_ok P" and area: "steady T0 area"
    and v: "num_regs_validate False (meta_get (rrq_count rq))"
    and i: "in_block (area T0) (rrq_address rq) n"
  shows "guarantees (table_like T0) (packet_of rs (2 * n + 1)) (read_registers_program P area rs)"
proof -
  note facts = read_registers_reply [OF P v [unfolded rq_def], folded rq_def, folded n_def]
  have g: "block_get_slice (num_regs_validate False) (area T) (rrq_address rq) (rrq_count rq) =
      Ok (offset (area T0) (rrq_address rq), offset (area T0) (rrq_address rq) + n)"
    if "table_like T0 T" for T
    using steadyD [OF area that] i v by (simp add: block_get_slice_eq [OF _ num_regs_positive] n_def)
  show ?thesis
    unfolding read_registers_program_def
    by (rule guarantees_encode_catch)
      (simp add: prog_simps guarantees_Access_iff g rq_def [symmetric];
       intro allI impI guarantees_elements area i;
       simp add: prog_simps rq_def [symmetric] header_packet_eq [OF P] pack_registers_eq [OF P]
         facts check_response_packet_def Let_def del: of_nat_mult;
       intro guarantees_elements area i;
       simp add: facts prog_simps rq_def [symmetric] check_response_packet_def del: of_nat_mult)
qed

lemma read_bits_reply:
  fixes rs :: read_bits_response
  defines "rq \<equiv> rbs_request rs"
  defines "n \<equiv> unat (meta_get (rbq_count rq))"
  assumes P: "platform_ok P" and v: "num_bits_validate False (meta_get (rbq_count rq))"
  shows "pack P ''B'' [unat (read_bits_byte_count rq)] = [word_of_nat ((n + 7) div 8)]"
    and "read_bits_response_size rq = 9 + (n + 7) div 8"
    and "length E = n \<Longrightarrow> header_bytes (calc_length (read_bits_byte_count rq + 1) rs) @
      word_of_nat ((n + 7) div 8) # pack_bits E =
      adu_packet (adu_transaction rs) (adu_unit rs) (adu_function_code rs)
        (word_of_nat ((n + 7) div 8) # pack_bits E)"
    and "header_bytes (calc_length k (rs\<lparr>rbs_bits := E'\<rparr>)) = header_bytes (calc_length k rs)"
proof -
  let ?m = "(n + 7) div 8"
  have n: "n \<le> 2000" using v by (simp_all add: num_bits_validate_unat n_def)
  have bc: "unat (read_bits_byte_count rq) = ?m" by (simp add: unat_read_bits_byte_count n_def)
  have m: "?m < 256" using n by simp
  then show "pack P ''B'' [unat (read_bits_byte_count rq)] = [word_of_nat ?m]"
    using P bc by (simp add: pack_eq field_bytes_def)
  show "read_bits_response_size rq = 9 + ?m"
    using read_bits_response_size_eq [OF v] by (simp add: n_def)
  have "read_bits_byte_count rq + 1 = word_of_nat (?m + 1)"
    using m by (intro word_eq_of_unat) (simp add: bc unat_add_u16)
  then show "length E = n \<Longrightarrow> header_bytes (calc_length (read_bits_byte_count rq + 1) rs) @
      word_of_nat ?m # pack_bits E =
      adu_packet (adu_transaction rs) (adu_unit rs) (adu_function_code rs)
        (word_of_nat ?m # pack_bits E)"
    by (intro header_bytes_adu_packet) (simp add: length_pack_bits)
  show "header_bytes (calc_length k (rs\<lparr>rbs_bits := E'\<rparr>)) = header_bytes (calc_length k rs)"
    by (simp add: header_bytes_def calc_length_def)
qed

lemma read_bits_guarantees:
  fixes rs :: read_bits_response
  defines "rq \<equiv> rbs_request rs"
  defines "n \<equiv> unat (meta_get (rbq_count rq))"
  assumes P: "platform_ok P" and area: "steady T0 area"
    and v: "num_bits_validate False (meta_get (rbq_count rq))"
    and i: "in_block (area T0) (rbq_address rq) n"
  shows "guarantees (table_like T0) (packet_of rs ((n + 7) div 8 + 1)) (read_bits_program P area rs)"
proof -
  note facts = read_bits_reply [OF P v [unfolded rq_def], folded rq_def, folded n_def]
  have g: "block_get_slice (num_bits_validate False) (area T) (rbq_address rq) (rbq_count rq) =
      Ok (offset (area T0) (rbq_address rq), offset (area T0) (rbq_address rq) + n)"
    if "table_like T0 T" for T
    using steadyD [OF area that] i v by (simp add: block_get_slice_eq [OF _ num_bits_positive] n_def)
  show ?thesis
    unfolding read_bits_program_def
    by (rule guarantees_encode_catch)
      (simp add: prog_simps guarantees_Access_iff g rq_def [symmetric];
       intro allI impI guarantees_elements area i;
       simp add: prog_simps rq_def [symmetric] header_packet_eq [OF P] facts Let_def;
       intro guarantees_elements area i;
       simp add: facts prog_simps rq_def [symmetric] check_response_packet_def length_pack_bits)
qed

lemma read_write_guarantees:
  fixes rs :: read_write_multiple_registers_response
  defines "rq \<equiv> rws_request rs"
  defines "n \<equiv> unat (meta_get (rwq_read_count rq))"
  assumes P: "platform_ok P" and "rwq_values rq \<noteq> []"
    and w: "in_block (holding_registers T0) (rwq_write_address rq) (length (rwq_values rq))"
    and v: "num_regs_validate False (meta_get (rwq_read_count rq))"
    and i: "in_block (holding_registers T0) (rwq_read_address rq) n"
    and c: "rws_count rs = registers_byte_count (rwq_read_count rq)"
  shows "guarantees (table_like T0) (packet_of rs (2 * n + 1))
    (read_write_multiple_registers_program P rs)"
proof -
  have n: "n \<le> 125" using v by (simp_all add: num_regs_validate_unat n_def)
  have bc: "unat (rws_count rs) = 2 * n"
    using read_write_response_size_eq(1) [OF v] by (simp add: n_def c)
  have p: "pack P ''B'' [2 * n] = [word_of_nat (2 * n)]"
    using P n by (simp add: pack_eq field_bytes_def)
  have sz: "read_write_response_size rq = 9 + 2 * n"
    using read_write_response_size_eq(2) [OF v] by (simp add: n_def)
  have g: "block_get_slice (num_regs_validate False) (holding_registers T) (rwq_read_address rq)
        (rwq_read_count rq) =
      Ok (offset (holding_registers T0) (rwq_read_address rq),
          offset (holding_registers T0) (rwq_read_address rq) + n)"
    if "table_like T0 T" for T
    using table_likeD [OF that] i v by (simp add: block_get_slice_eq [OF _ num_regs_positive] n_def)
  have hb: "header_bytes (calc_length k (rs\<lparr>rws_registers := E\<rparr>)) = header_bytes (calc_length k rs)"
    for k E by (simp add: header_bytes_def)
  have "1 + ucast (rws_count rs) = (word_of_nat (2 * n + 1) :: u16)"
    using n by (intro word_eq_of_unat) (simp add: bc unat_add_u16)
  then have reply: "header_bytes (calc_length (1 + ucast (rws_count rs)) rs) @
      word_of_nat (2 * n) # registers_bytes E =
      adu_packet (adu_transaction rs) (adu_unit rs) (adu_function_code rs)
        (word_of_nat (2 * n) # registers_bytes E)" if "length E = n" for E
    using that by (intro header_bytes_adu_packet) simp
  show ?thesis
    unfolding read_write_multiple_registers_program_def
    by (rule guarantees_encode_catch)
      (simp only: then_shared_def; intro guarantees_set_range writable_areas;
       (use assms(4) w in \<open>simp add: rq_def; fail\<close>)?;
       simp add: prog_simps guarantees_Access_iff g rq_def [symmetric];
       intro allI impI guarantees_elements steady_areas i;
       simp add: prog_simps rq_def [symmetric] header_packet_eq [OF P] pack_registers_eq [OF P] p bc
         hb sz reply Let_def del: of_nat_mult;
       intro guarantees_elements steady_areas i;
       simp add: reply prog_simps rq_def [symmetric] sz check_response_packet_def del: of_nat_mult)
qed

end
