(* ===== verification/Modbus_Concurrent_Requests.thy ===== *)
theory Modbus_Concurrent_Requests
  imports Modbus_Concurrent_Safety
begin

text \<open>
  The ten branches and the handler as a whole, run concurrently: what they guarantee
  (\<open>handle_program_guarantees\<close>), how many accesses they make (\<open>handle_program_within\<close>), and which
  requests only read (\<open>handle_program_only_reads\<close>). The properties of a pool of requests follow
  from these three.
\<close>

section \<open>Guarantees of the branches\<close>

lemma execute_steady:
  assumes T: "table_like T0 T"
  shows "read_bits_execute P fc coils rb T = read_bits_execute P fc coils rb T0"
    "read_bits_execute P fc discrete_inputs rb T = read_bits_execute P fc discrete_inputs rb T0"
    "read_registers_execute P fc holding_registers rr T = read_registers_execute P fc holding_registers rr T0"
    "read_registers_execute P fc input_registers rr T = read_registers_execute P fc input_registers rr T0"
    "write_single_coil_execute P wc T = write_single_coil_execute P wc T0"
    "write_single_register_execute wr T = write_single_register_execute wr T0"
    "write_multiple_coils_execute wmc T = write_multiple_coils_execute wmc T0"
    "write_multiple_registers_execute wmr T = write_multiple_registers_execute wmr T0"
    "mask_write_register_execute mw T = mask_write_register_execute mw T0"
    "read_write_multiple_registers_execute rw T = read_write_multiple_registers_execute rw T0"
  by (simp_all add: read_bits_execute_eq read_registers_execute_eq write_single_coil_execute_def
      write_single_register_execute_eq write_multiple_coils_execute_eq
      write_multiple_registers_execute_eq mask_write_register_execute_eq
      read_write_multiple_registers_execute_eq table_likeD [OF T])

lemma read_bits_encodes:
  assumes "platform_ok P" "steady T0 area" "read_bits_execute P fc area rq T0 = Ok rs"
  shows "\<exists>n. guarantees (table_like T0) (packet_of rs n) (read_bits_program P area rs)"
  using assms read_bits_guarantees [OF assms(1,2), of rs]
  by (auto simp: read_bits_execute_eq split: if_splits)

lemma read_registers_encodes:
  assumes "platform_ok P" "steady T0 area" "read_registers_execute P fc area rq T0 = Ok rs"
  shows "\<exists>n. guarantees (table_like T0) (packet_of rs n) (read_registers_program P area rs)"
  using assms read_registers_guarantees [OF assms(1,2), of rs]
  by (auto simp: read_registers_execute_eq split: if_splits)

lemma write_single_coil_encodes:
  assumes "platform_ok P" "write_single_coil_execute P rq T0 = Ok rs"
  shows "\<exists>n. guarantees (table_like T0) (packet_of rs n) (write_single_coil_program P rs)"
  using assms write_single_coil_guarantees [OF assms(1), of T0 rs]
  by (auto simp: write_single_coil_execute_def split: if_splits)

lemma write_single_register_encodes:
  assumes "platform_ok P" "write_single_register_execute rq T0 = Ok rs"
  shows "\<exists>n. guarantees (table_like T0) (packet_of rs n) (write_single_register_program P rs)"
  using assms write_single_register_guarantees [OF assms(1), of T0 rs]
  by (auto simp: write_single_register_execute_eq split: if_splits)

lemma mask_write_register_encodes:
  assumes "platform_ok P" "mask_write_register_execute rq T0 = Ok rs"
  shows "\<exists>n. guarantees (table_like T0) (packet_of rs n) (mask_write_register_program P rs)"
  using assms mask_write_register_guarantees [OF assms(1), of T0 rs]
  by (auto simp: mask_write_register_execute_eq split: if_splits)

text \<open>The multiple writes store as many values as the request counts.\<close>

lemma decoded_lengths:
  assumes "platform_ok P" "8 \<le> length p"
  shows "p ! 7 = 0x0F \<Longrightarrow> write_multiple_coils_decode P p new_write_multiple_coils_request = (Ok (), rc) \<Longrightarrow>
      length (wmcq_values rc) = unat (meta_get (wmcq_count rc))"
    "p ! 7 = 0x10 \<Longrightarrow> write_multiple_registers_decode P p new_write_multiple_registers_request = (Ok (), rr) \<Longrightarrow>
      length (wmrq_values rr) = unat (meta_get (wmrq_count rr))"
    "p ! 7 = 0x17 \<Longrightarrow>
      read_write_multiple_registers_decode P p new_read_write_multiple_registers_request = (Ok (), rw) \<Longrightarrow>
      length (rwq_values rw) = unat (meta_get (rwq_write_count rw))"
  using assms
  by (auto simp: write_multiple_coils_decode_eq write_multiple_registers_decode_eq
      read_write_multiple_registers_decode_eq split: if_splits)

lemma write_multiple_coils_encodes:
  assumes "platform_ok P" "length (wmcq_values rq) = unat (meta_get (wmcq_count rq))"
    "write_multiple_coils_execute rq T0 = Ok rs"
  shows "\<exists>n. guarantees (table_like T0) (packet_of rs n) (write_multiple_coils_program P rs)"
  using assms write_multiple_coils_guarantees [OF assms(1), of rs T0]
  by (fastforce simp: write_multiple_coils_execute_eq num_bits_validate_unat split: if_splits)

lemma write_multiple_registers_encodes:
  assumes "platform_ok P" "length (wmrq_values rq) = unat (meta_get (wmrq_count rq))"
    "write_multiple_registers_execute rq T0 = Ok rs"
  shows "\<exists>n. guarantees (table_like T0) (packet_of rs n) (write_multiple_registers_program P rs)"
  using assms write_multiple_registers_guarantees [OF assms(1), of rs T0]
  by (fastforce simp: write_multiple_registers_execute_eq num_regs_validate_unat split: if_splits)

lemma read_write_encodes:
  assumes "platform_ok P" "length (rwq_values rq) = unat (meta_get (rwq_write_count rq))"
    "read_write_multiple_registers_execute rq T0 = Ok rs"
  shows "\<exists>n. guarantees (table_like T0) (packet_of rs n) (read_write_multiple_registers_program P rs)"
  using assms read_write_guarantees [OF assms(1), of rs T0]
  by (fastforce simp: read_write_multiple_registers_execute_eq num_regs_validate_unat split: if_splits)

lemma dispatch_program_guarantees:
  assumes P: "platform_ok P" and T0: "table_inv T0" and p: "8 \<le> length p"
  shows "guarantees (table_like T0)
    (branch_ends p (named_function (p ! 7)) (verdict_shape (spec_request p (table_image T0))))
    (dispatch_program P (function_code_of_byte (p ! 7)) p)"
proof -
  let ?Q = "branch_ends p (named_function (p ! 7)) (verdict_shape (spec_request p (table_image T0)))"
  have ends: "?Q (fst (run_prog (dispatch_program P (function_code_of_byte (p ! 7)) p) T))"
    if T: "table_like T0 T" for T
  proof -
    have "?Q (fst (dispatch P (function_code_of_byte (p ! 7)) p T))"
      using implements_ends [OF dispatch_implements [OF P table_likeD(1) [OF T] p]]
        shape_of_addresses [OF table_like_addresses [OF T]] by simp
    then show ?thesis by (simp add: run_dispatch_program)
  qed
  note encodes = read_bits_encodes [OF P] read_registers_encodes [OF P]
    write_single_coil_encodes [OF P] write_single_register_encodes [OF P]
    mask_write_register_encodes [OF P] write_multiple_coils_encodes [OF P]
    write_multiple_registers_encodes [OF P] read_write_encodes [OF P]
  show ?thesis
  proof (cases "p ! 7 \<in> set supported_bytes")
    case True
    then show ?thesis
      using ends unfolding supported_bytes_def list.set insert_iff empty_iff simp_thms
      by (elim disjE; simp add: dispatch_program_def function_code_of_byte_def;
          intro function_program_guarantees [OF T0]; simp;
          intro encodes steady_areas;
          (simp add: execute_steady read_coils_execute_def read_discrete_inputs_execute_def
            read_holding_registers_execute_def read_input_registers_execute_def
            decoded_lengths [OF P p])?)
  next
    case False
    then show ?thesis
      using ends [OF table_like_refl [OF T0]]
      by (auto simp: supported_bytes_def dispatch_program_def function_code_of_byte_def
          split: prod.split outcome.split)
  qed
qed

section \<open>The handler\<close>

text \<open>
  What an interleaving can change in what a request ends with: nothing, or the values in a
  normal reply, that is the bytes behind the function byte of a reply that repeats it.
\<close>

definition same_but_values :: "packet_t \<Rightarrow> (exn, packet_t) outcome \<Rightarrow> (exn, packet_t) outcome \<Rightarrow> bool" where
  "same_but_values p x y \<longleftrightarrow>
     x = y \<or> (\<exists>r r'. x = Ok r \<and> y = Ok r' \<and> length r' = length r \<and> take 8 r' = take 8 r \<and>
                 p ! 7 \<in> set supported_bytes \<and> r ! 7 = p ! 7)"

lemma take_adu_packet:
  "length b = length b' \<Longrightarrow> take 8 (adu_packet t u f b) = take 8 (adu_packet t u f b')"
  by (simp add: adu_packet_def Let_def)

lemma report_branch_end:
  assumes P: "platform_ok P" and T: "table_inv T" and p: "8 \<le> length p"
    and x: "branch_ends p (named_function (p ! 7)) (verdict_shape (spec_request p (table_image T))) x"
  shows "same_but_values p (fst (handle P p T))
    (case x of Throw e \<Rightarrow> report_outcome P e | _ \<Rightarrow> x)"
proof (cases rule: handle_cases [OF P T, of p, case_names short reply failure overread])
  case (reply body T')
  with x reply_function_byte [of p "table_image T"] obtain body' where "length body' = length body"
    "x = Ok (adu_packet (packet_u16 p 0) (p ! 6) (p ! 7) body')"
    by (auto simp: branch_ends_def)
  with reply spec_reply_supported [of p "table_image T"] show ?thesis
    by (auto simp: same_but_values_def intro: take_adu_packet)
next
  case (failure ec)
  with x obtain h where "x = Throw (Specification ec (named_function (p ! 7)) h)"
    "hd_transaction h = packet_u16 p 0" "hd_unit h = p ! 6"
    by (auto simp: branch_ends_def)
  with failure show ?thesis
    using error_encode_eq [OF P named_function_byte(1)]
    by (simp add: same_but_values_def report_outcome_def named_function_byte(2))
next
  case overread
  with x show ?thesis by (simp add: branch_ends_def same_but_values_def)
qed (use p in simp)

lemma handle_program_guarantees:
  assumes P: "platform_ok P" and T0: "table_inv T0"
  shows "guarantees (table_like T0) (same_but_values p (fst (handle P p T0))) (handle_program P p)"
proof (cases "length p < 8")
  case True
  then show ?thesis
    by (simp add: handle_program_def header_length_def report_outcome_def same_but_values_def
        handle_eq)
next
  case False
  then have p: "8 \<le> length p" by simp
  have "handle_program P p = bind_prog (dispatch_program P (function_code_of_byte (p ! 7)) p)
      (\<lambda>x. Done (case x of Throw e \<Rightarrow> report_outcome P e | _ \<Rightarrow> x))"
    using p by (auto simp: handle_program_def header_length_def
        intro!: arg_cong2 [where f = bind_prog] split: outcome.split)
  then show ?thesis
    using report_branch_end [OF P T0 p]
    by (auto intro: guarantees_bind [OF dispatch_program_guarantees [OF P T0 p]])
qed

section \<open>The read-only areas\<close>

text \<open>No request writes the discrete inputs or the input registers, whatever others do to them.\<close>

definition read_only_kept :: "table \<Rightarrow> table \<Rightarrow> bool" where
  "read_only_kept T0 T \<longleftrightarrow>
     discrete_inputs T = discrete_inputs T0 \<and> input_registers T = input_registers T0"

abbreviation keeps :: "('s \<Rightarrow> bool) \<Rightarrow> ('s, 'a) prog \<Rightarrow> bool" where
  "keeps I \<equiv> guarantees I (\<lambda>_. True)"

lemma keeps_bind: "keeps I p \<Longrightarrow> (\<And>a. keeps I (f a)) \<Longrightarrow> keeps I (bind_prog p f)"
  by (rule guarantees_bind)

lemma keeps_bind_shared:
  assumes "\<And>r. keeps I (m r)" "\<And>a r. keeps I (f a r)"
  shows "keeps I (bind_shared m f r)"
  unfolding bind_shared_def
  by (rule keeps_bind [OF assms(1)]) (auto simp: assms(2) split: outcome.split)

lemma keeps_then_shared:
  "(\<And>r. keeps I (m r)) \<Longrightarrow> (\<And>r. keeps I (k r)) \<Longrightarrow> keeps I (then_shared m k r)"
  unfolding then_shared_def by (rule keeps_bind_shared)

lemma keeps_steps:
  "keeps I (object_set f r)" "keeps I (object_get g r)" "keeps I (object_check b e r)"
  "keeps I (give a r)" "keeps I (read_shared q r)"
  by (simp_all add: object_set_def object_get_def object_check_def give_def local_act_def
      read_shared_def guarantees_Access_iff)

lemma keeps_write:
  assumes "\<And>r T T'. I T \<Longrightarrow> u r T = Ok T' \<Longrightarrow> I T'"
  shows "keeps I (write_shared u r)"
  using assms by (auto simp: write_shared_def guarantees_Access_iff split: outcome.split)

lemma keeps_elements: "keeps I (read_elements area is r)"
  by (induction "is" arbitrary: r) (auto intro!: keeps_bind_shared keeps_steps)

lemma keeps_set_range:
  assumes "\<And>b T. I T \<Longrightarrow> I (upd b T)"
  shows "keeps I (set_range area upd address buffer r)"
proof -
  have "keeps I (write_elements area upd i vs r)" for i vs r
    by (induction vs arbitrary: i r)
      (auto intro!: keeps_then_shared keeps_steps keeps_write simp: bind_outcome_eq_Ok assms)
  then show ?thesis
    by (auto simp: set_range_def intro!: keeps_bind_shared keeps_steps split: prod.split)
qed

lemma keeps_encode_catch:
  assumes "\<And>r. keeps I (body r)"
  shows "keeps I (encode_catch_shared body r)"
  unfolding encode_catch_shared_def try_shared_def
  by (rule keeps_bind [OF assms]) (auto simp: local_act_def split: outcome.split)

lemmas keeps_intros = keeps_bind_shared keeps_then_shared keeps_steps keeps_elements
  keeps_set_range keeps_write keeps_encode_catch

lemma encoders_keep_read_only:
  "keeps (read_only_kept T0) (read_bits_program P area_b r1)"
  "keeps (read_only_kept T0) (read_registers_program P area_r r2)"
  "keeps (read_only_kept T0) (write_single_coil_program P r3)"
  "keeps (read_only_kept T0) (write_multiple_coils_program P r4)"
  "keeps (read_only_kept T0) (write_single_register_program P r5)"
  "keeps (read_only_kept T0) (write_multiple_registers_program P r6)"
  "keeps (read_only_kept T0) (mask_write_register_program P r7)"
  "keeps (read_only_kept T0) (read_write_multiple_registers_program P r8)"
  by (auto simp: program_defs Let_def read_only_kept_def bind_outcome_eq_Ok
      intro!: keeps_intros split: prod.split)

lemma handle_program_read_only: "keeps (read_only_kept T0) (handle_program P p)"
proof -
  have f: "keeps (read_only_kept T0) (function_program dec req exe enc)"
    if "\<And>rs. keeps (read_only_kept T0) (enc rs)" for dec req exe and enc :: "'b \<Rightarrow> (table, (exn, packet_t) outcome \<times> 'b) prog"
    using keeps_bind [OF that, of "\<lambda>(x, _). Done x"]
    by (auto simp: function_program_def guarantees_Access_iff split: prod.split outcome.split)
  have "keeps (read_only_kept T0) (dispatch_program P fc p)" for fc
    by (cases fc) (auto simp: dispatch_program_def split: prod.split outcome.split
        intro!: f encoders_keep_read_only)
  then show ?thesis
    unfolding handle_program_def
    by (intro keeps_bind) (auto split: outcome.split)
qed

section \<open>The number of accesses\<close>

lemma within_Access: "0 < n \<Longrightarrow> within n (Access k) \<longleftrightarrow> (\<forall>s. within (n - 1) (fst (k s)))"
  by (cases n) simp_all

lemma bind_give: "bind_shared (give a) f = f a"
  by (simp add: fun_eq_iff give_def prog_simps act_simps)

lemma bind_elements_Cons:
  "bind_shared (read_elements area (i # is)) f r = Access (\<lambda>T.
     (case block_element (area T) i of
        Ok v \<Rightarrow> bind_shared (read_elements area is) (\<lambda>vs. f (v # vs)) r
      | Throw e \<Rightarrow> Done (Throw e, r)
      | Undefined \<Rightarrow> Done (Undefined, r), T))"
  by (simp only: read_elements.simps bind_shared_assoc bind_shared_read bind_give)

lemma within_elements:
  assumes "\<And>vs r'. within n (f vs r')" "length is + n \<le> m"
  shows "within m (bind_shared (read_elements area is) f r)"
  using assms
proof (induction "is" arbitrary: m f r)
  case Nil
  then show ?case using within_mono [of n "f [] r" m] by (simp add: bind_give)
next
  case (Cons i "is")
  obtain m' where m': "m = Suc m'" "length is + n \<le> m'" using Cons.prems(2) by (cases m) auto
  have "within m' (bind_shared (read_elements area is) (\<lambda>vs. f (v # vs)) r)" for v
    using Cons.prems(1) m'(2) by (rule Cons.IH)
  then show ?case
    by (auto simp: m'(1) bind_elements_Cons simp del: read_elements.simps(2) split: outcome.split)
qed

lemma within_encode_catch:
  assumes "within n (body r)"
  shows "within n (encode_catch_shared body r)"
proof -
  have "within (n + 0) (encode_catch_shared body r)"
    unfolding encode_catch_shared_def try_shared_def
    by (rule within_bind [OF assms]) (auto simp: local_act_def split: outcome.split)
  then show ?thesis by simp
qed

lemma slice_extent:
  "block_get_slice v b a c = Ok (i, j) \<Longrightarrow> v (meta_get c) \<and> j = i + unat (meta_get c)"
  by (auto simp: block_get_slice_def require_def block_validate_count_def container_range_def
      split: outcome.splits if_splits)

lemma within_read_bits_program: "within 4001 (read_bits_program P area r)"
  unfolding read_bits_program_def
  by (rule within_encode_catch)
    (auto simp: prog_simps within_Access Let_def num_bits_validate_unat split: outcome.split dest!: slice_extent
      intro!: within_elements [where n = 2000 and m = 4000] within_elements [where n = 0 and m = 2000])

lemma within_read_registers_program: "within 251 (read_registers_program P area r)"
  unfolding read_registers_program_def
  by (rule within_encode_catch)
    (auto simp: prog_simps within_Access Let_def num_regs_validate_unat split: outcome.split
      dest!: slice_extent
      intro!: within_elements [where n = 125 and m = 250] within_elements [where n = 0 and m = 125])

lemma bind_write_elements_Cons:
  "bind_shared (write_elements area upd i (v # vs)) f r = Access (\<lambda>T.
     case bind_outcome (block_put_element (area T) i v) (\<lambda>b. Ok (upd b T)) of
       Ok T' \<Rightarrow> (bind_shared (write_elements area upd (Suc i) vs) f r, T')
     | Throw e \<Rightarrow> (Done (Throw e, r), T)
     | Undefined \<Rightarrow> (Done (Undefined, r), T))"
  unfolding write_elements.simps then_shared_def bind_shared_assoc bind_shared_write ..

lemma within_write_elements:
  assumes "\<And>r'. within n (f () r')" "length vs + n \<le> m"
  shows "within m (bind_shared (write_elements area upd i vs) f r)"
  using assms(2)
proof (induction vs arbitrary: i m)
  case Nil
  then show ?case using assms(1) within_mono [of n "f () r" m] by (simp add: bind_give)
next
  case (Cons v vs)
  then show ?case
    by (auto simp: bind_write_elements_Cons within_Access simp del: write_elements.simps(2)
        split: outcome.split)
qed

lemma within_set_range:
  assumes "\<And>r'. within n (f () r')" "length (buffer r) + n < m"
  shows "within m (bind_shared (set_range area upd address buffer) f r)"
  using assms
  by (auto simp: set_range_def bind_shared_assoc bind_object bind_shared_read within_Access
      split: outcome.split intro!: within_write_elements [where n = n])

lemma within_read_write_program:
  "length (rwq_values (rws_request r)) \<le> 123 \<Longrightarrow>
   within 375 (read_write_multiple_registers_program P r)"
  unfolding read_write_multiple_registers_program_def then_shared_def
  by (rule within_encode_catch, rule within_set_range [where n = 251])
    (auto simp: prog_simps within_Access Let_def num_regs_validate_unat split: outcome.split
      dest!: slice_extent
      intro!: within_elements [where n = 125 and m = 250] within_elements [where n = 0 and m = 125])

lemma within_write_programs:
  "within 2 (write_single_coil_program P r1)" "within 2 (write_single_register_program P r2)"
  "within 2 (mask_write_register_program P r3)"
  unfolding write_single_coil_program_def write_single_register_program_def
    mask_write_register_program_def
  by (auto intro!: within_encode_catch simp: prog_simps within_Access Let_def split: outcome.split)

lemma within_range_programs:
  "length (wmcq_values (wmcs_request r1)) \<le> 1968 \<Longrightarrow> within 1969 (write_multiple_coils_program P r1)"
  "length (wmrq_values (wmrs_request r2)) \<le> 123 \<Longrightarrow> within 124 (write_multiple_registers_program P r2)"
  unfolding write_multiple_coils_program_def write_multiple_registers_program_def
  by (auto intro!: within_encode_catch within_set_range [where n = 0] simp: prog_simps)

lemma within_function_program:
  assumes "\<And>rq rs T. dec req = (Ok (), rq) \<Longrightarrow> exe rq T = Ok rs \<Longrightarrow> within 4001 (enc rs)"
  shows "within 4002 (function_program dec req exe enc)"
proof -
  have "within (4001 + 0) (bind_prog (enc rs) (\<lambda>(x, _). Done x))"
    if "dec req = (Ok (), rq)" "exe rq T = Ok rs" for rq rs T
    by (rule within_bind [OF assms [OF that]]) auto
  then show ?thesis
    by (auto simp: function_program_def within_Access split: prod.split outcome.split)
qed

text \<open>How many values a write can carry follows from its count and the checks of \<open>execute\<close>.\<close>

lemma within_executed:
  "length (wmcq_values rc) = unat (meta_get (wmcq_count rc)) \<Longrightarrow>
   write_multiple_coils_execute rc T = Ok sc \<Longrightarrow> within 4001 (write_multiple_coils_program P sc)"
  "length (wmrq_values rr) = unat (meta_get (wmrq_count rr)) \<Longrightarrow>
   write_multiple_registers_execute rr T = Ok sr \<Longrightarrow> within 4001 (write_multiple_registers_program P sr)"
  "length (rwq_values rw) = unat (meta_get (rwq_write_count rw)) \<Longrightarrow>
   read_write_multiple_registers_execute rw T = Ok sw \<Longrightarrow>
   within 4001 (read_write_multiple_registers_program P sw)"
  using within_mono [OF within_range_programs(1) [of sc P], of 4001]
    within_mono [OF within_range_programs(2) [of sr P], of 4001]
    within_mono [OF within_read_write_program [of sw P], of 4001]
  by (auto simp: write_multiple_coils_execute_eq write_multiple_registers_execute_eq
      read_write_multiple_registers_execute_eq num_bits_validate_unat num_regs_validate_unat
      split: if_splits)

lemma dispatch_program_within:
  assumes P: "platform_ok P" and p: "8 \<le> length p"
  shows "within 4002 (dispatch_program P (function_code_of_byte (p ! 7)) p)"
proof (cases "p ! 7 \<in> set supported_bytes")
  case True
  note executed = within_executed(1) [OF decoded_lengths(1) [OF P p]]
    within_executed(2) [OF decoded_lengths(2) [OF P p]]
    within_executed(3) [OF decoded_lengths(3) [OF P p]]
  note bounds = within_mono [OF within_write_programs(1), of 4001]
    within_mono [OF within_write_programs(2), of 4001]
    within_mono [OF within_write_programs(3), of 4001]
    within_mono [OF within_read_registers_program, of 4001] within_read_bits_program
  show ?thesis
    by (insert True, unfold supported_bytes_def list.set insert_iff empty_iff simp_thms, elim disjE;
        simp add: dispatch_program_def function_code_of_byte_def; intro within_function_program;
        (rule executed; assumption)?; (simp add: bounds; fail)?)
next
  case False
  then show ?thesis
    by (auto simp: supported_bytes_def dispatch_program_def function_code_of_byte_def
        split: prod.split outcome.split)
qed

lemma handle_program_within:
  assumes "platform_ok P"
  shows "within 4002 (handle_program P p)"
proof -
  have "within (4002 + 0) (handle_program P p)"
    unfolding handle_program_def
    using dispatch_program_within [OF assms, of p]
    by (intro within_bind) (auto simp: header_length_def split: outcome.split)
  then show ?thesis by simp
qed

section \<open>Requests that only read\<close>

definition reading_request :: "packet_t \<Rightarrow> bool" where
  "reading_request p \<longleftrightarrow> \<not> (8 \<le> length p \<and> p ! 7 \<in> {0x05, 0x06, 0x0F, 0x10, 0x16, 0x17})"

lemma only_reads_bind_shared:
  assumes "\<And>r. only_reads (m r)" "\<And>a r. only_reads (f a r)"
  shows "only_reads (bind_shared m f r)"
  unfolding bind_shared_def
  by (rule only_reads_bind [OF assms(1)]) (auto simp: assms(2) split: outcome.split)

lemma only_reads_then_shared:
  "(\<And>r. only_reads (m r)) \<Longrightarrow> (\<And>r. only_reads (k r)) \<Longrightarrow> only_reads (then_shared m k r)"
  unfolding then_shared_def by (rule only_reads_bind_shared)

lemma only_reads_steps:
  "only_reads (object_set f r)" "only_reads (object_get g r)" "only_reads (object_check b e r)"
  "only_reads (give a r)" "only_reads (read_shared q r)"
  by (simp_all add: object_set_def object_get_def object_check_def give_def local_act_def
      read_shared_def)

lemma only_reads_elements: "only_reads (read_elements area is r)"
  by (induction "is" arbitrary: r) (auto intro!: only_reads_bind_shared only_reads_steps)

lemma only_reads_encode_catch:
  assumes "\<And>r. only_reads (body r)"
  shows "only_reads (encode_catch_shared body r)"
  unfolding encode_catch_shared_def try_shared_def
  by (rule only_reads_bind [OF assms]) (auto simp: local_act_def split: outcome.split)

lemmas only_reads_intros = only_reads_bind_shared only_reads_then_shared only_reads_steps
  only_reads_elements only_reads_encode_catch

lemma only_reads_programs:
  "only_reads (read_bits_program P area_b r)" "only_reads (read_registers_program P area_r r')"
  by (auto simp: read_bits_program_def read_registers_program_def Let_def
      intro!: only_reads_intros split: prod.split)

lemma only_reads_function_program:
  assumes "\<And>rs. only_reads (enc rs)"
  shows "only_reads (function_program dec req exe enc)"
proof -
  have "only_reads (bind_prog (enc rs) (\<lambda>(x, _). Done x))" for rs
    by (rule only_reads_bind [OF assms]) auto
  then show ?thesis by (auto simp: function_program_def split: prod.split outcome.split)
qed

lemma handle_program_only_reads:
  assumes "reading_request p"
  shows "only_reads (handle_program P p)"
proof -
  have "only_reads (dispatch_program P (function_code_of_byte (p ! 7)) p)" if "8 \<le> length p"
    using assms that
    by (auto simp: reading_request_def dispatch_program_def function_code_of_byte_def
        intro!: only_reads_function_program only_reads_programs split: prod.split outcome.split)
  then show ?thesis
    unfolding handle_program_def
    by (intro only_reads_bind) (auto simp: header_length_def split: outcome.split)
qed

section \<open>Pools of requests\<close>

definition request_pool :: "platform \<Rightarrow> packet_t list \<Rightarrow> (table, (exn, packet_t) outcome) prog list" where
  "request_pool P ps = map (handle_program P) ps"

lemma length_request_pool [simp]: "length (request_pool P ps) = length ps"
  by (simp add: request_pool_def)

lemma request_pool_guarantees:
  assumes "\<And>p. p \<in> set ps \<Longrightarrow> guarantees I (Q p) (handle_program P p)" "I T"
    and "pool_steps (T, request_pool P ps) (T', qs)"
  shows "I T' \<and> length qs = length ps \<and>
    (\<forall>i < length ps. \<forall>x. qs ! i = Done x \<longrightarrow> Q (ps ! i) x)"
proof -
  have "pool_guarantees I (\<lambda>i. Q (ps ! i)) (T, request_pool P ps)"
    using assms(1,2) by (simp add: pool_guarantees_def request_pool_def)
  from pool_steps_guarantees [OF assms(3) this] pool_steps_length [OF assms(3)] show ?thesis
    by (auto simp: pool_guarantees_def)
qed

lemma request_pool_within:
  "platform_ok P \<Longrightarrow> list_all2 within (replicate (length ps) 4002) (request_pool P ps)"
  by (simp add: request_pool_def list_all2_conv_all_nth handle_program_within)

text \<open>Serving the requests one after the other is one of the interleavings.\<close>

primrec handle_all :: "platform \<Rightarrow> packet_t list \<Rightarrow> table \<Rightarrow> (exn, packet_t) outcome list \<times> table" where
  "handle_all P [] T = ([], T)"
| "handle_all P (p # ps) T =
     (case handle P p T of (x, T') \<Rightarrow> case handle_all P ps T' of (xs, T'') \<Rightarrow> (x # xs, T''))"

lemma run_request_pool: "run_all (request_pool P ps) T = handle_all P ps T"
  by (induction ps arbitrary: T) (simp_all add: request_pool_def run_handle_program)

lemma requests_in_order:
  "pool_steps (T, request_pool P ps) (snd (handle_all P ps T), map Done (fst (handle_all P ps T)))"
  using pool_runs_all [of T "[]" "request_pool P ps"] by (simp add: run_request_pool)

end
