(* ===== verification/Modbus_Concurrent_Read.thy ===== *)
theory Modbus_Concurrent_Read
  imports Modbus_Concurrent_Requests
begin

text \<open>
  Where the values of a read come from. The response to a read gets a pair of iterators from the
  block, and reads the elements one by one when the lock is free again, while other requests
  write, one element at a time. Here a run is recorded with the tables it goes through, and every
  value of a reply is found in one of them.
\<close>

section \<open>Runs with their tables\<close>

inductive pool_trace :: "('s, 'a) pool \<Rightarrow> 's list \<Rightarrow> ('s, 'a) pool \<Rightarrow> bool" for c where
  trace_start: "pool_trace c [fst c] c"
| trace_step: "pool_trace c ss d \<Longrightarrow> pool_step d e \<Longrightarrow> pool_trace c (ss @ [fst e]) e"

lemma pool_trace_steps: "pool_trace c ss d \<Longrightarrow> pool_steps c d"
  by (induction rule: pool_trace.induct) (auto intro: rtranclp.rtrancl_into_rtrancl)

lemma pool_steps_trace: "pool_steps c d \<Longrightarrow> \<exists>ss. pool_trace c ss d"
  by (induction rule: rtranclp_induct) (auto intro: pool_trace.intros)

lemma pool_trace_tables: "pool_trace c ss d \<Longrightarrow> s \<in> set ss \<Longrightarrow> \<exists>ps. pool_steps c (s, ps)"
proof (induction rule: pool_trace.induct)
  case trace_start
  then show ?case by (metis prod.collapse rtranclp.rtrancl_refl set_ConsD empty_iff list.set(1))
next
  case (trace_step ss d e)
  then have "pool_steps c (fst e, snd e)"
    by (metis pool_trace_steps prod.collapse rtranclp.rtrancl_into_rtrancl)
  moreover have "s \<in> set ss \<or> s = fst e" using trace_step.prems by auto
  ultimately show ?case using trace_step.IH by blast
qed

text \<open>A program meets only the stores of the run, so what it guarantees for these, it does.\<close>

lemma pool_trace_program:
  assumes "pool_trace c ss d" "set ss \<subseteq> S" "i < length (snd c)"
    and "guarantees (\<lambda>s. s \<in> S) Q (snd c ! i)"
  shows "guarantees (\<lambda>s. s \<in> S) Q (snd d ! i)"
proof -
  have "fst d \<in> S \<and> guarantees (\<lambda>s. s \<in> S) Q (snd d ! i)"
    using assms
  proof (induction rule: pool_trace.induct)
    case (trace_step ss d e)
    then have IH: "fst d \<in> S" "guarantees (\<lambda>s. s \<in> S) Q (snd d ! i)" by auto
    have "i < length (snd d)"
      using pool_steps_length [OF pool_trace_steps [OF trace_step(1)]] trace_step.prems(2) by simp
    with trace_step(2) IH trace_step.prems(1) show ?case
      by cases (auto simp: guarantees_Access_iff nth_list_update)
  qed simp
  then show ?thesis ..
qed

section \<open>The elements of a read\<close>

text \<open>The values \<open>vs\<close> were in the cells from \<open>k\<close> on, each in one of the tables.\<close>

definition seen_at :: "(table \<Rightarrow> 'a block) \<Rightarrow> table set \<Rightarrow> nat \<Rightarrow> 'a list \<Rightarrow> bool" where
  "seen_at area S k vs \<longleftrightarrow>
     (\<forall>j < length vs. \<exists>T \<in> S. block_cells (area T) (k + j) = Some (vs ! j))"

lemma guarantees_seen_elements:
  assumes "\<And>i T. i \<in> set is \<Longrightarrow> T \<in> S \<Longrightarrow> i < length (blk_container (area T))"
  shows "guarantees (\<lambda>T. T \<in> S)
    (\<lambda>(x, r'). r' = r \<and> (\<exists>vs. x = Ok vs \<and>
       list_all2 (\<lambda>v i. \<exists>T \<in> S. v = blk_container (area T) ! i) vs is))
    (read_elements area is r)"
  using assms
proof (induction "is")
  case (Cons i "is")
  have "guarantees (\<lambda>T. T \<in> S)
      (\<lambda>(x, r'). r' = r \<and> (\<exists>vs. x = Ok vs \<and>
         list_all2 (\<lambda>v i. \<exists>T \<in> S. v = blk_container (area T) ! i) vs (i # is)))
      (bind_shared (read_elements area is) (\<lambda>vs. give (v # vs)) r)"
    if "\<exists>T \<in> S. v = blk_container (area T) ! i" for v
    unfolding bind_shared_def
    by (rule guarantees_bind [OF Cons.IH]) (use Cons.prems that in \<open>auto simp: prog_simps\<close>)
  then show ?case
    using Cons.prems
    by (auto simp: prog_simps guarantees_Access_iff block_element_def container_element_def)
qed (simp add: prog_simps)

lemma element_cell:
  assumes "block_inv b" "in_block b a n" "j < n"
  shows "block_cells b (unat (meta_get a) + j) = Some (blk_container b ! (offset b a + j))"
  using assms offset_in_container [OF assms(1,2)]
  by (auto simp: block_cells_def offset_def in_block_def)

lemma guarantees_seen:
  assumes area: "steady T0 area" and i: "in_block (area T0) a n" and S: "\<And>T. T \<in> S \<Longrightarrow> table_like T0 T"
    and f: "\<And>vs. length vs = n \<Longrightarrow> seen_at area S (unat (meta_get a)) vs \<Longrightarrow>
      guarantees (\<lambda>T. T \<in> S) Q (f vs r)"
  shows "guarantees (\<lambda>T. T \<in> S) Q
    (bind_shared (read_elements area [offset (area T0) a..<offset (area T0) a + n]) f r)"
proof -
  let ?is = "[offset (area T0) a..<offset (area T0) a + n]"
  have inside: "i < length (blk_container (area T))" if "i \<in> set ?is" "T \<in> S" for i T
    using that i steadyD [OF area S [OF that(2)]] offset_inside [of "area T" a n i] by simp
  have "length vs = n \<and> seen_at area S (unat (meta_get a)) vs"
    if vs: "list_all2 (\<lambda>v i. \<exists>T \<in> S. v = blk_container (area T) ! i) vs ?is" for vs
  proof
    show n: "length vs = n" using vs by (simp add: list_all2_lengthD)
    show "seen_at area S (unat (meta_get a)) vs"
      unfolding seen_at_def
    proof (intro allI impI)
      fix j assume j: "j < length vs"
      then obtain T where T: "T \<in> S" "vs ! j = blk_container (area T) ! (offset (area T0) a + j)"
        using vs n by (auto simp: list_all2_conv_all_nth)
      with element_cell [of "area T" a n j] steadyD [OF area S [OF T(1)]] i j n
      show "\<exists>T \<in> S. block_cells (area T) (unat (meta_get a) + j) = Some (vs ! j)" by auto
    qed
  qed
  with f show ?thesis
    unfolding bind_shared_def
    by (intro guarantees_bind [OF guarantees_seen_elements]) (auto simp: inside)
qed

section \<open>The encoders of reads\<close>

lemma read_registers_seen:
  fixes rs :: read_registers_response
  defines "rq \<equiv> rrs_request rs"
  defines "n \<equiv> unat (meta_get (rrq_count rq))"
  assumes P: "platform_ok P" and area: "steady T0 area" and S: "\<And>T. T \<in> S \<Longrightarrow> table_like T0 T"
    and v: "num_regs_validate False (meta_get (rrq_count rq))"
    and i: "in_block (area T0) (rrq_address rq) n"
  shows "guarantees (\<lambda>T. T \<in> S)
    (\<lambda>(x, r). \<exists>vs. x = Ok (adu_packet (adu_transaction rs) (adu_unit rs) (adu_function_code rs)
        (word_of_nat (2 * n) # registers_bytes vs)) \<and> length vs = n \<and>
       seen_at area S (unat (meta_get (rrq_address rq))) vs)
    (read_registers_program P area rs)"
proof -
  note facts = read_registers_reply [OF P v [unfolded rq_def], folded rq_def, folded n_def]
  have g: "block_get_slice (num_regs_validate False) (area T) (rrq_address rq) (rrq_count rq) =
      Ok (offset (area T0) (rrq_address rq), offset (area T0) (rrq_address rq) + n)"
    if "T \<in> S" for T
    using steadyD [OF area S [OF that]] i v
    by (simp add: block_get_slice_eq [OF _ num_regs_positive] n_def)
  show ?thesis
    unfolding read_registers_program_def
    by (rule guarantees_encode_catch)
      (simp add: prog_simps guarantees_Access_iff g rq_def [symmetric];
       intro allI impI guarantees_seen [OF area i S]; assumption?;
       simp add: prog_simps rq_def [symmetric] header_packet_eq [OF P] pack_registers_eq [OF P]
         facts check_response_packet_def Let_def del: of_nat_mult;
       intro guarantees_seen [OF area i S]; assumption?;
       simp add: facts prog_simps rq_def [symmetric] check_response_packet_def del: of_nat_mult;
       intro exI conjI; (rule refl | assumption | simp))
qed

lemma read_bits_seen:
  fixes rs :: read_bits_response
  defines "rq \<equiv> rbs_request rs"
  defines "n \<equiv> unat (meta_get (rbq_count rq))"
  assumes P: "platform_ok P" and area: "steady T0 area" and S: "\<And>T. T \<in> S \<Longrightarrow> table_like T0 T"
    and v: "num_bits_validate False (meta_get (rbq_count rq))"
    and i: "in_block (area T0) (rbq_address rq) n"
  shows "guarantees (\<lambda>T. T \<in> S)
    (\<lambda>(x, r). \<exists>vs. x = Ok (adu_packet (adu_transaction rs) (adu_unit rs) (adu_function_code rs)
        (word_of_nat ((n + 7) div 8) # pack_bits vs)) \<and> length vs = n \<and>
       seen_at area S (unat (meta_get (rbq_address rq))) vs)
    (read_bits_program P area rs)"
proof -
  note facts = read_bits_reply [OF P v [unfolded rq_def], folded rq_def, folded n_def]
  have g: "block_get_slice (num_bits_validate False) (area T) (rbq_address rq) (rbq_count rq) =
      Ok (offset (area T0) (rbq_address rq), offset (area T0) (rbq_address rq) + n)"
    if "T \<in> S" for T
    using steadyD [OF area S [OF that]] i v
    by (simp add: block_get_slice_eq [OF _ num_bits_positive] n_def)
  show ?thesis
    unfolding read_bits_program_def
    by (rule guarantees_encode_catch)
      (simp add: prog_simps guarantees_Access_iff g rq_def [symmetric];
       intro allI impI guarantees_seen [OF area i S]; assumption?;
       simp add: prog_simps rq_def [symmetric] header_packet_eq [OF P] facts Let_def;
       intro guarantees_seen [OF area i S]; assumption?;
       simp add: facts prog_simps rq_def [symmetric] check_response_packet_def length_pack_bits;
       intro exI conjI; (rule refl | assumption | simp))
qed

section \<open>Whole read requests\<close>

text \<open>A request with function byte \<open>f\<close> that reads cells that exist, at most \<open>m\<close> of them.\<close>

definition reads_cells ::
    "(table \<Rightarrow> 'a block) \<Rightarrow> byte \<Rightarrow> nat \<Rightarrow> table \<Rightarrow> packet_t \<Rightarrow> bool" where
  "reads_cells area f m T p \<longleftrightarrow> 12 \<le> length p \<and> p ! 7 = f \<and> unat (packet_u16 p 10) \<in> {1..m} \<and>
     all_cells (block_cells (area T)) (unat (packet_u16 p 8)) (unat (packet_u16 p 10))"

lemma guarantees_function_program:
  assumes "dec req = (Ok (), rq)" "\<And>T. I T \<Longrightarrow> exe rq T = Ok rs"
    and "guarantees I (\<lambda>(x, r). (\<exists>packet. x = Ok packet) \<and> Q x) (enc rs)"
  shows "guarantees I (\<lambda>x. (\<exists>packet. x = Ok packet) \<and> Q x) (function_program dec req exe enc)"
  using assms(1,2)
  by (auto simp: function_program_def guarantees_Access_iff intro!: guarantees_bind [OF assms(3)])

lemma guarantees_handle_program:
  assumes "8 \<le> length p"
    and "guarantees I (\<lambda>x. (\<exists>packet. x = Ok packet) \<and> Q x)
      (dispatch_program P (function_code_of_byte (p ! 7)) p)"
  shows "guarantees I Q (handle_program P p)"
  unfolding handle_program_def header_length_def
  using assms(1) by (auto intro!: guarantees_bind [OF assms(2)])

lemma handle_registers_seen:
  assumes P: "platform_ok P" and S: "\<And>T. T \<in> S \<Longrightarrow> table_like T0 T" and area: "steady T0 area"
    and p: "reads_cells area (function_underlying fc) 125 T0 p" and f: "uint (function_underlying fc) < 128"
    and d: "dispatch_program P (function_code_of_byte (p ! 7)) p =
      function_program (read_registers_decode P fc p) (new_read_registers_request fc)
        (read_registers_execute P fc area) (read_registers_program P area)"
  defines "n \<equiv> unat (packet_u16 p 10)"
  shows "guarantees (\<lambda>T. T \<in> S)
    (\<lambda>x. \<exists>vs. x = Ok (adu_packet (packet_u16 p 0) (p ! 6) (p ! 7) (word_of_nat (2 * n) # registers_bytes vs)) \<and>
       length vs = n \<and> seen_at area S (unat (packet_u16 p 8)) vs) (handle_program P p)"
proof -
  define rq where "rq = (take_header p (new_read_registers_request fc))
    \<lparr>rrq_address := Metadata (packet_u16 p 8), rrq_count := Metadata (packet_u16 p 10)\<rparr>"
  define rs where "rs = make_read_registers_response P fc rq"
  have n: "1 \<le> n" "n \<le> 125" and c: "all_cells (block_cells (area T0)) (unat (packet_u16 p 8)) n"
    using p by (simp_all add: reads_cells_def n_def)
  then have v: "num_regs_validate False (packet_u16 p 10)"
    by (simp add: num_regs_validate_unat n_def)
  have i: "in_block (area T0) (Metadata (packet_u16 p 8)) n"
    using c n(1) in_block_cells [of n "area T0" "Metadata (packet_u16 p 8)"] by simp
  have p': "12 \<le> length p" "p ! 7 = function_underlying fc" using p by (simp_all add: reads_cells_def)
  have dec: "read_registers_decode P fc p (new_read_registers_request fc) = (Ok (), rq)"
    using p' f by (simp add: read_registers_decode_eq [OF P] rq_def)
  have rq: "rrq_address rq = Metadata (packet_u16 p 8)" "rrq_count rq = Metadata (packet_u16 p 10)"
    by (simp_all add: rq_def)
  have rs: "rrs_request rs = rq" "adu_transaction rs = packet_u16 p 0" "adu_unit rs = p ! 6"
    "adu_function_code rs = p ! 7"
    using p'(2) by (simp_all add: rs_def rq_def)
  have exe: "read_registers_execute P fc area rq T = Ok rs" if "T \<in> S" for T
    using steadyD [OF area S [OF that]] v i by (simp add: read_registers_execute_eq rq rs_def n_def)
  have "guarantees (\<lambda>T. T \<in> S)
    (\<lambda>(x, r). (\<exists>packet. x = Ok packet) \<and>
       (\<exists>vs. x = Ok (adu_packet (packet_u16 p 0) (p ! 6) (p ! 7) (word_of_nat (2 * n) # registers_bytes vs)) \<and>
       length vs = n \<and> seen_at area S (unat (packet_u16 p 8)) vs)) (read_registers_program P area rs)"
    by (rule guarantees_weaken [OF read_registers_seen [OF P area S]])
      (use v i in \<open>auto simp: rs rq n_def\<close>)
  note enc = this
  have "guarantees (\<lambda>T. T \<in> S) (\<lambda>x. (\<exists>packet. x = Ok packet) \<and>
       (\<exists>vs. x = Ok (adu_packet (packet_u16 p 0) (p ! 6) (p ! 7) (word_of_nat (2 * n) # registers_bytes vs)) \<and>
       length vs = n \<and> seen_at area S (unat (packet_u16 p 8)) vs))
      (dispatch_program P (function_code_of_byte (p ! 7)) p)"
    unfolding d
    by (rule guarantees_function_program [where rq = rq and rs = rs]) (use exe dec enc in auto)
  with p'(1) show ?thesis by (intro guarantees_handle_program) simp_all
qed

lemma handle_bits_seen:
  assumes P: "platform_ok P" and S: "\<And>T. T \<in> S \<Longrightarrow> table_like T0 T" and area: "steady T0 area"
    and p: "reads_cells area (function_underlying fc) 2000 T0 p" and f: "uint (function_underlying fc) < 128"
    and d: "dispatch_program P (function_code_of_byte (p ! 7)) p =
      function_program (read_bits_decode P fc p) (new_read_bits_request fc)
        (read_bits_execute P fc area) (read_bits_program P area)"
  defines "n \<equiv> unat (packet_u16 p 10)"
  shows "guarantees (\<lambda>T. T \<in> S)
    (\<lambda>x. \<exists>vs. x = Ok (adu_packet (packet_u16 p 0) (p ! 6) (p ! 7) (word_of_nat ((n + 7) div 8) # pack_bits vs)) \<and>
       length vs = n \<and> seen_at area S (unat (packet_u16 p 8)) vs) (handle_program P p)"
proof -
  define rq where "rq = (take_header p (new_read_bits_request fc))
    \<lparr>rbq_address := Metadata (packet_u16 p 8), rbq_count := Metadata (packet_u16 p 10)\<rparr>"
  define rs where "rs = make_read_bits_response P fc rq"
  have n: "1 \<le> n" "n \<le> 2000" and c: "all_cells (block_cells (area T0)) (unat (packet_u16 p 8)) n"
    using p by (simp_all add: reads_cells_def n_def)
  then have v: "num_bits_validate False (packet_u16 p 10)"
    by (simp add: num_bits_validate_unat n_def)
  have i: "in_block (area T0) (Metadata (packet_u16 p 8)) n"
    using c n(1) in_block_cells [of n "area T0" "Metadata (packet_u16 p 8)"] by simp
  have p': "12 \<le> length p" "p ! 7 = function_underlying fc" using p by (simp_all add: reads_cells_def)
  have dec: "read_bits_decode P fc p (new_read_bits_request fc) = (Ok (), rq)"
    using p' f by (simp add: read_bits_decode_eq [OF P] rq_def)
  have rq: "rbq_address rq = Metadata (packet_u16 p 8)" "rbq_count rq = Metadata (packet_u16 p 10)"
    by (simp_all add: rq_def)
  have rs: "rbs_request rs = rq" "adu_transaction rs = packet_u16 p 0" "adu_unit rs = p ! 6"
    "adu_function_code rs = p ! 7"
    using p'(2) by (simp_all add: rs_def rq_def)
  have exe: "read_bits_execute P fc area rq T = Ok rs" if "T \<in> S" for T
    using steadyD [OF area S [OF that]] v i by (simp add: read_bits_execute_eq rq rs_def n_def)
  have "guarantees (\<lambda>T. T \<in> S)
    (\<lambda>(x, r). (\<exists>packet. x = Ok packet) \<and>
       (\<exists>vs. x = Ok (adu_packet (packet_u16 p 0) (p ! 6) (p ! 7) (word_of_nat ((n + 7) div 8) # pack_bits vs)) \<and>
       length vs = n \<and> seen_at area S (unat (packet_u16 p 8)) vs)) (read_bits_program P area rs)"
    by (rule guarantees_weaken [OF read_bits_seen [OF P area S]])
      (use v i in \<open>auto simp: rs rq n_def\<close>)
  note enc = this
  have "guarantees (\<lambda>T. T \<in> S) (\<lambda>x. (\<exists>packet. x = Ok packet) \<and>
       (\<exists>vs. x = Ok (adu_packet (packet_u16 p 0) (p ! 6) (p ! 7) (word_of_nat ((n + 7) div 8) # pack_bits vs)) \<and>
       length vs = n \<and> seen_at area S (unat (packet_u16 p 8)) vs))
      (dispatch_program P (function_code_of_byte (p ! 7)) p)"
    unfolding d
    by (rule guarantees_function_program [where rq = rq and rs = rs]) (use exe dec enc in auto)
  with p'(1) show ?thesis by (intro guarantees_handle_program) simp_all
qed

text \<open>The tables of a run of requests.\<close>

lemma trace_tables_like:
  assumes "platform_ok P" "table_inv T" "pool_trace (T, request_pool P ps) Ts (T', qs)" "S \<in> set Ts"
  shows "table_like T S"
proof -
  obtain rs where "pool_steps (T, request_pool P ps) (S, rs)"
    using pool_trace_tables [OF assms(3,4)] by blast
  from request_pool_guarantees [OF handle_program_guarantees [OF assms(1,2)]
      table_like_refl [OF assms(2)] this]
  show ?thesis by simp
qed

lemma trace_reply:
  assumes "pool_trace (T, request_pool P ps) Ts (T', qs)" "i < length ps" "qs ! i = Done x"
    and "guarantees (\<lambda>S. S \<in> set Ts) Q (handle_program P (ps ! i))"
  shows "Q x"
  using pool_trace_program [OF assms(1), of "set Ts" i Q] assms(2-4)
  by (simp add: request_pool_def)

lemmas read_programs = dispatch_program_def function_code_of_byte_def reads_cells_def
  read_coils_execute_def read_discrete_inputs_execute_def read_holding_registers_execute_def
  read_input_registers_execute_def

lemma trace_registers_seen:
  assumes "platform_ok P" "table_inv T" "pool_trace (T, request_pool P ps) Ts (T', qs)"
    and "i < length ps" "qs ! i = Done x" "ps ! i = p"
    and f: "(f, area) \<in> {(0x03, holding_registers), (0x04, input_registers)}"
    and p: "reads_cells area f 125 T p"
  defines "n \<equiv> unat (packet_u16 p 10)"
  shows "\<exists>vs. x = Ok (adu_packet (packet_u16 p 0) (p ! 6) f (word_of_nat (2 * n) # registers_bytes vs)) \<and>
    length vs = n \<and> seen_at area (set Ts) (unat (packet_u16 p 8)) vs"
proof -
  note like = trace_tables_like [OF assms(1-3)]
  have p7: "p ! 7 = f" using p by (simp add: reads_cells_def)
  have "guarantees (\<lambda>S. S \<in> set Ts)
    (\<lambda>x. \<exists>vs. x = Ok (adu_packet (packet_u16 p 0) (p ! 6) (p ! 7) (word_of_nat (2 * n) # registers_bytes vs)) \<and>
       length vs = n \<and> seen_at area (set Ts) (unat (packet_u16 p 8)) vs) (handle_program P p)"
    using f p
      handle_registers_seen [OF assms(1) like steady_areas(3), where fc = read_holding_registers and p = p]
      handle_registers_seen [OF assms(1) like steady_areas(4), where fc = read_input_registers and p = p]
    by (elim insertE emptyE; simp add: read_programs n_def)
  from trace_reply [OF assms(3-5) this [folded assms(6)]] show ?thesis by (simp add: assms(6) p7)
qed

lemma trace_bits_seen:
  assumes "platform_ok P" "table_inv T" "pool_trace (T, request_pool P ps) Ts (T', qs)"
    and "i < length ps" "qs ! i = Done x" "ps ! i = p"
    and f: "(f, area) \<in> {(0x01, coils), (0x02, discrete_inputs)}"
    and p: "reads_cells area f 2000 T p"
  defines "n \<equiv> unat (packet_u16 p 10)"
  shows "\<exists>vs. x = Ok (adu_packet (packet_u16 p 0) (p ! 6) f (word_of_nat ((n + 7) div 8) # pack_bits vs)) \<and>
    length vs = n \<and> seen_at area (set Ts) (unat (packet_u16 p 8)) vs"
proof -
  note like = trace_tables_like [OF assms(1-3)]
  have p7: "p ! 7 = f" using p by (simp add: reads_cells_def)
  have "guarantees (\<lambda>S. S \<in> set Ts)
    (\<lambda>x. \<exists>vs. x = Ok (adu_packet (packet_u16 p 0) (p ! 6) (p ! 7) (word_of_nat ((n + 7) div 8) # pack_bits vs)) \<and>
       length vs = n \<and> seen_at area (set Ts) (unat (packet_u16 p 8)) vs) (handle_program P p)"
    using f p
      handle_bits_seen [OF assms(1) like steady_areas(1), where fc = read_coils and p = p]
      handle_bits_seen [OF assms(1) like steady_areas(2), where fc = read_discrete_inputs and p = p]
    by (elim insertE emptyE; simp add: read_programs n_def)
  from trace_reply [OF assms(3-5) this [folded assms(6)]] show ?thesis by (simp add: assms(6) p7)
qed

end
