(* ===== verification/Modbus_Interleaving.thy ===== *)
theory Modbus_Interleaving
  imports Modbus_Register_Write
begin

text \<open>
  The server runs its receive callback on several threads, and every access to a block holds
  the block's lock for that access only. \<open>response::mask_write_register::encode\<close> makes two
  accesses, a \<open>get\<close> and a \<open>set\<close> of a value computed from what it got. Here its table accesses
  are steps of their own, and several mask writes run interleaved.
\<close>

section \<open>Mask writes as steps\<close>

record mask_job =
  job_address :: address_t
  job_and :: u16
  job_or :: u16

text \<open>Where a mask write stands: before its \<open>get\<close>, with the value it got, or done.\<close>

datatype mask_phase = Todo | Got u16 | Finished

definition mask_value :: "mask_job \<Rightarrow> u16 \<Rightarrow> u16" where
  "mask_value j cur = or (and cur (job_and j)) (job_or j)"

inductive mask_step ::
    "mask_job list \<Rightarrow> u16 block \<times> mask_phase list \<Rightarrow> u16 block \<times> mask_phase list \<Rightarrow> bool"
  for jobs where
  get_current: "i < length jobs \<Longrightarrow> ps ! i = Todo \<Longrightarrow>
    block_get b (job_address (jobs ! i)) = Ok cur \<Longrightarrow>
    mask_step jobs (b, ps) (b, ps[i := Got cur])"
| set_new: "i < length jobs \<Longrightarrow> ps ! i = Got cur \<Longrightarrow>
    block_set b (job_address (jobs ! i)) (mask_value (jobs ! i) cur) = Ok b' \<Longrightarrow>
    mask_step jobs (b, ps) (b', ps[i := Finished])"

inductive_cases mask_stepE: "mask_step jobs (b, ps) (b', ps')"

abbreviation mask_steps ::
    "mask_job list \<Rightarrow> u16 block \<times> mask_phase list \<Rightarrow> u16 block \<times> mask_phase list \<Rightarrow> bool" where
  "mask_steps jobs \<equiv> (mask_step jobs)\<^sup>*\<^sup>*"

definition cell_value :: "u16 block \<Rightarrow> address_t \<Rightarrow> u16" where
  "cell_value b a = the (block_cells b (unat (meta_get a)))"

section \<open>Facts\<close>

text \<open>The two accesses of one mask write, one after the other, are what \<open>encode\<close> does.\<close>

lemma block_get_cell:
  "block_inv b \<Longrightarrow> in_block b a 1 \<Longrightarrow> block_get b a = Ok (cell_value b a)"
  by (simp add: block_get_eq stored_one cell_value_def del: One_nat_def)

lemma block_set_cell:
  "block_inv b \<Longrightarrow> in_block b a 1 \<Longrightarrow> block_set b a v = Ok (store b a [v])"
  by (simp add: block_set_eq)

lemma cell_value_store [simp]:
  "block_inv b \<Longrightarrow> in_block b a 1 \<Longrightarrow> cell_value (store b a [v]) a = v"
  using store_cells [of b a "[v]"] by (simp add: cell_value_def put_cells_def)

lemma encode_is_two_steps:
  fixes rs :: mask_write_register_response
  defines "rq \<equiv> mws_request rs"
  defines "job \<equiv> \<lparr>job_address = mwq_address rq, job_and = meta_get (mwq_and_mask rq),
                 job_or = meta_get (mwq_or_mask rq)\<rparr>"
  assumes P: "platform_ok P" and inv: "block_inv (holding_registers T)"
    and i: "in_block (holding_registers T) (mwq_address rq) 1"
  shows "mask_steps [job] (holding_registers T, [Todo])
    (holding_registers (snd (snd (mask_write_register_response_encode P (rs, T)))), [Finished])"
proof -
  let ?b = "holding_registers T" and ?a = "mwq_address rq"
  let ?cur = "stored ?b ?a 1 ! 0"
  have "mask_step [job] (?b, [Todo]) (?b, [Todo][0 := Got ?cur])"
    by (rule get_current) (use inv i in \<open>simp_all add: block_get_eq job_def\<close>)
  moreover have "mask_step [job] (?b, [Got ?cur])
      (store ?b ?a [mask_value job ?cur], [Got ?cur][0 := Finished])"
    by (rule set_new) (use inv i in \<open>simp_all add: block_set_eq job_def\<close>)
  ultimately have "mask_steps [job] (?b, [Todo]) (store ?b ?a [mask_value job ?cur], [Finished])"
    by (simp add: rtranclp.rtrancl_into_rtrancl)
  moreover have "holding_registers (snd (snd (mask_write_register_response_encode P (rs, T)))) =
      store ?b ?a [mask_value job ?cur]"
    using mask_write_register_response_encode_eq [OF P inv, of rs] i
    by (simp add: rq_def [symmetric] job_def mask_value_def)
  ultimately show ?thesis by simp
qed

text \<open>Two mask writes of the same register.\<close>

definition mask_pair :: "u16 block \<Rightarrow> mask_job \<Rightarrow> mask_job \<Rightarrow> bool" where
  "mask_pair b j1 j2 \<longleftrightarrow> block_inv b \<and> job_address j2 = job_address j1 \<and>
     in_block b (job_address j1) 1"

lemma mask_pair_store [simp]:
  "mask_pair b j1 j2 \<Longrightarrow> mask_pair (store b (job_address j1) [v]) j1 j2"
  by (simp add: mask_pair_def)

lemma first_gets:
  "mask_pair b j1 j2 \<Longrightarrow> cell_value b (job_address j1) = cur \<Longrightarrow>
   mask_step [j1, j2] (b, [Todo, p]) (b, [Got cur, p])"
  using get_current [of 0 "[j1, j2]" "[Todo, p]" b]
  by (simp add: mask_pair_def block_get_cell)

lemma first_sets:
  "mask_pair b j1 j2 \<Longrightarrow> mask_step [j1, j2] (b, [Got cur, p])
     (store b (job_address j1) [mask_value j1 cur], [Finished, p])"
  using set_new [of 0 "[j1, j2]" "[Got cur, p]" cur b]
  by (simp add: mask_pair_def block_set_cell)

lemma second_gets:
  "mask_pair b j1 j2 \<Longrightarrow> cell_value b (job_address j1) = cur \<Longrightarrow>
   mask_step [j1, j2] (b, [p, Todo]) (b, [p, Got cur])"
  using get_current [of 1 "[j1, j2]" "[p, Todo]" b]
  by (simp add: mask_pair_def block_get_cell)

lemma second_sets:
  "mask_pair b j1 j2 \<Longrightarrow> mask_step [j1, j2] (b, [p, Got cur])
     (store b (job_address j1) [mask_value j2 cur], [p, Finished])"
  using set_new [of 1 "[j1, j2]" "[p, Got cur]" cur b]
  by (simp add: mask_pair_def block_set_cell)

lemmas mask_pair_steps = first_gets first_sets second_gets second_sets

text \<open>
  What can be in the register, by how far the two writes are; \<open>f\<close> and \<open>g\<close> are the functions
  they apply, \<open>x\<close> the value before both.
\<close>

fun mask_pair_value :: "(u16 \<Rightarrow> u16) \<Rightarrow> (u16 \<Rightarrow> u16) \<Rightarrow> u16 \<Rightarrow> mask_phase \<Rightarrow> mask_phase \<Rightarrow> u16 \<Rightarrow> bool" where
  "mask_pair_value f g x Todo Todo c = (c = x)"
| "mask_pair_value f g x (Got v) Todo c = (c = x \<and> v = x)"
| "mask_pair_value f g x Todo (Got w) c = (c = x \<and> w = x)"
| "mask_pair_value f g x (Got v) (Got w) c = (c = x \<and> v = x \<and> w = x)"
| "mask_pair_value f g x Finished Todo c = (c = f x)"
| "mask_pair_value f g x Todo Finished c = (c = g x)"
| "mask_pair_value f g x Finished (Got w) c = (c = f x \<and> w \<in> {x, f x})"
| "mask_pair_value f g x (Got v) Finished c = (c = g x \<and> v \<in> {x, g x})"
| "mask_pair_value f g x Finished Finished c = (c \<in> {f x, g x, g (f x), f (g x)})"

definition mask_pair_state ::
    "mask_job \<Rightarrow> mask_job \<Rightarrow> u16 \<Rightarrow> u16 block \<times> mask_phase list \<Rightarrow> bool" where
  "mask_pair_state j1 j2 x s \<longleftrightarrow>
     (\<exists>p1 p2. snd s = [p1, p2] \<and> mask_pair (fst s) j1 j2 \<and>
        mask_pair_value (mask_value j1) (mask_value j2) x p1 p2
          (cell_value (fst s) (job_address j1)))"

lemma mask_pair_state_step:
  assumes "mask_step [j1, j2] s s'" "mask_pair_state j1 j2 x s"
  shows "mask_pair_state j1 j2 x s'"
  using assms(1)
proof cases
  case (get_current i ps b cur)
  obtain p1 p2 where p: "ps = [p1, p2]" "mask_pair b j1 j2"
    "mask_pair_value (mask_value j1) (mask_value j2) x p1 p2 (cell_value b (job_address j1))"
    using assms(2) get_current(1) by (auto simp: mask_pair_state_def)
  have cur: "cur = cell_value b (job_address j1)"
    using p(2) get_current(3,5) by (auto simp: mask_pair_def block_get_cell less_Suc_eq)
  have "i = 0 \<or> i = 1" using get_current(3) by auto
  then show ?thesis
  proof
    assume "i = 0"
    with p cur get_current(2,4) show ?thesis
      by (cases p2) (auto simp: mask_pair_state_def)
  next
    assume "i = 1"
    with p cur get_current(2,4) show ?thesis
      by (cases p1) (auto simp: mask_pair_state_def)
  qed
next
  case (set_new i ps cur b b')
  obtain p1 p2 where p: "ps = [p1, p2]" "mask_pair b j1 j2"
    "mask_pair_value (mask_value j1) (mask_value j2) x p1 p2 (cell_value b (job_address j1))"
    using assms(2) set_new(1) by (auto simp: mask_pair_state_def)
  have b': "b' = store b (job_address j1) [mask_value ([j1, j2] ! i) cur]"
    using p(2) set_new(3,5) by (auto simp: mask_pair_def block_set_cell less_Suc_eq)
  have v: "cell_value (store b (job_address j1) [v]) (job_address j1) = v" for v
    using p(2) by (simp add: mask_pair_def)
  have "i = 0 \<or> i = 1" using set_new(3) by auto
  then show ?thesis
  proof
    assume "i = 0"
    with p b' v set_new(2,4) show ?thesis
      by (cases p2) (auto simp: mask_pair_state_def)
  next
    assume "i = 1"
    with p b' v set_new(2,4) show ?thesis
      by (cases p1) (auto simp: mask_pair_state_def)
  qed
qed

lemma mask_pair_state_steps:
  "mask_steps [j1, j2] s s' \<Longrightarrow> mask_pair_state j1 j2 x s \<Longrightarrow> mask_pair_state j1 j2 x s'"
  by (induction rule: rtranclp_induct) (auto intro: mask_pair_state_step)

lemma mask_pair_sequential:
  assumes "mask_pair b j1 j2"
  shows "\<exists>b'. mask_steps [j1, j2] (b, [Todo, Todo]) (b', [Finished, Finished]) \<and>
    cell_value b' (job_address j1) =
      mask_value j2 (mask_value j1 (cell_value b (job_address j1)))"
proof -
  let ?a = "job_address j1" and ?x = "cell_value b (job_address j1)"
  let ?b = "store b ?a [mask_value j1 ?x]"
  let ?y = "mask_value j1 ?x"
  have y: "cell_value ?b ?a = ?y" using assms by (simp add: mask_pair_def)
  have s: "mask_pair ?b j1 j2" using assms by simp
  note first_gets [OF assms refl, of Todo] first_sets [OF assms, of ?x Todo]
    second_gets [OF s y, of Finished] second_sets [OF s, of Finished ?y]
  then have "mask_steps [j1, j2] (b, [Todo, Todo])
      (store ?b ?a [mask_value j2 ?y], [Finished, Finished])"
    by (meson rtranclp.rtrancl_into_rtrancl rtranclp.rtrancl_refl)
  moreover have "cell_value (store ?b ?a [mask_value j2 ?y]) ?a = mask_value j2 ?y"
    using s by (simp add: mask_pair_def)
  ultimately show ?thesis by blast
qed

lemma mask_pair_overlapped:
  assumes "mask_pair b j1 j2"
  shows "\<exists>b'. mask_steps [j1, j2] (b, [Todo, Todo]) (b', [Finished, Finished]) \<and>
    cell_value b' (job_address j1) = mask_value j2 (cell_value b (job_address j1))"
proof -
  let ?a = "job_address j1" and ?x = "cell_value b (job_address j1)"
  let ?b = "store b ?a [mask_value j1 ?x]"
  have s: "mask_pair ?b j1 j2" using assms by simp
  note first_gets [OF assms refl, of Todo] second_gets [OF assms refl, of "Got ?x"]
    first_sets [OF assms, of ?x "Got ?x"] second_sets [OF s, of Finished ?x]
  then have "mask_steps [j1, j2] (b, [Todo, Todo])
      (store ?b ?a [mask_value j2 ?x], [Finished, Finished])"
    by (meson rtranclp.rtrancl_into_rtrancl rtranclp.rtrancl_refl)
  moreover have "cell_value (store ?b ?a [mask_value j2 ?x]) ?a = mask_value j2 ?x"
    using s by (simp add: mask_pair_def)
  ultimately show ?thesis by blast
qed

text \<open>
  A run that does not overlap the two writes applies both masks; a run in which both read first
  ends with the mask of the second alone. Nothing else can come out than these two and their
  mirror images.
\<close>

lemma mask_write_lost_update:
  assumes "mask_pair b j1 j2"
  defines "x \<equiv> cell_value b (job_address j1)"
  shows "(\<exists>b'. mask_steps [j1, j2] (b, [Todo, Todo]) (b', [Finished, Finished]) \<and>
       cell_value b' (job_address j1) = mask_value j2 (mask_value j1 x)) \<and>
    (\<exists>b'. mask_steps [j1, j2] (b, [Todo, Todo]) (b', [Finished, Finished]) \<and>
       cell_value b' (job_address j1) = mask_value j2 x)"
  unfolding x_def
  by (intro conjI mask_pair_sequential mask_pair_overlapped assms(1))

lemma mask_write_outcomes:
  assumes "mask_pair b j1 j2" "mask_steps [j1, j2] (b, [Todo, Todo]) (b', [Finished, Finished])"
  defines "x \<equiv> cell_value b (job_address j1)"
  shows "cell_value b' (job_address j1) \<in>
    {mask_value j1 x, mask_value j2 x, mask_value j2 (mask_value j1 x),
     mask_value j1 (mask_value j2 x)}"
proof -
  have "mask_pair_state j1 j2 x (b, [Todo, Todo])"
    using assms(1) by (simp add: mask_pair_state_def x_def)
  from mask_pair_state_steps [OF assms(2) this] show ?thesis
    by (auto simp: mask_pair_state_def)
qed

end
