(* ===== verification/Modbus_Concurrent_Masks.thy ===== *)
theory Modbus_Concurrent_Masks
  imports Modbus_Concurrent_Requests Modbus_Interleaving
begin

text \<open>
  Two mask write requests in a pool: their programs make the steps of \<open>Modbus_Interleaving\<close>.
  A request checks the address, gets the register, and sets it; the pool is followed by the
  phases of the two writes, so that what these can do to the register is what two requests
  can do.
\<close>

primrec next_access :: "('s, 'a) prog \<Rightarrow> 's \<Rightarrow> (('s, 'a) prog \<times> 's) option" where
  "next_access (Done a) s = None"
| "next_access (Access k) s = Some (k s)"

lemma pool_step_iff:
  "pool_step (s, ps) (t, qs) \<longleftrightarrow>
     (\<exists>i p. i < length ps \<and> next_access (ps ! i) s = Some (p, t) \<and> qs = ps[i := p])"
proof
  assume "pool_step (s, ps) (t, qs)"
  then show "\<exists>i p. i < length ps \<and> next_access (ps ! i) s = Some (p, t) \<and> qs = ps[i := p]"
    by cases force
next
  assume "\<exists>i p. i < length ps \<and> next_access (ps ! i) s = Some (p, t) \<and> qs = ps[i := p]"
  then obtain i p where i: "i < length ps" "next_access (ps ! i) s = Some (p, t)" "qs = ps[i := p]"
    by blast
  then obtain k where "ps ! i = Access k" "k s = (p, t)" by (cases "ps ! i") auto
  with i show "pool_step (s, ps) (t, qs)" using pool_access [of i ps k s] by simp
qed

section \<open>The phases of a mask write request\<close>

definition mask_request :: "table \<Rightarrow> packet_t \<Rightarrow> bool" where
  "mask_request T p \<longleftrightarrow> 14 \<le> length p \<and> p ! 7 = 0x16 \<and>
     in_block (holding_registers T) (Metadata (packet_u16 p 8)) 1"

definition job_of :: "packet_t \<Rightarrow> mask_job" where
  "job_of p = \<lparr>job_address = Metadata (packet_u16 p 8), job_and = packet_u16 p 10,
     job_or = packet_u16 p 12\<rparr>"

definition mask_reply :: "packet_t \<Rightarrow> packet_t" where
  "mask_reply p = adu_packet (packet_u16 p 0) (p ! 6) 0x16
     (u16_bytes (packet_u16 p 8) @ u16_bytes (packet_u16 p 10) @ u16_bytes (packet_u16 p 12))"

lemma next_access_bind:
  "next_access p s = Some (q, t) \<Longrightarrow> next_access (bind_prog p f) s = Some (bind_prog q f, t)"
  by (cases p) simp_all

lemma mask_program_accesses:
  fixes rs :: mask_write_register_response
  defines "rq \<equiv> mws_request rs"
  assumes P: "platform_ok P" and i: "in_block (holding_registers T0) (mwq_address rq) 1"
  obtains M rs' where
    "\<And>T. table_like T0 T \<Longrightarrow> next_access (mask_write_register_program P rs) T =
       Some (M (cell_value (holding_registers T) (mwq_address rq)), T)"
    "\<And>T v. table_like T0 T \<Longrightarrow> next_access (M v) T =
       Some (Done (Ok (adu_packet (adu_transaction rs) (adu_unit rs) (adu_function_code rs)
           (u16_bytes (meta_get (mwq_address rq)) @ u16_bytes (meta_get (mwq_and_mask rq)) @
            u16_bytes (meta_get (mwq_or_mask rq)))), rs'),
         T\<lparr>holding_registers := store (holding_registers T) (mwq_address rq)
            [or (and v (meta_get (mwq_and_mask rq))) (meta_get (mwq_or_mask rq))]\<rparr>)"
proof -
  let ?packet = "header_bytes (calc_length 6 rs) @ u16_bytes (meta_get (mwq_address rq)) @
    u16_bytes (meta_get (mwq_and_mask rq)) @ u16_bytes (meta_get (mwq_or_mask rq))"
  define M where "M = (\<lambda>v. encode_catch_shared
    (then_shared (write_shared (\<lambda>r T.
       bind_outcome (block_set (holding_registers T) (mwq_address (mws_request r))
          (or (and v (meta_get (mwq_and_mask (mws_request r)))) (meta_get (mwq_or_mask (mws_request r)))))
         (\<lambda>b. Ok (T\<lparr>holding_registers := b\<rparr>))))
    (then_shared (object_set (\<lambda>r. r\<lparr>mws_address := mwq_address (mws_request r),
        mws_and_mask := mwq_and_mask (mws_request r), mws_or_mask := mwq_or_mask (mws_request r)\<rparr>))
    (give ?packet))) (calc_length 6 rs))"
  show thesis
  proof (rule that [of M])
    fix T v assume T: "table_like T0 T"
    note facts = table_likeD [OF T] i rq_def [symmetric]
    show "next_access (mask_write_register_program P rs) T =
        Some (M (cell_value (holding_registers T) (mwq_address rq)), T)"
      using facts
      by (simp add: mask_write_register_program_def M_def encode_catch_shared_def prog_simps
          header_packet_eq [OF P] pack_u16s [OF P] check_response_packet_def Let_def
          mask_write_register_response_size_def block_get_cell del: One_nat_def)
    show "next_access (M v) T = Some (Done (Ok (adu_packet (adu_transaction rs) (adu_unit rs)
           (adu_function_code rs) (u16_bytes (meta_get (mwq_address rq)) @
            u16_bytes (meta_get (mwq_and_mask rq)) @ u16_bytes (meta_get (mwq_or_mask rq)))),
           (calc_length 6 rs)\<lparr>mws_address := mwq_address rq, mws_and_mask := mwq_and_mask rq,
              mws_or_mask := mwq_or_mask rq\<rparr>),
         T\<lparr>holding_registers := store (holding_registers T) (mwq_address rq)
            [or (and v (meta_get (mwq_and_mask rq))) (meta_get (mwq_or_mask rq))]\<rparr>)"
      using facts
      by (simp add: M_def encode_catch_shared_def prog_simps block_set_eq header_bytes_six
          del: One_nat_def)
  qed
qed

lemma mask_request_program:
  assumes P: "platform_ok P" and p: "14 \<le> length p" "p ! 7 = 0x16"
  obtains rs where
    "mws_request rs = (take_header p new_mask_write_register_request)
       \<lparr>mwq_address := Metadata (packet_u16 p 8), mwq_and_mask := Metadata (packet_u16 p 10),
        mwq_or_mask := Metadata (packet_u16 p 12)\<rparr>"
    "adu_transaction rs = packet_u16 p 0" "adu_unit rs = p ! 6" "adu_function_code rs = 0x16"
    "\<And>T. in_block (holding_registers T) (Metadata (packet_u16 p 8)) 1 \<Longrightarrow>
      next_access (handle_program P p) T =
        Some (bind_prog (bind_prog (mask_write_register_program P rs) (\<lambda>(x, _). Done x))
                (\<lambda>x. case x of Throw e \<Rightarrow> Done (report_outcome P e) | _ \<Rightarrow> Done x), T)"
proof -
  let ?rq = "(take_header p new_mask_write_register_request)
       \<lparr>mwq_address := Metadata (packet_u16 p 8), mwq_and_mask := Metadata (packet_u16 p 10),
        mwq_or_mask := Metadata (packet_u16 p 12)\<rparr>"
  let ?rs = "make_mask_write_register_response ?rq"
  show thesis
  proof (rule that [of ?rs])
    show "adu_function_code ?rs = 0x16"
      using p by (simp add: take_header_def function_code_of_byte_def check_function_def)
  qed (use p in \<open>simp_all add: handle_program_def header_length_def dispatch_program_def
      function_code_of_byte_def function_program_def mask_write_register_decode_eq [OF P]
      mask_write_register_execute_eq\<close>)
qed

text \<open>The three accesses of a mask write request: the check, the \<open>get\<close> and the \<open>set\<close>.\<close>

definition set_register :: "table \<Rightarrow> packet_t \<Rightarrow> u16 \<Rightarrow> table" where
  "set_register T p v =
     T\<lparr>holding_registers := store (holding_registers T) (Metadata (packet_u16 p 8)) [v]\<rparr>"

definition register_of :: "table \<Rightarrow> packet_t \<Rightarrow> u16" where
  "register_of T p = cell_value (holding_registers T) (Metadata (packet_u16 p 8))"

definition mask_phases ::
    "platform \<Rightarrow> table \<Rightarrow> packet_t \<Rightarrow> (table, (exn, packet_t) outcome) prog \<Rightarrow>
     (u16 \<Rightarrow> (table, (exn, packet_t) outcome) prog) \<Rightarrow> bool" where
  "mask_phases P T0 p K M \<longleftrightarrow>
     (\<forall>T. table_like T0 T \<longrightarrow>
        next_access (handle_program P p) T = Some (K, T) \<and>
        next_access K T = Some (M (register_of T p), T) \<and>
        (\<forall>v. next_access (M v) T =
           Some (Done (Ok (mask_reply p)), set_register T p (mask_value (job_of p) v))))"

lemma mask_phases_exist:
  assumes P: "platform_ok P" and p: "mask_request T0 p"
  obtains K M where "mask_phases P T0 p K M"
proof -
  let ?a = "Metadata (packet_u16 p 8)"
  have i: "in_block (holding_registers T0) ?a 1" "14 \<le> length p" "p ! 7 = 0x16"
    using p by (simp_all add: mask_request_def)
  obtain rs where rs: "mws_request rs = (take_header p new_mask_write_register_request)
       \<lparr>mwq_address := ?a, mwq_and_mask := Metadata (packet_u16 p 10),
        mwq_or_mask := Metadata (packet_u16 p 12)\<rparr>"
    "adu_transaction rs = packet_u16 p 0" "adu_unit rs = p ! 6" "adu_function_code rs = 0x16"
    and first: "\<And>T. in_block (holding_registers T) ?a 1 \<Longrightarrow>
      next_access (handle_program P p) T =
        Some (bind_prog (bind_prog (mask_write_register_program P rs) (\<lambda>(x, _). Done x))
                (\<lambda>x. case x of Throw e \<Rightarrow> Done (report_outcome P e) | _ \<Rightarrow> Done x), T)"
    by (rule mask_request_program [OF P i(2,3)]) (rule that)
  have "in_block (holding_registers T0) (mwq_address (mws_request rs)) 1" using i(1) rs(1) by simp
  note accesses = mask_program_accesses [OF P this]
  obtain N rs' where N0: "\<And>T. table_like T0 T \<Longrightarrow> next_access (mask_write_register_program P rs) T =
       Some (N (cell_value (holding_registers T) (mwq_address (mws_request rs))), T)"
    and set0: "\<And>T v. table_like T0 T \<Longrightarrow> next_access (N v) T =
       Some (Done (Ok (adu_packet (adu_transaction rs) (adu_unit rs) (adu_function_code rs)
           (u16_bytes (meta_get (mwq_address (mws_request rs))) @
            u16_bytes (meta_get (mwq_and_mask (mws_request rs))) @
            u16_bytes (meta_get (mwq_or_mask (mws_request rs))))), rs'),
         T\<lparr>holding_registers := store (holding_registers T) (mwq_address (mws_request rs))
            [or (and v (meta_get (mwq_and_mask (mws_request rs))))
                (meta_get (mwq_or_mask (mws_request rs)))]\<rparr>)"
    by (rule accesses) (rule that)
  have N: "next_access (mask_write_register_program P rs) T = Some (N (register_of T p), T)"
    if "table_like T0 T" for T
    using N0 [OF that] by (simp add: rs register_of_def)
  have set: "next_access (N v) T =
      Some (Done (Ok (mask_reply p), rs'), set_register T p (mask_value (job_of p) v))"
    if "table_like T0 T" for T v
    using set0 [OF that] by (simp add: rs set_register_def mask_reply_def mask_value_def job_of_def)
  let ?rest = "\<lambda>q. bind_prog (bind_prog q (\<lambda>(x, _). Done x))
    (\<lambda>x. case x of Throw e \<Rightarrow> Done (report_outcome P e) | _ \<Rightarrow> Done x)"
  have "mask_phases P T0 p (?rest (mask_write_register_program P rs)) (\<lambda>v. ?rest (N v))"
    unfolding mask_phases_def
  proof (intro allI impI conjI)
    fix T v assume T: "table_like T0 T"
    show "next_access (handle_program P p) T = Some (?rest (mask_write_register_program P rs), T)"
      using i(1) table_likeD(3) [OF T] by (intro first) simp
    show "next_access (?rest (mask_write_register_program P rs)) T =
        Some (?rest (N (register_of T p)), T)"
      by (rule next_access_bind [OF next_access_bind [OF N [OF T]]])
    show "next_access (?rest (N v)) T =
        Some (Done (Ok (mask_reply p)), set_register T p (mask_value (job_of p) v))"
      by (simp add: next_access_bind [OF next_access_bind [OF set [OF T]]])
  qed
  then show thesis by (rule that)
qed

section \<open>Two mask write requests\<close>

definition mask_at ::
    "platform \<Rightarrow> packet_t \<Rightarrow> (table, (exn, packet_t) outcome) prog \<Rightarrow>
     (u16 \<Rightarrow> (table, (exn, packet_t) outcome) prog) \<Rightarrow>
     (table, (exn, packet_t) outcome) prog \<Rightarrow> mask_phase \<Rightarrow> bool" where
  "mask_at P p K M q ph \<longleftrightarrow>
     (case ph of
        Todo \<Rightarrow> q = handle_program P p \<or> q = K
      | Got v \<Rightarrow> q = M v
      | Finished \<Rightarrow> q = Done (Ok (mask_reply p)))"

lemma set_register_like:
  "table_like T0 T \<Longrightarrow> mask_request T0 p \<Longrightarrow> table_like T0 (set_register T p v)"
  by (auto simp: set_register_def mask_request_def intro: table_like_store)

text \<open>An access of one request is no step or one step of its mask write.\<close>

lemma mask_access:
  assumes "mask_phases P T0 p K M" "mask_request T0 p" "table_like T0 T" "mask_at P p K M q ph"
    and "next_access q T = Some (q', T')"
    and "i < length jobs" "jobs ! i = job_of p" "i < length phs" "phs ! i = ph"
  shows "table_like T0 T' \<and> (\<exists>ph'. mask_at P p K M q' ph' \<and>
    mask_steps jobs (holding_registers T, phs) (holding_registers T', phs[i := ph']))"
proof -
  let ?b = "holding_registers T" and ?a = "Metadata (packet_u16 p 8)"
  have b: "block_inv ?b" "in_block ?b ?a 1"
    using table_likeD [OF assms(3)] assms(2) by (simp_all add: mask_request_def)
  have m: "next_access (handle_program P p) T = Some (K, T)"
    "next_access K T = Some (M (register_of T p), T)"
    "next_access (M v) T =
       Some (Done (Ok (mask_reply p)), set_register T p (mask_value (job_of p) v))" for v
    using assms(1,3) by (simp_all add: mask_phases_def)
  show ?thesis
  proof (cases ph)
    case Todo
    with assms(4) consider "q = handle_program P p" | "q = K" by (auto simp: mask_at_def)
    then show ?thesis
    proof cases
      case 1
      with m(1) assms(3,5,8,9) Todo have "q' = K" "T' = T" "phs[i := Todo] = phs"
        by (auto simp: list_update_same_conv)
      with assms(3) show ?thesis by (intro conjI exI [of _ Todo]) (simp_all add: mask_at_def)
    next
      case 2
      have "mask_step jobs (?b, phs) (?b, phs[i := Got (register_of T p)])"
        using get_current [of i jobs phs ?b "register_of T p"] assms(6,7,9) Todo b
        by (simp add: job_of_def register_of_def block_get_cell)
      with 2 m(2) assms(3,5) show ?thesis
        by (intro conjI exI [of _ "Got (register_of T p)"]) (auto simp: mask_at_def)
    qed
  next
    case (Got v)
    have "mask_step jobs (?b, phs) (store ?b ?a [mask_value (job_of p) v], phs[i := Finished])"
      using set_new [of i jobs phs v ?b] assms(6,7,9) Got b
      by (simp add: job_of_def block_set_cell)
    with Got m(3) assms(4,5) set_register_like [OF assms(3,2)] show ?thesis
      by (intro conjI exI [of _ Finished]) (auto simp: mask_at_def set_register_def)
  next
    case Finished
    with assms(4,5) show ?thesis by (simp add: mask_at_def)
  qed
qed

definition mask_pool ::
    "platform \<Rightarrow> table \<Rightarrow> packet_t \<Rightarrow> packet_t \<Rightarrow>
     (table, (exn, packet_t) outcome) pool \<Rightarrow> mask_phase list \<Rightarrow> bool" where
  "mask_pool P T0 p1 p2 c phs \<longleftrightarrow>
     (\<exists>K1 M1 K2 M2 q1 q2 ph1 ph2. table_like T0 (fst c) \<and> snd c = [q1, q2] \<and> phs = [ph1, ph2] \<and>
        mask_phases P T0 p1 K1 M1 \<and> mask_phases P T0 p2 K2 M2 \<and>
        mask_at P p1 K1 M1 q1 ph1 \<and> mask_at P p2 K2 M2 q2 ph2)"

lemma mask_pool_step:
  assumes "pool_step c d" "mask_pool P T0 p1 p2 c phs" "mask_request T0 p1" "mask_request T0 p2"
  shows "\<exists>phs'. mask_pool P T0 p1 p2 d phs' \<and>
    mask_steps [job_of p1, job_of p2] (holding_registers (fst c), phs) (holding_registers (fst d), phs')"
proof -
  obtain K1 M1 K2 M2 q1 q2 ph1 ph2 where c: "table_like T0 (fst c)" "snd c = [q1, q2]"
    "phs = [ph1, ph2]" and m: "mask_phases P T0 p1 K1 M1" "mask_phases P T0 p2 K2 M2"
    and at: "mask_at P p1 K1 M1 q1 ph1" "mask_at P p2 K2 M2 q2 ph2"
    using assms(2) by (auto simp: mask_pool_def)
  have "pool_step (fst c, [q1, q2]) (fst d, snd d)" using assms(1) c(2) by (metis prod.collapse)
  then have "\<exists>i p. i < length [q1, q2] \<and> next_access ([q1, q2] ! i) (fst c) = Some (p, fst d) \<and>
      snd d = [q1, q2][i := p]"
    by (rule iffD1 [OF pool_step_iff])
  then obtain i q where i: "i < length [q1, q2]"
    and q: "next_access ([q1, q2] ! i) (fst c) = Some (q, fst d)" "snd d = [q1, q2][i := q]"
    by (elim exE conjE) (rule that)
  from i have "i < 2" by simp
  then consider "i = 0" | "i = 1" by linarith
  then show ?thesis
  proof cases
    case 1
    obtain ph where "mask_at P p1 K1 M1 q ph" "table_like T0 (fst d)"
      "mask_steps [job_of p1, job_of p2] (holding_registers (fst c), phs)
         (holding_registers (fst d), phs[0 := ph])"
      using mask_access [OF m(1) assms(3) c(1) at(1), of q "fst d" 0 "[job_of p1, job_of p2]" phs]
        q(1) 1 c(3) by auto
    with 1 q(2) c(3) m at(2) show ?thesis
      by (intro exI [of _ "[ph, ph2]"]) (auto simp: mask_pool_def)
  next
    case 2
    obtain ph where "mask_at P p2 K2 M2 q ph" "table_like T0 (fst d)"
      "mask_steps [job_of p1, job_of p2] (holding_registers (fst c), phs)
         (holding_registers (fst d), phs[1 := ph])"
      using mask_access [OF m(2) assms(4) c(1) at(2), of q "fst d" 1 "[job_of p1, job_of p2]" phs]
        q(1) 2 c(3) by auto
    with 2 q(2) c(3) m at(1) show ?thesis
      by (intro exI [of _ "[ph1, ph]"]) (auto simp: mask_pool_def)
  qed
qed

lemma mask_pool_steps:
  assumes "pool_steps c d" "mask_pool P T0 p1 p2 c phs" "mask_request T0 p1" "mask_request T0 p2"
  shows "\<exists>phs'. mask_pool P T0 p1 p2 d phs' \<and>
    mask_steps [job_of p1, job_of p2] (holding_registers (fst c), phs) (holding_registers (fst d), phs')"
  using assms(1)
proof (induction rule: rtranclp_induct)
  case base
  then show ?case using assms(2) by auto
next
  case (step d e)
  then show ?case using mask_pool_step [OF step(2) _ assms(3,4)] by (meson rtranclp_trans)
qed

lemma mask_pool_start:
  assumes "platform_ok P" "table_inv T" "mask_request T p1" "mask_request T p2"
  shows "mask_pool P T p1 p2 (T, request_pool P [p1, p2]) [Todo, Todo]"
proof -
  obtain K1 M1 K2 M2 where "mask_phases P T p1 K1 M1" "mask_phases P T p2 K2 M2"
    using mask_phases_exist [OF assms(1)] assms(3,4) by metis
  then show ?thesis
    using table_like_refl [OF assms(2)]
    by (auto simp: mask_pool_def mask_at_def request_pool_def)
qed

text \<open>Finished requests have finished mask writes.\<close>

lemma mask_pool_done:
  assumes "mask_pool P T0 p1 p2 (T, [Done x1, Done x2]) phs"
  shows "phs = [Finished, Finished] \<and> x1 = Ok (mask_reply p1) \<and> x2 = Ok (mask_reply p2)"
proof -
  have fin: "ph = Finished \<and> x = Ok (mask_reply p)"
    if "mask_phases P T0 p K M" "mask_at P p K M (Done x) ph" "table_like T0 T" for p K M x ph
  proof -
    have access: "next_access q T \<noteq> None \<Longrightarrow> q \<noteq> Done x" for q by auto
    have "handle_program P p \<noteq> Done x" "K \<noteq> Done x" "M v \<noteq> Done x" for v
      by (rule access; use that(1,3) in \<open>simp add: mask_phases_def\<close>)+
    then show ?thesis using that(2) by (auto simp: mask_at_def split: mask_phase.splits)
  qed
  show ?thesis using assms by (auto simp: mask_pool_def dest: fin)
qed

lemma access_first: "next_access q T = Some (q', T') \<Longrightarrow> pool_step (T, [q, r]) (T', [q', r])"
  unfolding pool_step_iff by (intro exI [of _ 0]) simp

lemma access_second: "next_access q T = Some (q', T') \<Longrightarrow> pool_step (T, [r, q]) (T', [r, q'])"
  unfolding pool_step_iff by (intro exI [of _ 1]) simp

lemma register_of_set [simp]:
  "table_inv T \<Longrightarrow> mask_request T p \<Longrightarrow> register_of (set_register T p v) p = v"
  by (simp add: register_of_def set_register_def mask_request_def)

text \<open>Two runs: one request after the other, and both registers read before both writes.\<close>

lemma mask_pool_runs:
  assumes P: "platform_ok P" and T: "table_inv T" and m: "mask_request T p1" "mask_request T p2"
    and same: "packet_u16 p2 8 = packet_u16 p1 8"
    and v: "v = mask_value (job_of p2) x \<or> v = mask_value (job_of p2) (mask_value (job_of p1) x)"
    and x: "x = register_of T p1"
  shows "\<exists>T'. pool_steps (T, request_pool P [p1, p2])
      (T', [Done (Ok (mask_reply p1)), Done (Ok (mask_reply p2))]) \<and> register_of T' p1 = v"
proof -
  obtain K1 M1 where m1: "mask_phases P T p1 K1 M1" by (rule mask_phases_exist [OF P m(1)])
  obtain K2 M2 where m2: "mask_phases P T p2 K2 M2" by (rule mask_phases_exist [OF P m(2)])
  let ?y = "mask_value (job_of p1) x" and ?r1 = "Done (Ok (mask_reply p1))"
  let ?T1 = "set_register T p1 ?y" and ?r2 = "Done (Ok (mask_reply p2))"
  have like: "table_like T T" "table_like T ?T1"
    using table_like_refl [OF T] set_register_like [OF _ m(1)] by auto
  have reg: "register_of U p2 = register_of U p1" for U using same by (simp add: register_of_def)
  note a1 = m1 [unfolded mask_phases_def, rule_format, OF like(1)]
    and a2 = m2 [unfolded mask_phases_def, rule_format, OF like(1)]
    and b2 = m2 [unfolded mask_phases_def, rule_format, OF like(2)]
  have y: "register_of ?T1 p2 = ?y" using T m(1) by (simp add: reg)
  have T2: "register_of (set_register ?T1 p2 w) p1 = w" for w
    using table_likeD(1) [OF like(2)] m(2) table_likeD(3) [OF like(2)]
    by (simp add: reg [symmetric] mask_request_def)
  have checks: "pool_steps (T, request_pool P [p1, p2]) (T, [K1, K2])"
  proof -
    have "pool_step (T, request_pool P [p1, p2]) (T, [K1, handle_program P p2])"
      using a1 by (simp add: request_pool_def access_first)
    moreover have "pool_step (T, [K1, handle_program P p2]) (T, [K1, K2])"
      using a2 by (simp add: access_second)
    ultimately show ?thesis by (meson converse_rtranclp_into_rtranclp r_into_rtranclp)
  qed
  have get1: "pool_step (T, [K1, q]) (T, [M1 x, q])" for q
    using a1 by (intro access_first) (simp add: x)
  have set1: "pool_step (T, [M1 x, q]) (?T1, [?r1, q])" for q
    using a1 by (intro access_first) simp
  have get2: "pool_step (T, [q, K2]) (T, [q, M2 x])" for q
    using a2 by (intro access_second) (simp add: x reg)
  have late2: "pool_step (?T1, [q, K2]) (?T1, [q, M2 ?y])" for q
    using b2 by (intro access_second) (simp add: y)
  have set2: "pool_step (?T1, [q, M2 w]) (set_register ?T1 p2 (mask_value (job_of p2) w), [q, ?r2])"
    for q w
    using b2 by (intro access_second) simp
  have "\<exists>w. mask_value (job_of p2) w = v \<and> pool_steps (T, [K1, K2]) (?T1, [?r1, M2 w])"
    using v
  proof
    assume "v = mask_value (job_of p2) x"
    moreover have "pool_steps (T, [K1, K2]) (?T1, [?r1, M2 x])"
      using get1 get2 set1 by (meson rtranclp.rtrancl_into_rtrancl rtranclp.rtrancl_refl)
    ultimately show ?thesis by blast
  next
    assume "v = mask_value (job_of p2) ?y"
    moreover have "pool_steps (T, [K1, K2]) (?T1, [?r1, M2 ?y])"
      using get1 late2 set1 by (meson rtranclp.rtrancl_into_rtrancl rtranclp.rtrancl_refl)
    ultimately show ?thesis by blast
  qed
  then obtain w where w: "mask_value (job_of p2) w = v"
    "pool_steps (T, [K1, K2]) (?T1, [?r1, M2 w])" by blast
  then have "pool_steps (T, request_pool P [p1, p2]) (set_register ?T1 p2 v, [?r1, ?r2])"
    using rtranclp_trans [OF checks w(2)] set2 [of ?r1 w] by (simp add: rtranclp.rtrancl_into_rtrancl)
  with T2 show ?thesis by blast
qed

lemma mask_request_pair:
  "table_inv T \<Longrightarrow> mask_request T p1 \<Longrightarrow> packet_u16 p2 8 = packet_u16 p1 8 \<Longrightarrow>
   mask_pair_state (job_of p1) (job_of p2) (register_of T p1) (holding_registers T, [Todo, Todo])"
  by (simp add: mask_pair_state_def mask_pair_def job_of_def mask_request_def register_of_def)

text \<open>What the register can be at the end, and that nothing else can come out.\<close>

lemma mask_pool_outcome:
  assumes P: "platform_ok P" and T: "table_inv T" and m: "mask_request T p1" "mask_request T p2"
    and same: "packet_u16 p2 8 = packet_u16 p1 8"
    and run: "pool_steps (T, request_pool P [p1, p2]) (T', qs)" "pool_done qs"
  defines "x \<equiv> register_of T p1"
  shows "qs = [Done (Ok (mask_reply p1)), Done (Ok (mask_reply p2))]"
    "register_of T' p1 \<in> {mask_value (job_of p1) x, mask_value (job_of p2) x,
       mask_value (job_of p2) (mask_value (job_of p1) x),
       mask_value (job_of p1) (mask_value (job_of p2) x)}"
proof -
  obtain phs where phs: "mask_pool P T p1 p2 (T', qs) phs"
    and steps: "mask_steps [job_of p1, job_of p2] (holding_registers T, [Todo, Todo])
      (holding_registers T', phs)"
    using mask_pool_steps [OF run(1) mask_pool_start [OF P T m] m] by auto
  have "length qs = 2" using pool_steps_length [OF run(1)] by simp
  with run(2) obtain x1 x2 where qs: "qs = [Done x1, Done x2]"
    by (auto simp: pool_done_def numeral_2_eq_2 length_Suc_conv)
  from mask_pool_done [OF phs [unfolded qs]] have fin: "phs = [Finished, Finished]"
    "qs = [Done (Ok (mask_reply p1)), Done (Ok (mask_reply p2))]" by (simp_all add: qs)
  show "qs = [Done (Ok (mask_reply p1)), Done (Ok (mask_reply p2))]" by (rule fin(2))
  show "register_of T' p1 \<in> {mask_value (job_of p1) x, mask_value (job_of p2) x,
       mask_value (job_of p2) (mask_value (job_of p1) x),
       mask_value (job_of p1) (mask_value (job_of p2) x)}"
    using mask_pair_state_steps [OF steps mask_request_pair [OF T m(1) same]]
    by (auto simp: fin(1) mask_pair_state_def x_def register_of_def job_of_def)
qed

end
