(* ===== verification/Modbus_Concurrent_Torn.thy ===== *)
theory Modbus_Concurrent_Torn
  imports Modbus_Concurrent_Masks
begin

text \<open>
  A request overtaken in the middle of a read: the lock of the block is released before the
  elements are read, and they are read one by one, so another request can be served as a whole
  after some of them. The programs of the reading request are followed up to that point.
\<close>

section \<open>One program of a pool\<close>

lemma pool_step_context:
  assumes "pool_step (s, [p]) (t, [q])"
  shows "pool_step (s, xs @ p # ys) (t, xs @ q # ys)"
proof -
  obtain k where "p = Access k" "q = fst (k s)" "t = snd (k s)"
    using assms by cases (simp add: less_Suc_eq)
  then show ?thesis
    using pool_access [of "length xs" "xs @ p # ys" k s] by simp
qed

lemma pool_steps_context:
  "pool_steps (s, [p]) (t, [q]) \<Longrightarrow> pool_steps (s, xs @ p # ys) (t, xs @ q # ys)"
proof (induction "(t, [q])" arbitrary: t q rule: rtranclp_induct)
  case (step c)
  obtain p' where c: "snd c = [p']"
    using pool_steps_length [OF step(1)] by (auto simp: length_Suc_conv)
  then have "c = (fst c, [p'])" by (simp add: prod_eq_iff)
  with step have "pool_steps (s, xs @ p # ys) (fst c, xs @ p' # ys)" "pool_step (fst c, [p']) (t, [q])"
    by metis+
  then show ?case by (meson pool_step_context rtranclp.rtrancl_into_rtrancl)
qed simp

lemma pool_step_bind: "pool_step (s, [p]) (t, [q]) \<Longrightarrow> pool_step (s, [bind_prog p f]) (t, [bind_prog q f])"
  using next_access_bind [of p s q t f] by (auto simp: pool_step_iff)

lemma pool_steps_bind:
  "pool_steps (s, [p]) (t, [q]) \<Longrightarrow> pool_steps (s, [bind_prog p f]) (t, [bind_prog q f])"
proof (induction "(t, [q])" arbitrary: t q rule: rtranclp_induct)
  case (step c)
  obtain p' where "snd c = [p']"
    using pool_steps_length [OF step(1)] by (auto simp: length_Suc_conv)
  then have "c = (fst c, [p'])" by (simp add: prod_eq_iff)
  with step have "pool_steps (s, [bind_prog p f]) (fst c, [bind_prog p' f])"
    "pool_step (fst c, [p']) (t, [q])" by metis+
  then show ?case by (meson pool_step_bind rtranclp.rtrancl_into_rtrancl)
qed simp

section \<open>Reading some elements\<close>

lemma elements_read:
  assumes "\<And>i. i \<in> set is \<Longrightarrow> i < length (blk_container (area T))" "k \<le> length is"
  shows "pool_steps (T, [bind_shared (read_elements area is) f r])
    (T, [bind_shared (read_elements area (drop k is))
           (\<lambda>vs. f (map ((!) (blk_container (area T))) (take k is) @ vs)) r])"
  using assms
proof (induction k arbitrary: "is" f)
  case (Suc k)
  then obtain i js where js: "is = i # js" by (cases "is") auto
  have "pool_step (T, [bind_shared (read_elements area (i # js)) f r])
      (T, [bind_shared (read_elements area js) (\<lambda>vs. f (blk_container (area T) ! i # vs)) r])"
    using Suc.prems(1) [of i] js unfolding bind_elements_Cons
    by (auto simp: pool_step_iff block_element_def container_element_def)
  moreover have "pool_steps
      (T, [bind_shared (read_elements area js) (\<lambda>vs. f (blk_container (area T) ! i # vs)) r])
      (T, [bind_shared (read_elements area (drop k js))
           (\<lambda>vs. f (blk_container (area T) ! i # map ((!) (blk_container (area T))) (take k js) @ vs)) r])"
    using Suc.IH [of js "\<lambda>vs. f (blk_container (area T) ! i # vs)"] Suc.prems js by simp
  ultimately show ?case
    by (simp add: js converse_rtranclp_into_rtranclp del: read_elements.simps)
qed simp

lemma elements_run:
  assumes "j \<le> length (blk_container (area T))" "i \<le> j"
  shows "run_prog (bind_shared (read_elements area [i..<j]) f r) T =
    run_prog (f (block_elements (area T) (i, j)) r) T"
proof -
  have "alone (bind_shared (read_elements area [i..<j]) f) (r, T) =
      alone (f (block_elements (area T) (i, j))) (r, T)"
    using alone_read_elements [of j area T i r] assms by (simp add: alone_bind bind_act_def)
  then show ?thesis by (auto simp: alone_def split: prod.splits)
qed

lemma map_nth_elements:
  "j \<le> length (blk_container b) \<Longrightarrow> map ((!) (blk_container b)) [i..<j] = block_elements b (i, j)"
  by (auto simp: block_elements_def slice_def intro!: nth_equalityI)


section \<open>A reading request\<close>

lemma registers_overtaken:
  fixes rs :: read_registers_response
  defines "rq \<equiv> rrs_request rs"
  defines "n \<equiv> unat (meta_get (rrq_count rq))" and "a \<equiv> rrq_address rq"
  assumes P: "platform_ok P" and T: "table_inv T"
    and v: "num_regs_validate False (meta_get (rrq_count rq))"
    and i: "in_block (holding_registers T) a n" and k: "k \<le> n"
  obtains R where
    "pool_steps (T, [read_registers_program P holding_registers rs]) (T, [R])"
    "\<And>T'. table_like T T' \<Longrightarrow> fst (fst (run_prog R T')) =
       Ok (adu_packet (adu_transaction rs) (adu_unit rs) (adu_function_code rs)
         (word_of_nat (2 * n) # registers_bytes
            (take k (stored (holding_registers T) a n) @ drop k (stored (holding_registers T') a n))))"
proof -
  let ?b = "holding_registers T" and ?i = "offset (holding_registers T) a"
  let ?is = "[?i..<?i + n]" and ?old = "stored (holding_registers T) a n"
  note facts = read_registers_reply [OF P v [unfolded rq_def], folded rq_def, folded n_def]
  define G where "G = (\<lambda>elems.
     let packet = header_bytes (calc_length (read_registers_byte_count rq + 1) rs) @
           [word_of_nat (2 * n)] @ pack_registers P elems in
     then_shared (object_check
         (\<lambda>r. \<not> check_response_packet (read_registers_response_size (rrs_request r)) packet)
         (\<lambda>r. Specification server_device_failure (adu_function r) (adu_header r)))
       (give packet :: (table, read_registers_response, exn, packet_t) shared_act))"
  define F where "F = (\<lambda>elems.
     then_shared (object_set (\<lambda>r. r\<lparr>rrs_registers := elems\<rparr>))
     (then_shared (object_set (\<lambda>r. calc_length (read_registers_byte_count (rrs_request r) + 1) r))
     (bind_shared (object_get (header_packet P)) (\<lambda>packet.
      bind_shared (object_get (\<lambda>r. pack P ''B'' [unat (read_registers_byte_count (rrs_request r))])) (\<lambda>pdu.
      bind_shared (read_elements holding_registers ?is) (\<lambda>elems.
      let packet = packet @ pdu @ pack_registers P elems in
      then_shared (object_check
          (\<lambda>r. \<not> check_response_packet (read_registers_response_size (rrs_request r)) packet)
          (\<lambda>r. Specification server_device_failure (adu_function r) (adu_header r)))
      (give packet :: (table, read_registers_response, exn, packet_t) shared_act)))))))"
  define handler where "handler = (\<lambda>(x :: (exn, packet_t) outcome, r' :: read_registers_response).
    case x of Ok a \<Rightarrow> Done (Ok a, r')
    | Throw e \<Rightarrow>
        (if e = Std_out_of_range
         then local_act (raise_act (\<lambda>r. Specification illegal_data_address (adu_function r) (adu_header r)))
         else local_act (raise_act (\<lambda>r. Specification server_device_failure (adu_function r) (adu_header r)))) r'
    | Undefined \<Rightarrow> (Done (Undefined, r') :: (table, (exn, packet_t) outcome \<times> read_registers_response) prog))"
  let ?r = "calc_length (read_registers_byte_count rq + 1) (rs\<lparr>rrs_registers := ?old\<rparr>)"
  let ?R = "bind_shared (read_elements holding_registers (drop k ?is)) (\<lambda>vs. G (take k ?old @ vs)) ?r"
  have inside: "?i + n \<le> length (blk_container ?b)"
    using offset_in_container [of ?b a n] T i by simp
  have read: "map ((!) (blk_container ?b)) (take k ?is) = take k ?old"
    unfolding take_map [symmetric] map_nth_elements [OF inside]
    by (simp add: stored_def block_elements_def slice_def)
  have "next_access (read_registers_program P holding_registers rs) T =
      Some (bind_prog (bind_shared (read_elements holding_registers ?is) F rs) handler, T)"
    using i v T
    by (simp add: read_registers_program_def encode_catch_shared_def try_shared_def bind_shared_read
        block_get_slice_eq [OF _ num_regs_positive] rq_def [symmetric] n_def [symmetric] a_def [symmetric]
        F_def handler_def cong: if_cong)
  then have first: "pool_step (T, [read_registers_program P holding_registers rs])
      (T, [bind_prog (bind_shared (read_elements holding_registers ?is) F rs) handler])"
    by (simp add: pool_step_iff)
  have "pool_steps (T, [bind_shared (read_elements holding_registers ?is) F rs]) (T, [F ?old rs])"
    using elements_read [of ?is holding_registers T n F rs] inside
    by (simp add: map_nth_elements bind_give)
  also have "F ?old rs = bind_shared (read_elements holding_registers ?is) G ?r"
    by (simp add: F_def G_def then_shared_def bind_object rq_def [symmetric] n_def [symmetric] facts
        header_packet_eq [OF P] Let_def del: of_nat_mult)
  also have "pool_steps (T, [bind_shared (read_elements holding_registers ?is) G ?r]) (T, [?R])"
    using elements_read [of ?is holding_registers T k G ?r] inside k read by simp
  finally have "pool_steps (T, [read_registers_program P holding_registers rs]) (T, [bind_prog ?R handler])"
    using first by (blast intro: pool_steps_bind converse_rtranclp_into_rtranclp)
  moreover have "fst (fst (run_prog (bind_prog ?R handler) T')) =
       Ok (adu_packet (adu_transaction rs) (adu_unit rs) (adu_function_code rs)
         (word_of_nat (2 * n) # registers_bytes
            (take k ?old @ drop k (stored (holding_registers T') a n))))" if T': "table_like T T'" for T'
  proof -
    let ?new = "stored (holding_registers T') a n"
    have off: "offset (holding_registers T') a = ?i" "in_block (holding_registers T') a n"
      "table_inv T'"
      using table_likeD [OF T'] i by simp_all
    have "block_elements (holding_registers T') (?i + k, ?i + n) = drop k ?new"
      by (simp add: block_elements_def stored_def slice_def off(1) drop_take add.commute)
    moreover have "drop k ?is = [?i + k..<?i + n]" by simp
    moreover have "?i + n \<le> length (blk_container (holding_registers T'))"
      using offset_in_container [of "holding_registers T'" a n] off by simp
    ultimately have run: "run_prog ?R T' = run_prog (G (take k ?old @ drop k ?new) ?r) T'"
      using elements_run [of "?i + n" holding_registers T' "?i + k" "\<lambda>vs. G (take k ?old @ vs)" ?r] k
      by simp
    have "length (take k ?old @ drop k ?new) = n"
      using k T i off by simp
    note body = facts(3) [OF this]
    have "run_prog (G (take k ?old @ drop k ?new) ?r) T' = ((Ok (adu_packet (adu_transaction rs) (adu_unit rs) (adu_function_code rs)
         (word_of_nat (2 * n) # registers_bytes (take k ?old @ drop k ?new))), ?r), T')"
      using body k T i off
      by (simp add: G_def Let_def then_shared_def bind_object pack_registers_eq [OF P]
          check_response_packet_def facts(2,4) rq_def [symmetric] n_def [symmetric] del: of_nat_mult)
    with run show ?thesis by (simp add: handler_def)
  qed
  ultimately show thesis by (rule that)
qed


text \<open>A request that reads holding registers that exist.\<close>

definition registers_request :: "table \<Rightarrow> packet_t \<Rightarrow> bool" where
  "registers_request T p \<longleftrightarrow> 12 \<le> length p \<and> p ! 7 = 0x03 \<and> unat (packet_u16 p 10) \<in> {1..125} \<and>
     in_block (holding_registers T) (Metadata (packet_u16 p 8)) (unat (packet_u16 p 10))"

abbreviation registers_at :: "table \<Rightarrow> packet_t \<Rightarrow> u16 list" where
  "registers_at T p \<equiv>
     stored (holding_registers T) (Metadata (packet_u16 p 8)) (unat (packet_u16 p 10))"

definition registers_reply :: "packet_t \<Rightarrow> u16 list \<Rightarrow> packet_t" where
  "registers_reply p vs =
     adu_packet (packet_u16 p 0) (p ! 6) 0x03
       (word_of_nat (2 * unat (packet_u16 p 10)) # registers_bytes vs)"

lemma request_overtaken:
  assumes P: "platform_ok P" and T: "table_inv T" and p: "registers_request T p"
    and k: "k \<le> unat (packet_u16 p 10)"
  obtains R where
    "pool_steps (T, [handle_program P p]) (T, [R])"
    "\<And>T'. table_like T T' \<Longrightarrow> fst (run_prog R T') =
       Ok (registers_reply p (take k (registers_at T p) @ drop k (registers_at T' p)))"
proof -
  define rq where "rq = (take_header p (new_read_registers_request read_holding_registers))
    \<lparr>rrq_address := Metadata (packet_u16 p 8), rrq_count := Metadata (packet_u16 p 10)\<rparr>"
  define rs where "rs = make_read_registers_response P read_holding_registers rq"
  have p': "12 \<le> length p" "p ! 7 = 0x03" and v: "num_regs_validate False (packet_u16 p 10)"
    and i: "in_block (holding_registers T) (Metadata (packet_u16 p 8)) (unat (packet_u16 p 10))"
    using p by (auto simp: registers_request_def num_regs_validate_unat)
  have rs: "rrs_request rs = rq" "adu_transaction rs = packet_u16 p 0" "adu_unit rs = p ! 6"
    "adu_function_code rs = 0x03"
    by (simp_all add: rs_def rq_def)
  have rq: "rrq_address rq = Metadata (packet_u16 p 8)" "rrq_count rq = Metadata (packet_u16 p 10)"
    by (simp_all add: rq_def)
  let ?wrap = "\<lambda>q. bind_prog (bind_prog q (\<lambda>(x, _). Done x))
    (\<lambda>x. case x of Throw e \<Rightarrow> Done (report_outcome P e) | _ \<Rightarrow> Done x)"
  have "next_access (handle_program P p) T =
      Some (?wrap (read_registers_program P holding_registers rs), T)"
    using p' v i
    by (simp add: handle_program_def header_length_def dispatch_program_def function_code_of_byte_def
        function_program_def read_registers_decode_eq [OF P] read_holding_registers_execute_def
        read_registers_execute_eq rs_def rq_def)
  then have first: "pool_step (T, [handle_program P p])
      (T, [?wrap (read_registers_program P holding_registers rs)])"
    by (simp add: pool_step_iff)
  obtain R where R: "pool_steps (T, [read_registers_program P holding_registers rs]) (T, [R])"
    "\<And>T'. table_like T T' \<Longrightarrow> fst (fst (run_prog R T')) =
       Ok (registers_reply p (take k (registers_at T p) @ drop k (registers_at T' p)))"
    by (rule registers_overtaken [OF P T, of rs k]) (use v i k in \<open>simp_all add: rs rq registers_reply_def\<close>)
  have "pool_steps (T, [handle_program P p]) (T, [?wrap R])"
    using first pool_steps_bind [OF pool_steps_bind [OF R(1)]] by (meson converse_rtranclp_into_rtranclp)
  moreover have "fst (run_prog (?wrap R) T') =
       Ok (registers_reply p (take k (registers_at T p) @ drop k (registers_at T' p)))"
    if "table_like T T'" for T'
    using R(2) [OF that] by (simp split: prod.split) (auto simp: split_beta)
  ultimately show thesis by (rule that)
qed

end
