(* ===== verification/Locked_Programs.thy ===== *)
theory Locked_Programs
  imports Programs
begin

text \<open>
  Programs that also take and release mutexes. \<open>guarded l m\<close> is \<open>m\<close> in the scope of a
  \<open>std::lock_guard\<close> for \<open>l\<close>; \<open>free m\<close> is \<open>m\<close> outside of every such scope. In a pool, a program
  that wants a mutex waits until no program holds it, its own included: a mutex is not
  recursive. \<open>unlocked\<close> leaves the lock operations out and gives a program of \<open>Programs\<close>; every
  run with locks is one without them (\<open>locked_steps_unlocked\<close>). \<open>bracketed\<close> is the discipline
  that excludes deadlocks: at most one mutex at a time, and each is released.
\<close>

section \<open>Programs with lock operations\<close>

datatype ('l, 's, 'a) sync =
    Ret 'a
  | Act "'s \<Rightarrow> ('l, 's, 'a) sync \<times> 's"
  | Lock 'l "('l, 's, 'a) sync"
  | Unlock 'l "('l, 's, 'a) sync"

lemma sync_induct [case_names Ret Act Lock Unlock, induct type: sync]:
  assumes "\<And>a. P (Ret a)" "\<And>k. (\<And>s. P (fst (k s))) \<Longrightarrow> P (Act k)"
    "\<And>l p. P p \<Longrightarrow> P (Lock l p)" "\<And>l p. P p \<Longrightarrow> P (Unlock l p)"
  shows "P p"
proof (induction p rule: sync.induct)
  case (Act k)
  have "P (fst (k s))" for s
    by (rule Act [of "k s"]) (auto simp: fsts.simps prod_eq_iff)
  then show ?case by (rule assms(2))
qed (use assms in auto)

primrec bind_sync :: "('l, 's, 'a) sync \<Rightarrow> ('a \<Rightarrow> ('l, 's, 'b) sync) \<Rightarrow> ('l, 's, 'b) sync" where
  "bind_sync (Ret a) f = f a"
| "bind_sync (Act k) f = Act (\<lambda>s. map_prod (\<lambda>p. bind_sync p f) id (k s))"
| "bind_sync (Lock l p) f = Lock l (bind_sync p f)"
| "bind_sync (Unlock l p) f = Unlock l (bind_sync p f)"

text \<open>A program without lock operations, followed by one that may have some.\<close>

primrec embed :: "('s, 'a) prog \<Rightarrow> ('a \<Rightarrow> ('l, 's, 'b) sync) \<Rightarrow> ('l, 's, 'b) sync" where
  "embed (Done a) f = f a"
| "embed (Access k) f = Act (\<lambda>s. map_prod (\<lambda>p. embed p f) id (k s))"

primrec unlocked :: "('l, 's, 'a) sync \<Rightarrow> ('s, 'a) prog" where
  "unlocked (Ret a) = Done a"
| "unlocked (Act k) = Access (\<lambda>s. map_prod unlocked id (k s))"
| "unlocked (Lock l p) = unlocked p"
| "unlocked (Unlock l p) = unlocked p"

lemma unlocked_bind [simp]: "unlocked (bind_sync p f) = bind_prog (unlocked p) (\<lambda>a. unlocked (f a))"
  by (induction p) (simp_all add: fun_eq_iff prod_eq_iff)

lemma unlocked_embed [simp]: "unlocked (embed p f) = bind_prog p (\<lambda>a. unlocked (f a))"
  by (induction p) (simp_all add: fun_eq_iff prod_eq_iff)

lemma bind_prog_Done [simp]: "bind_prog p Done = p"
  by (induction p) (simp_all add: fun_eq_iff prod_eq_iff)

section \<open>With an object of their own\<close>

type_synonym ('l, 's, 'o, 'e, 'a) locked_act = "'o \<Rightarrow> ('l, 's, ('e, 'a) outcome \<times> 'o) sync"

definition free :: "('s, 'o, 'e, 'a) shared_act \<Rightarrow> ('l, 's, 'o, 'e, 'a) locked_act" where
  "free m r = embed (m r) Ret"

definition guarded :: "'l \<Rightarrow> ('s, 'o, 'e, 'a) shared_act \<Rightarrow> ('l, 's, 'o, 'e, 'a) locked_act" where
  "guarded l m r = Lock l (embed (m r) (\<lambda>x. Unlock l (Ret x)))"

definition bind_locked ::
    "('l, 's, 'o, 'e, 'a) locked_act \<Rightarrow> ('a \<Rightarrow> ('l, 's, 'o, 'e, 'b) locked_act) \<Rightarrow>
     ('l, 's, 'o, 'e, 'b) locked_act" where
  "bind_locked m f r =
     bind_sync (m r) (\<lambda>(x, r').
       case x of Ok a \<Rightarrow> f a r' | Throw e \<Rightarrow> Ret (Throw e, r') | Undefined \<Rightarrow> Ret (Undefined, r'))"

definition then_locked ::
    "('l, 's, 'o, 'e, unit) locked_act \<Rightarrow> ('l, 's, 'o, 'e, 'b) locked_act \<Rightarrow>
     ('l, 's, 'o, 'e, 'b) locked_act" where
  "then_locked m k = bind_locked m (\<lambda>_. k)"

definition try_locked ::
    "('l, 's, 'o, 'e, 'a) locked_act \<Rightarrow> ('e \<Rightarrow> ('l, 's, 'o, 'e, 'a) locked_act) \<Rightarrow>
     ('l, 's, 'o, 'e, 'a) locked_act" where
  "try_locked m h r =
     bind_sync (m r) (\<lambda>(x, r').
       case x of Ok a \<Rightarrow> Ret (Ok a, r') | Throw e \<Rightarrow> h e r' | Undefined \<Rightarrow> Ret (Undefined, r'))"

definition unlocked_act :: "('l, 's, 'o, 'e, 'a) locked_act \<Rightarrow> ('s, 'o, 'e, 'a) shared_act" where
  "unlocked_act m r = unlocked (m r)"

lemma unlocked_act_simps [simp]:
  "unlocked_act (free m) = m" "unlocked_act (guarded l m) = m"
  "unlocked_act (bind_locked n f) = bind_shared (unlocked_act n) (\<lambda>a. unlocked_act (f a))"
  "unlocked_act (then_locked u n) = then_shared (unlocked_act u) (unlocked_act n)"
  "unlocked_act (try_locked n h) = try_shared (unlocked_act n) (\<lambda>e. unlocked_act (h e))"
  by (auto simp: unlocked_act_def free_def guarded_def bind_locked_def then_locked_def try_locked_def
      bind_shared_def then_shared_def try_shared_def fun_eq_iff
      intro!: arg_cong2 [where f = bind_prog] split: outcome.split)

lemma unlocked_act_cases [simp]:
  "unlocked_act (case x of (a, b) \<Rightarrow> g a b) = (case x of (a, b) \<Rightarrow> unlocked_act (g a b))"
  "unlocked_act (Let y h) = Let y (\<lambda>z. unlocked_act (h z))"
  by (auto split: prod.split)

section \<open>The discipline\<close>

text \<open>
  \<open>bracketed h p\<close>: a program that holds the mutex \<open>h\<close>, or none, takes one only when it holds
  none, releases the one it holds, and holds none at the end.
\<close>

inductive bracketed :: "'l option \<Rightarrow> ('l, 's, 'a) sync \<Rightarrow> bool" where
  bracketed_Ret: "bracketed None (Ret a)"
| bracketed_Act: "(\<And>s. bracketed h (fst (k s))) \<Longrightarrow> bracketed h (Act k)"
| bracketed_Lock: "bracketed (Some l) p \<Longrightarrow> bracketed None (Lock l p)"
| bracketed_Unlock: "bracketed None p \<Longrightarrow> bracketed (Some l) (Unlock l p)"

inductive_simps bracketed_simps:
  "bracketed h (Ret a)" "bracketed h (Act k)" "bracketed h (Lock l p)" "bracketed h (Unlock l p)"

lemma bracketed_bind:
  "bracketed h p \<Longrightarrow> (\<And>a. bracketed None (f a)) \<Longrightarrow> bracketed h (bind_sync p f)"
  by (induction rule: bracketed.induct) (auto simp: bracketed_simps)

lemma bracketed_embed: "(\<And>a. bracketed h (f a)) \<Longrightarrow> bracketed h (embed p f)"
  by (induction p) (auto simp: bracketed_simps)

lemma bracketed_steps: "bracketed None (free m r)" "bracketed None (guarded l m r)"
  by (auto simp: free_def guarded_def bracketed_simps intro!: bracketed_embed)

lemma bracketed_bind_locked:
  assumes "\<And>r. bracketed None (m r)" "\<And>a r. bracketed None (f a r)"
  shows "bracketed None (bind_locked m f r)"
  unfolding bind_locked_def
  by (rule bracketed_bind [OF assms(1)]) (auto simp: assms(2) bracketed_simps split: outcome.split)

lemma bracketed_then_locked:
  assumes "\<And>r. bracketed None (m r)" "\<And>r. bracketed None (k r)"
  shows "bracketed None (then_locked m k r)"
  unfolding then_locked_def by (rule bracketed_bind_locked) (rule assms)+

lemma bracketed_try_locked:
  assumes "\<And>r. bracketed None (m r)" "\<And>e r. bracketed None (h e r)"
  shows "bracketed None (try_locked m h r)"
  unfolding try_locked_def
  by (rule bracketed_bind [OF assms(1)]) (auto simp: assms(2) bracketed_simps split: outcome.split)

lemmas bracketed_intros = bracketed_steps bracketed_bind_locked bracketed_then_locked
  bracketed_try_locked

section \<open>How many lock operations a program makes\<close>

inductive lockings :: "nat \<Rightarrow> ('l, 's, 'a) sync \<Rightarrow> bool" where
  lockings_Ret: "lockings n (Ret a)"
| lockings_Act: "(\<And>s. lockings n (fst (k s))) \<Longrightarrow> lockings n (Act k)"
| lockings_Lock: "lockings n p \<Longrightarrow> lockings (Suc n) (Lock l p)"
| lockings_Unlock: "lockings n p \<Longrightarrow> lockings (Suc n) (Unlock l p)"

inductive_simps lockings_simps:
  "lockings n (Ret a)" "lockings n (Act k)" "lockings n (Lock l p)" "lockings n (Unlock l p)"

lemma lockings_mono: "lockings m p \<Longrightarrow> m \<le> n \<Longrightarrow> lockings n p"
proof (induction arbitrary: n rule: lockings.induct)
  case (lockings_Lock m p l)
  then show ?case by (cases n) (auto simp: lockings_simps)
next
  case (lockings_Unlock m p l)
  then show ?case by (cases n) (auto simp: lockings_simps)
qed (auto simp: lockings_simps)

lemma lockings_bind:
  "lockings m p \<Longrightarrow> (\<And>a. lockings n (f a)) \<Longrightarrow> lockings (m + n) (bind_sync p f)"
proof (induction rule: lockings.induct)
  case (lockings_Ret m a)
  then show ?case using lockings_mono [of n "f a" "m + n"] by simp
qed (auto simp: lockings_simps)

lemma lockings_embed: "(\<And>a. lockings n (f a)) \<Longrightarrow> lockings n (embed p f)"
  by (induction p) (auto simp: lockings_simps)

lemma lockings_free: "lockings 0 (free m r)"
  by (auto simp: free_def lockings_simps intro!: lockings_embed)

lemma lockings_guarded: "lockings 2 (guarded l m r)"
  by (auto simp: guarded_def lockings_simps numeral_2_eq_2 intro!: lockings_embed)

lemma lockings_bind_locked:
  assumes "\<And>r. lockings m (p r)" "\<And>a r. lockings n (f a r)"
  shows "lockings (m + n) (bind_locked p f r)"
  unfolding bind_locked_def
  by (rule lockings_bind [OF assms(1)]) (auto simp: assms(2) lockings_simps split: outcome.split)

lemma lockings_then_locked:
  assumes "\<And>r. lockings m (p r)" "\<And>r. lockings n (q r)"
  shows "lockings (m + n) (then_locked p q r)"
  unfolding then_locked_def by (rule lockings_bind_locked) (rule assms)+

lemma lockings_try_locked:
  assumes "\<And>r. lockings m (p r)" "\<And>e r. lockings n (h e r)"
  shows "lockings (m + n) (try_locked p h r)"
  unfolding try_locked_def
  by (rule lockings_bind [OF assms(1)]) (auto simp: assms(2) lockings_simps split: outcome.split)

section \<open>Pools with locks\<close>

text \<open>Who holds which mutex, the store, and the programs.\<close>

type_synonym ('l, 's, 'a) locked_pool = "('l \<rightharpoonup> nat) \<times> 's \<times> ('l, 's, 'a) sync list"

inductive locked_step :: "('l, 's, 'a) locked_pool \<Rightarrow> ('l, 's, 'a) locked_pool \<Rightarrow> bool" where
  locked_access: "i < length ps \<Longrightarrow> ps ! i = Act k \<Longrightarrow>
    locked_step (L, s, ps) (L, snd (k s), ps[i := fst (k s)])"
| locked_takes: "i < length ps \<Longrightarrow> ps ! i = Lock l p \<Longrightarrow> L l = None \<Longrightarrow>
    locked_step (L, s, ps) (L(l \<mapsto> i), s, ps[i := p])"
| locked_releases: "i < length ps \<Longrightarrow> ps ! i = Unlock l p \<Longrightarrow> L l = Some i \<Longrightarrow>
    locked_step (L, s, ps) (L(l := None), s, ps[i := p])"

abbreviation locked_steps :: "('l, 's, 'a) locked_pool \<Rightarrow> ('l, 's, 'a) locked_pool \<Rightarrow> bool" where
  "locked_steps \<equiv> locked_step\<^sup>*\<^sup>*"

definition locked_done :: "('l, 's, 'a) locked_pool \<Rightarrow> bool" where
  "locked_done c \<longleftrightarrow> (\<forall>p \<in> set (snd (snd c)). \<exists>a. p = Ret a)"

text \<open>A run with locks is a run without them.\<close>

definition unlocked_pool :: "('l, 's, 'a) locked_pool \<Rightarrow> ('s, 'a) pool" where
  "unlocked_pool c = (fst (snd c), map unlocked (snd (snd c)))"

lemma locked_step_unlocked:
  "locked_step c d \<Longrightarrow> pool_steps (unlocked_pool c) (unlocked_pool d)"
proof (induction rule: locked_step.induct)
  case (locked_access i ps k L s)
  then have "pool_step (s, map unlocked ps) (snd (map_prod unlocked id (k s)),
      (map unlocked ps)[i := fst (map_prod unlocked id (k s))])"
    using pool_access [of i "map unlocked ps" "\<lambda>s. map_prod unlocked id (k s)"] by simp
  then show ?case by (simp add: unlocked_pool_def map_update)
next
  case (locked_takes i ps l p L s)
  then have "map unlocked (ps[i := p]) = map unlocked ps"
    by (simp add: map_update list_update_same_conv)
  then show ?case by (simp add: unlocked_pool_def)
next
  case (locked_releases i ps l p L s)
  then have "map unlocked (ps[i := p]) = map unlocked ps"
    by (simp add: map_update list_update_same_conv)
  then show ?case by (simp add: unlocked_pool_def)
qed

lemma locked_steps_unlocked:
  "locked_steps c d \<Longrightarrow> pool_steps (unlocked_pool c) (unlocked_pool d)"
  by (induction rule: rtranclp_induct) (auto dest: locked_step_unlocked intro: rtranclp_trans)

text \<open>Each program holds the mutexes that its discipline says, and no others are held.\<close>

definition locks_held :: "('l, 's, 'a) locked_pool \<Rightarrow> bool" where
  "locks_held c = (case c of (L, s, ps) \<Rightarrow>
     (\<forall>l i. L l = Some i \<longrightarrow> i < length ps) \<and>
     (\<forall>i < length ps. \<exists>h. bracketed h (ps ! i) \<and> (\<forall>l. L l = Some i \<longleftrightarrow> h = Some l)))"

lemma locks_held_start: "(\<And>p. p \<in> set ps \<Longrightarrow> bracketed None p) \<Longrightarrow> locks_held (Map.empty, s, ps)"
  by (auto simp: locks_held_def)

lemma locks_held_program:
  assumes "locks_held (L, s, ps)" "i < length ps"
  obtains h where "bracketed h (ps ! i)" "\<And>l. L l = Some i \<longleftrightarrow> h = Some l"
  using assms by (auto simp: locks_held_def)

lemma locks_held_update:
  assumes "locks_held (L, s, ps)" "i < length ps"
    and "bracketed h p" "\<And>l. L' l = Some i \<longleftrightarrow> h = Some l"
    and "\<And>l j. j \<noteq> i \<Longrightarrow> L' l = Some j \<longleftrightarrow> L l = Some j"
  shows "locks_held (L', t, ps[i := p])"
proof -
  have "j < length ps" if "L' l = Some j" for l j
    using that assms(1,2,5) by (cases "j = i") (auto simp: locks_held_def)
  moreover have "\<exists>h. bracketed h (ps[i := p] ! j) \<and> (\<forall>l. L' l = Some j \<longleftrightarrow> h = Some l)"
    if j: "j < length ps" for j
  proof (cases "j = i")
    case True
    with assms(3,4) j show ?thesis by auto
  next
    case False
    obtain h where "bracketed h (ps ! j)" "\<And>l. L l = Some j \<longleftrightarrow> h = Some l"
      using locks_held_program [OF assms(1) j] by blast
    with False assms(5) show ?thesis by auto
  qed
  ultimately show ?thesis by (simp add: locks_held_def)
qed

lemma locked_step_held: "locked_step c d \<Longrightarrow> locks_held c \<Longrightarrow> locks_held d"
proof (induction rule: locked_step.induct)
  case (locked_access i ps k L s)
  from locks_held_program [OF locked_access(3,1)] obtain h
    where h: "bracketed h (ps ! i)" "\<And>l. L l = Some i \<longleftrightarrow> h = Some l" by blast
  then have "bracketed h (fst (k s))" using locked_access(2) by (simp add: bracketed_simps)
  from locks_held_update [OF locked_access(3,1) this h(2)] show ?case by simp
next
  case (locked_takes i ps l p L s)
  from locks_held_program [OF locked_takes(4,1)] obtain h
    where h: "bracketed h (ps ! i)" "\<And>l. L l = Some i \<longleftrightarrow> h = Some l" by blast
  with locked_takes(2) have "bracketed (Some l) p" "h = None" by (auto simp: bracketed_simps)
  from locks_held_update [OF locked_takes(4,1) this(1), where L' = "L(l \<mapsto> i)"] h(2) this(2) locked_takes(3)
  show ?case by auto
next
  case (locked_releases i ps l p L s)
  from locks_held_program [OF locked_releases(4,1)] obtain h
    where h: "bracketed h (ps ! i)" "\<And>l. L l = Some i \<longleftrightarrow> h = Some l" by blast
  with locked_releases(2,3) have "bracketed None p" "h = Some l" by (auto simp: bracketed_simps)
  show ?case
  proof (rule locks_held_update [OF locked_releases(4,1) \<open>bracketed None p\<close>])
    show "(L(l := None)) m = Some i \<longleftrightarrow> None = Some m" for m using h(2) [of m] \<open>h = Some l\<close> by auto
    show "(L(l := None)) m = Some j \<longleftrightarrow> L m = Some j" if "j \<noteq> i" for m j
      using that locked_releases(3) by auto
  qed
qed

lemma locked_steps_held: "locked_steps c d \<Longrightarrow> locks_held c \<Longrightarrow> locks_held d"
  by (induction rule: rtranclp_induct) (auto intro: locked_step_held)

text \<open>
  No deadlock: a program that holds a mutex is inside a scope and can go on, and if none is
  held, any program that is not finished can.
\<close>

lemma locked_progress:
  assumes "locks_held c" "\<not> locked_done c"
  shows "\<exists>d. locked_step c d"
proof -
  obtain L s ps where c: "c = (L, s, ps)" by (cases c)
  show ?thesis
  proof (cases "\<exists>l i. L l = Some i")
    case True
    then obtain l i where li: "L l = Some i" by blast
    then have i: "i < length ps" using assms(1) by (auto simp: locks_held_def c)
    then obtain h where "bracketed h (ps ! i)" "\<forall>m. L m = Some i \<longleftrightarrow> h = Some m"
      using assms(1) by (auto simp: locks_held_def c)
    with li have b: "bracketed (Some l) (ps ! i)" by simp
    show ?thesis
    proof (cases "ps ! i")
      case (Act k)
      then show ?thesis using locked_access [OF i] c by blast
    next
      case (Unlock m p)
      with b have "l = m" by (simp add: bracketed_simps)
      with Unlock li show ?thesis using locked_releases [OF i] c by blast
    qed (use b in \<open>auto simp: bracketed_simps\<close>)
  next
    case False
    from assms(2) obtain i where i: "i < length ps" "\<nexists>a. ps ! i = Ret a"
      by (auto simp: locked_done_def c in_set_conv_nth)
    then obtain h where "bracketed h (ps ! i)" "\<forall>m. L m = Some i \<longleftrightarrow> h = Some m"
      using assms(1) by (auto simp: locks_held_def c)
    with False have b: "bracketed None (ps ! i)" by (cases h) auto
    show ?thesis
    proof (cases "ps ! i")
      case (Act k)
      then show ?thesis using locked_access [OF i(1)] c by blast
    next
      case (Lock m p)
      moreover have "L m = None" using False by (cases "L m") auto
      ultimately show ?thesis using locked_takes [OF i(1)] c by blast
    qed (use b i in \<open>auto simp: bracketed_simps\<close>)
  qed
qed

lemma locked_done_free: "locks_held c \<Longrightarrow> locked_done c \<Longrightarrow> fst c = Map.empty"
proof (rule ext)
  fix l
  assume c: "locks_held c" "locked_done c"
  obtain L s ps where p: "c = (L, s, ps)" by (cases c)
  show "fst c l = None"
  proof (cases "L l")
    case (Some i)
    with c p have i: "i < length ps" by (auto simp: locks_held_def)
    with c p obtain h where h: "bracketed h (ps ! i)" "\<forall>m. L m = Some i \<longleftrightarrow> h = Some m"
      by (auto simp: locks_held_def)
    have "ps ! i \<in> set ps" using i by simp
    with c(2) obtain a where "ps ! i = Ret a" by (auto simp: locked_done_def p)
    with h Some show ?thesis by (auto simp: bracketed_simps)
  qed (simp add: p)
qed

text \<open>Every step uses up one access or one lock operation.\<close>

definition sync_within :: "nat \<Rightarrow> ('l, 's, 'a) sync \<Rightarrow> bool" where
  "sync_within n p \<longleftrightarrow> (\<exists>a m. n = a + m \<and> within a (unlocked p) \<and> lockings m p)"

lemma sync_within_simps:
  "sync_within n (Act k) \<Longrightarrow> \<exists>m. n = Suc m \<and> sync_within m (fst (k s))"
  "sync_within n (Lock l p) \<Longrightarrow> \<exists>m. n = Suc m \<and> sync_within m p"
  "sync_within n (Unlock l p) \<Longrightarrow> \<exists>m. n = Suc m \<and> sync_within m p"
proof -
  assume "sync_within n (Act k)"
  then obtain a m where m: "n = a + m" "within a (unlocked (Act k))" "lockings m (Act k)"
    by (auto simp: sync_within_def)
  then obtain a' where "a = Suc a'" by (cases a) auto
  with m show "\<exists>m. n = Suc m \<and> sync_within m (fst (k s))"
    by (auto simp: sync_within_def lockings_simps)
next
  assume "sync_within n (Lock l p)"
  then obtain a m where "n = a + Suc m" "within a (unlocked p)" "lockings m p"
    by (auto simp: sync_within_def lockings_simps)
  then show "\<exists>m. n = Suc m \<and> sync_within m p" by (auto simp: sync_within_def)
next
  assume "sync_within n (Unlock l p)"
  then obtain a m where "n = a + Suc m" "within a (unlocked p)" "lockings m p"
    by (auto simp: sync_within_def lockings_simps)
  then show "\<exists>m. n = Suc m \<and> sync_within m p" by (auto simp: sync_within_def)
qed

lemma locked_step_within:
  assumes "locked_step c d" "list_all2 sync_within ns (snd (snd c))"
  shows "\<exists>ms. list_all2 sync_within ms (snd (snd d)) \<and> sum_list ns = Suc (sum_list ms)"
proof -
  have replaced: "\<exists>ms. list_all2 sync_within ms (ps[i := p]) \<and> sum_list ns = Suc (sum_list ms)"
    if "i < length ps" "list_all2 sync_within ns ps" "\<exists>m. ns ! i = Suc m \<and> sync_within m p"
    for ps i p
  proof -
    from that(3) obtain m where m: "ns ! i = Suc m" "sync_within m p" by blast
    have i: "i < length ns" using that(1,2) by (simp add: list_all2_lengthD)
    then have "sum_list ns = Suc (sum_list (ns[i := m]))"
      using m(1) elem_le_sum_list [OF i] by (simp add: sum_list_update)
    moreover have "list_all2 sync_within (ns[i := m]) (ps[i := p])"
      using that(2) m(2) by (rule list_all2_update_cong)
    ultimately show ?thesis by blast
  qed
  have w: "sync_within (ns ! i) (ps ! i)" if "list_all2 sync_within ns ps" "i < length ps" for ps i
    using that by (auto simp: list_all2_conv_all_nth)
  from assms show ?thesis
  proof (induction rule: locked_step.induct)
    case (locked_access i ps k L s)
    with w [of ps i] show ?case using replaced [of i ps "fst (k s)"] sync_within_simps(1) by fastforce
  next
    case (locked_takes i ps l p L s)
    with w [of ps i] show ?case using replaced [of i ps p] sync_within_simps(2) by fastforce
  next
    case (locked_releases i ps l p L s)
    with w [of ps i] show ?case using replaced [of i ps p] sync_within_simps(3) by fastforce
  qed
qed

lemma locked_steps_within:
  "(locked_step ^^ n) c d \<Longrightarrow> list_all2 sync_within ns (snd (snd c)) \<Longrightarrow>
   n \<le> sum_list ns \<and> (\<exists>ms. list_all2 sync_within ms (snd (snd d)))"
proof (induction n arbitrary: c ns)
  case (Suc n)
  then obtain b where "locked_step c b" "(locked_step ^^ n) b d" by (metis relpowp_Suc_E2)
  with Suc.prems obtain ms where "list_all2 sync_within ms (snd (snd b))" "sum_list ns = Suc (sum_list ms)"
    using locked_step_within by blast
  with Suc.IH [OF \<open>(locked_step ^^ n) b d\<close>] show ?case by fastforce
qed auto

lemma locked_terminates:
  assumes "list_all2 sync_within ns (snd (snd c))" "locks_held c"
  shows "\<exists>d. locked_steps c d \<and> locked_done d"
  using assms
proof (induction "sum_list ns" arbitrary: c ns rule: less_induct)
  case less
  show ?case
  proof (cases "locked_done c")
    case False
    then obtain b where b: "locked_step c b" using locked_progress less.prems(2) by blast
    with less.prems obtain ms where "list_all2 sync_within ms (snd (snd b))" "sum_list ms < sum_list ns"
      using locked_step_within by fastforce
    with less.hyps [of ms b] b locked_step_held [OF b less.prems(2)] show ?thesis
      by (meson converse_rtranclp_into_rtranclp)
  qed blast
qed

end
