(* ===== verification/Modbus_Locked_Requests.thy ===== *)
theory Modbus_Locked_Requests
  imports Modbus_Concurrent_Requests Locked_Programs
begin

text \<open>
  The handler as a program that takes the mutexes of the blocks. Each block of the table has one
  (\<open>data-table.hpp\<close>); \<open>get\<close> and \<open>set\<close> hold it for the length of the call, \<open>validate\<close>, which
  \<open>execute\<close> calls, does not take it, and the elements of a range are read after \<open>get\<close> has
  returned, without it. Leaving out the lock operations gives the programs of \<open>Modbus_Request_Programs\<close> (\<open>unlocked_handle\<close>). No request holds two mutexes, takes
  one twice, or keeps one (\<open>bracketed_handle\<close>).
\<close>

section \<open>Calls of a block\<close>

datatype mutex =
    Coils_mutex
  | Discrete_inputs_mutex
  | Holding_registers_mutex
  | Input_registers_mutex

text \<open>
  \<open>get(address)\<close> of a register returns a reference, through which the register is read after the
  lock has been released; for a coil it returns the value, read under the lock. The check that
  the register exists is made together with the read; its result is the same under the lock,
  because no request changes the extent of a block.
\<close>

definition get_register ::
    "mutex \<Rightarrow> ('r \<Rightarrow> table \<Rightarrow> (exn, 'a) outcome) \<Rightarrow> (mutex, table, 'r, exn, 'a) locked_act" where
  "get_register l q = then_locked (guarded l (give ())) (free (read_shared q))"

definition encode_catch_locked ::
    "(mutex, table, 'a adu_scheme, exn, packet_t) locked_act \<Rightarrow>
     (mutex, table, 'a adu_scheme, exn, packet_t) locked_act" where
  "encode_catch_locked body =
     try_locked body (\<lambda>e.
       if e = Std_out_of_range
       then free (local_act (raise_act
         (\<lambda>r. Specification illegal_data_address (adu_function r) (adu_header r))))
       else free (local_act (raise_act
         (\<lambda>r. Specification server_device_failure (adu_function r) (adu_header r)))))"

section \<open>The encoders\<close>

definition read_bits_locked ::
    "platform \<Rightarrow> mutex \<Rightarrow> (table \<Rightarrow> bool block) \<Rightarrow>
     (mutex, table, read_bits_response, exn, packet_t) locked_act" where
  "read_bits_locked P l area =
     encode_catch_locked
       (bind_locked (guarded l (read_shared (\<lambda>r T. block_get_slice (num_bits_validate False) (area T)
                       (rbq_address (rbs_request r)) (rbq_count (rbs_request r))))) (\<lambda>(i, j).
        bind_locked (free (read_elements area [i..<j])) (\<lambda>elems.
        then_locked (free (object_set (\<lambda>r. r\<lparr>rbs_bits := elems\<rparr>)))
        (then_locked (free (object_set (\<lambda>r. calc_length (read_bits_byte_count (rbs_request r) + 1) r)))
        (bind_locked (free (object_get (header_packet P))) (\<lambda>packet.
         bind_locked (free (object_get (\<lambda>r. pack P ''B''
                        [unat (read_bits_byte_count (rbs_request r))]))) (\<lambda>pdu.
         bind_locked (free (read_elements area [i..<j])) (\<lambda>elems.
         let packet = packet @ pdu @ pack_bits elems in
         then_locked (free (object_check
             (\<lambda>r. \<not> check_response_packet (read_bits_response_size (rbs_request r)) packet)
             (\<lambda>r. Specification server_device_failure (adu_function r) (adu_header r))))
         (free (give packet))))))))))"

definition read_registers_locked ::
    "platform \<Rightarrow> mutex \<Rightarrow> (table \<Rightarrow> u16 block) \<Rightarrow>
     (mutex, table, read_registers_response, exn, packet_t) locked_act" where
  "read_registers_locked P l area =
     encode_catch_locked
       (bind_locked (guarded l (read_shared (\<lambda>r T. block_get_slice (num_regs_validate False) (area T)
                       (rrq_address (rrs_request r)) (rrq_count (rrs_request r))))) (\<lambda>(i, j).
        bind_locked (free (read_elements area [i..<j])) (\<lambda>elems.
        then_locked (free (object_set (\<lambda>r. r\<lparr>rrs_registers := elems\<rparr>)))
        (then_locked (free (object_set
            (\<lambda>r. calc_length (read_registers_byte_count (rrs_request r) + 1) r)))
        (bind_locked (free (object_get (header_packet P))) (\<lambda>packet.
         bind_locked (free (object_get (\<lambda>r. pack P ''B''
                        [unat (read_registers_byte_count (rrs_request r))]))) (\<lambda>pdu.
         bind_locked (free (read_elements area [i..<j])) (\<lambda>elems.
         let packet = packet @ pdu @ pack_registers P elems in
         then_locked (free (object_check
             (\<lambda>r. \<not> check_response_packet (read_registers_response_size (rrs_request r)) packet)
             (\<lambda>r. Specification server_device_failure (adu_function r) (adu_header r))))
         (free (give packet))))))))))"

definition write_single_coil_locked ::
    "platform \<Rightarrow> (mutex, table, write_single_coil_response, exn, packet_t) locked_act" where
  "write_single_coil_locked P =
     encode_catch_locked
       (bind_locked (guarded Coils_mutex
           (read_shared (\<lambda>r T. block_get (coils T) (wcq_address (wcs_request r))))) (\<lambda>v.
        then_locked (free (object_set (\<lambda>r. r\<lparr>wcs_value := if v then bits_on else bits_off\<rparr>)))
        (then_locked (free (object_set (calc_length 4)))
        (bind_locked (free (object_get (header_packet P))) (\<lambda>packet.
         bind_locked (free (object_get (\<lambda>r. pack P ''HH''
            [unat (meta_get (wcq_address (wcs_request r))),
             unat (bits_underlying (wcs_value r))]))) (\<lambda>pdu.
         let packet = packet @ pdu in
         then_locked (free (object_check
             (\<lambda>r. \<not> check_response_packet
                     (write_single_coil_response_size (wcs_request r)) packet)
             (\<lambda>r. Specification server_device_failure (adu_function r) (adu_header r))))
         (then_locked (guarded Coils_mutex (write_shared (\<lambda>r T.
            bind_outcome (block_set (coils T) (wcq_address (wcs_request r))
                            (wcq_value (wcs_request r) = bits_on))
              (\<lambda>b. Ok (T\<lparr>coils := b\<rparr>)))))
         (free (give packet)))))))))"

definition write_multiple_coils_locked ::
    "platform \<Rightarrow> (mutex, table, write_multiple_coils_response, exn, packet_t) locked_act" where
  "write_multiple_coils_locked P =
     encode_catch_locked
       (then_locked (free (object_set (calc_length 4)))
       (bind_locked (free (object_get (header_packet P))) (\<lambda>packet.
        bind_locked (free (object_get (\<lambda>r. pack P ''HH''
           [unat (meta_get (wmcq_address (wmcs_request r))),
            unat (meta_get (wmcq_count (wmcs_request r)))]))) (\<lambda>pdu.
        then_locked (guarded Coils_mutex (set_range coils (\<lambda>b T. T\<lparr>coils := b\<rparr>)
            (\<lambda>r. wmcq_address (wmcs_request r)) (\<lambda>r. wmcq_values (wmcs_request r))))
        (free (give (packet @ pdu)))))))"

definition write_single_register_locked ::
    "platform \<Rightarrow> (mutex, table, write_single_register_response, exn, packet_t) locked_act" where
  "write_single_register_locked P =
     encode_catch_locked
       (then_locked (free (object_set (calc_length 4)))
       (bind_locked (free (object_get (header_packet P))) (\<lambda>packet.
        bind_locked (free (object_get (\<lambda>r. pack P ''HH''
           [unat (meta_get (wrq_address (wrs_request r))),
            unat (meta_get (wrq_value (wrs_request r)))]))) (\<lambda>pdu.
        let packet = packet @ pdu in
        then_locked (free (object_check
            (\<lambda>r. \<not> check_response_packet
                    (write_single_register_response_size (wrs_request r)) packet)
            (\<lambda>r. Specification server_device_failure (adu_function r) (adu_header r))))
        (then_locked (guarded Holding_registers_mutex (write_shared (\<lambda>r T.
           bind_outcome (block_set (holding_registers T) (wrq_address (wrs_request r))
                           (meta_get (wrq_value (wrs_request r))))
             (\<lambda>b. Ok (T\<lparr>holding_registers := b\<rparr>)))))
        (then_locked (free (object_set (\<lambda>r. r\<lparr>wrs_address := wrq_address (wrs_request r),
                                              wrs_value := wrq_value (wrs_request r)\<rparr>)))
        (free (give packet))))))))"

definition write_multiple_registers_locked ::
    "platform \<Rightarrow> (mutex, table, write_multiple_registers_response, exn, packet_t) locked_act" where
  "write_multiple_registers_locked P =
     encode_catch_locked
       (then_locked (free (object_set (calc_length 4)))
       (bind_locked (free (object_get (header_packet P))) (\<lambda>packet.
        bind_locked (free (object_get (\<lambda>r. pack P ''HH''
           [unat (meta_get (wmrq_address (wmrs_request r))),
            unat (meta_get (wmrq_count (wmrs_request r)))]))) (\<lambda>pdu.
        then_locked (guarded Holding_registers_mutex
            (set_range holding_registers (\<lambda>b T. T\<lparr>holding_registers := b\<rparr>)
              (\<lambda>r. wmrq_address (wmrs_request r)) (\<lambda>r. wmrq_values (wmrs_request r))))
        (free (give (packet @ pdu)))))))"

definition mask_write_register_locked ::
    "platform \<Rightarrow> (mutex, table, mask_write_register_response, exn, packet_t) locked_act" where
  "mask_write_register_locked P =
     encode_catch_locked
       (then_locked (free (object_set (calc_length 6)))
       (bind_locked (free (object_get (header_packet P))) (\<lambda>packet.
        bind_locked (free (object_get (\<lambda>r. pack P ''HHH''
           [unat (meta_get (mwq_address (mws_request r))),
            unat (meta_get (mwq_and_mask (mws_request r))),
            unat (meta_get (mwq_or_mask (mws_request r)))]))) (\<lambda>pdu.
        let packet = packet @ pdu in
        then_locked (free (object_check
            (\<lambda>r. \<not> check_response_packet
                    (mask_write_register_response_size (mws_request r)) packet)
            (\<lambda>r. Specification server_device_failure (adu_function r) (adu_header r))))
        (bind_locked (get_register Holding_registers_mutex (\<lambda>r T.
           block_get (holding_registers T) (mwq_address (mws_request r)))) (\<lambda>current_value.
        then_locked (guarded Holding_registers_mutex (write_shared (\<lambda>r T.
           let new_value = or (and current_value (meta_get (mwq_and_mask (mws_request r))))
                              (meta_get (mwq_or_mask (mws_request r)))
           in bind_outcome (block_set (holding_registers T) (mwq_address (mws_request r)) new_value)
                (\<lambda>b. Ok (T\<lparr>holding_registers := b\<rparr>)))))
        (then_locked (free (object_set (\<lambda>r. r\<lparr>mws_address := mwq_address (mws_request r),
                                              mws_and_mask := mwq_and_mask (mws_request r),
                                              mws_or_mask := mwq_or_mask (mws_request r)\<rparr>)))
        (free (give packet)))))))))"

definition read_write_multiple_registers_locked ::
    "platform \<Rightarrow> (mutex, table, read_write_multiple_registers_response, exn, packet_t) locked_act" where
  "read_write_multiple_registers_locked P =
     encode_catch_locked
       (then_locked (guarded Holding_registers_mutex
            (set_range holding_registers (\<lambda>b T. T\<lparr>holding_registers := b\<rparr>)
              (\<lambda>r. rwq_write_address (rws_request r)) (\<lambda>r. rwq_values (rws_request r))))
       (bind_locked (guarded Holding_registers_mutex
           (read_shared (\<lambda>r T. block_get_slice (num_regs_validate False)
             (holding_registers T) (rwq_read_address (rws_request r))
             (rwq_read_count (rws_request r))))) (\<lambda>(i, j).
        bind_locked (free (read_elements holding_registers [i..<j])) (\<lambda>elems.
        then_locked (free (object_set (\<lambda>r. r\<lparr>rws_registers := elems\<rparr>)))
        (then_locked (free (object_set (\<lambda>r. calc_length (1 + ucast (rws_count r)) r)))
        (bind_locked (free (object_get (header_packet P))) (\<lambda>packet.
         bind_locked (free (object_get (\<lambda>r. pack P ''B'' [unat (rws_count r)]))) (\<lambda>pdu.
         bind_locked (free (read_elements holding_registers [i..<j])) (\<lambda>elems.
         let packet = packet @ pdu @ pack_registers P elems in
         then_locked (free (object_check
             (\<lambda>r. \<not> check_response_packet (read_write_response_size (rws_request r)) packet)
             (\<lambda>r. Specification server_device_failure (adu_function r) (adu_header r))))
         (free (give packet)))))))))))"

section \<open>The handler\<close>

text \<open>The checks of \<open>execute\<close> take no lock.\<close>

definition function_locked ::
    "('rq, exn, unit) act \<Rightarrow> 'rq \<Rightarrow> ('rq \<Rightarrow> table \<Rightarrow> (exn, 'rs) outcome) \<Rightarrow>
     (mutex, table, 'rs, exn, packet_t) locked_act \<Rightarrow> (mutex, table, (exn, packet_t) outcome) sync" where
  "function_locked dec req exe enc =
     (case dec req of
        (Ok _, rq) \<Rightarrow> Act (\<lambda>T.
          (case exe rq T of
             Ok rs \<Rightarrow> bind_sync (enc rs) (\<lambda>(x, _). Ret x)
           | Throw e \<Rightarrow> Ret (Throw e)
           | Undefined \<Rightarrow> Ret Undefined, T))
      | (Throw e, _) \<Rightarrow> Ret (Throw e)
      | (Undefined, _) \<Rightarrow> Ret Undefined)"

definition dispatch_locked ::
    "platform \<Rightarrow> function_code \<Rightarrow> packet_t \<Rightarrow> (mutex, table, (exn, packet_t) outcome) sync" where
  "dispatch_locked P function packet =
     (case function of
        read_coils \<Rightarrow>
          function_locked (read_bits_decode P read_coils packet) (new_read_bits_request read_coils)
            (read_coils_execute P) (read_bits_locked P Coils_mutex coils)
      | read_discrete_inputs \<Rightarrow>
          function_locked (read_bits_decode P read_discrete_inputs packet)
            (new_read_bits_request read_discrete_inputs)
            (read_discrete_inputs_execute P)
            (read_bits_locked P Discrete_inputs_mutex discrete_inputs)
      | read_holding_registers \<Rightarrow>
          function_locked (read_registers_decode P read_holding_registers packet)
            (new_read_registers_request read_holding_registers)
            (read_holding_registers_execute P)
            (read_registers_locked P Holding_registers_mutex holding_registers)
      | read_input_registers \<Rightarrow>
          function_locked (read_registers_decode P read_input_registers packet)
            (new_read_registers_request read_input_registers)
            (read_input_registers_execute P)
            (read_registers_locked P Input_registers_mutex input_registers)
      | write_single_coil \<Rightarrow>
          function_locked (write_single_coil_decode P packet) new_write_single_coil_request
            (write_single_coil_execute P) (write_single_coil_locked P)
      | write_single_register \<Rightarrow>
          function_locked (write_single_register_decode P packet) new_write_single_register_request
            write_single_register_execute (write_single_register_locked P)
      | write_multiple_coils \<Rightarrow>
          function_locked (write_multiple_coils_decode P packet) new_write_multiple_coils_request
            write_multiple_coils_execute (write_multiple_coils_locked P)
      | write_multiple_registers \<Rightarrow>
          function_locked (write_multiple_registers_decode P packet)
            new_write_multiple_registers_request
            write_multiple_registers_execute (write_multiple_registers_locked P)
      | mask_write_register \<Rightarrow>
          function_locked (mask_write_register_decode P packet) new_mask_write_register_request
            mask_write_register_execute (mask_write_register_locked P)
      | read_write_multiple_registers \<Rightarrow>
          function_locked (read_write_multiple_registers_decode P packet)
            new_read_write_multiple_registers_request
            read_write_multiple_registers_execute (read_write_multiple_registers_locked P)
      | _ \<Rightarrow>
          (case illegal_decode P packet (make_illegal fc_min 0x00 0x00) of
             (Ok _, _) \<Rightarrow> Ret (Ok [])
           | (Throw e, _) \<Rightarrow> Ret (Throw e)
           | (Undefined, _) \<Rightarrow> Ret Undefined))"

definition handle_locked :: "platform \<Rightarrow> packet_t \<Rightarrow> (mutex, table, (exn, packet_t) outcome) sync" where
  "handle_locked P packet =
     bind_sync
       (if length packet \<le> header_length then Ret (Throw (Internal bad_data_size))
        else dispatch_locked P (function_code_of_byte (packet ! header_length)) packet)
       (\<lambda>x. case x of Throw e \<Rightarrow> Ret (report_outcome P e) | _ \<Rightarrow> Ret x)"

text \<open>Requests on several threads, none of which holds a lock yet.\<close>

definition locked_requests ::
    "platform \<Rightarrow> packet_t list \<Rightarrow> table \<Rightarrow> (mutex, table, (exn, packet_t) outcome) locked_pool" where
  "locked_requests P ps T = (Map.empty, T, map (handle_locked P) ps)"

section \<open>Without the locks\<close>

lemmas locked_defs = read_bits_locked_def read_registers_locked_def write_single_coil_locked_def
  write_multiple_coils_locked_def write_single_register_locked_def
  write_multiple_registers_locked_def mask_write_register_locked_def
  read_write_multiple_registers_locked_def

lemma unlocked_get_register [simp]: "unlocked_act (get_register l q) = read_shared q"
  by (simp add: get_register_def then_shared_def bind_give)

lemma unlocked_encode_catch [simp]:
  "unlocked_act (encode_catch_locked body) = encode_catch_shared (unlocked_act body)"
  by (simp add: encode_catch_locked_def encode_catch_shared_def if_distrib cong: if_cong)

lemma unlocked_encoders:
  "unlocked_act (read_bits_locked P l area_b) = read_bits_program P area_b"
  "unlocked_act (read_registers_locked P l area_r) = read_registers_program P area_r"
  "unlocked_act (write_single_coil_locked P) = write_single_coil_program P"
  "unlocked_act (write_multiple_coils_locked P) = write_multiple_coils_program P"
  "unlocked_act (write_single_register_locked P) = write_single_register_program P"
  "unlocked_act (write_multiple_registers_locked P) = write_multiple_registers_program P"
  "unlocked_act (mask_write_register_locked P) = mask_write_register_program P"
  "unlocked_act (read_write_multiple_registers_locked P) = read_write_multiple_registers_program P"
  by (simp_all add: locked_defs program_defs Let_def)

lemma unlocked_function:
  "unlocked (function_locked dec req exe enc) = function_program dec req exe (unlocked_act enc)"
  by (auto simp: function_locked_def function_program_def unlocked_act_def split_beta fun_eq_iff
      split: prod.split outcome.split intro!: arg_cong2 [where f = bind_prog])

lemma unlocked_dispatch: "unlocked (dispatch_locked P f p) = dispatch_program P f p"
  by (cases f)
    (simp_all add: dispatch_locked_def dispatch_program_def unlocked_function unlocked_encoders
      split: prod.split outcome.split)

theorem unlocked_handle: "unlocked (handle_locked P p) = handle_program P p"
  by (auto simp: handle_locked_def handle_program_def unlocked_dispatch fun_eq_iff
      intro!: arg_cong2 [where f = bind_prog] split: outcome.split)

lemma unlocked_requests: "unlocked_pool (locked_requests P ps T) = (T, request_pool P ps)"
  by (simp add: locked_requests_def unlocked_pool_def request_pool_def unlocked_handle)

section \<open>The discipline\<close>

lemma bracketed_get_register: "bracketed None (get_register l q r)"
  unfolding get_register_def by (intro bracketed_intros)

lemma bracketed_encode_catch:
  "(\<And>r. bracketed None (body r)) \<Longrightarrow> bracketed None (encode_catch_locked body r)"
  unfolding encode_catch_locked_def by (intro bracketed_intros) (auto intro: bracketed_intros)

lemma bracketed_encoders:
  "bracketed None (read_bits_locked P l area_b r1)"
  "bracketed None (read_registers_locked P l area_r r2)"
  "bracketed None (write_single_coil_locked P r3)"
  "bracketed None (write_multiple_coils_locked P r4)"
  "bracketed None (write_single_register_locked P r5)"
  "bracketed None (write_multiple_registers_locked P r6)"
  "bracketed None (mask_write_register_locked P r7)"
  "bracketed None (read_write_multiple_registers_locked P r8)"
  unfolding locked_defs Let_def
  by (auto intro!: bracketed_intros bracketed_get_register bracketed_encode_catch split: prod.split)

lemma bracketed_function:
  "(\<And>rs. bracketed None (enc rs)) \<Longrightarrow> bracketed None (function_locked dec req exe enc)"
  by (auto simp: function_locked_def bracketed_simps split: prod.split outcome.split
      intro!: bracketed_bind)

lemma bracketed_handle: "bracketed None (handle_locked P p)"
proof -
  have "bracketed None (dispatch_locked P f p)" for f
    by (cases f) (auto simp: dispatch_locked_def bracketed_simps split: prod.split outcome.split
        intro!: bracketed_function bracketed_encoders)
  then show ?thesis
    unfolding handle_locked_def
    by (intro bracketed_bind) (auto simp: bracketed_simps split: outcome.split)
qed

lemma locked_requests_held: "locks_held (locked_requests P ps T)"
  unfolding locked_requests_def by (rule locks_held_start) (auto simp: bracketed_handle)

section \<open>The number of lock operations\<close>

text \<open>A request makes at most two calls under a lock.\<close>

lemma lockings_get_register: "lockings (2 + 0) (get_register l q r)"
  unfolding get_register_def by (rule lockings_then_locked lockings_guarded lockings_free)+

lemma lockings_encode_catch:
  assumes "\<And>r. lockings n (body r)"
  shows "lockings (n + 0) (encode_catch_locked body r)"
  unfolding encode_catch_locked_def
  by (rule lockings_try_locked [OF assms]) (simp add: lockings_free)

lemma lockings_case: "(\<And>a b. lockings n (f a b r)) \<Longrightarrow> lockings n ((case x of (a, b) \<Rightarrow> f a b) r)"
  by (simp split: prod.split)

lemma lockings_encoders:
  "lockings 4 (read_bits_locked P l area_b r1)"
  "lockings 4 (read_registers_locked P l area_r r2)"
  "lockings 4 (write_single_coil_locked P r3)"
  "lockings 4 (write_multiple_coils_locked P r4)"
  "lockings 4 (write_single_register_locked P r5)"
  "lockings 4 (write_multiple_registers_locked P r6)"
  "lockings 4 (mask_write_register_locked P r7)"
  "lockings 4 (read_write_multiple_registers_locked P r8)"
  unfolding locked_defs Let_def
  by (rule lockings_mono, (rule lockings_encode_catch lockings_bind_locked lockings_then_locked
        lockings_case lockings_guarded lockings_free lockings_get_register)+, simp)+

lemma lockings_function:
  assumes "\<And>rs. lockings 4 (enc rs)"
  shows "lockings 4 (function_locked dec req exe enc)"
proof -
  have "lockings (4 + 0) (bind_sync (enc rs) (\<lambda>(x, _). Ret x))" for rs
    by (rule lockings_bind [OF assms]) (auto simp: lockings_simps)
  then show ?thesis
    by (auto simp: function_locked_def lockings_simps split: prod.split outcome.split)
qed

lemma lockings_handle: "lockings 4 (handle_locked P p)"
proof -
  have "lockings 4 (dispatch_locked P f p)" for f
    by (cases f) (auto simp: dispatch_locked_def lockings_simps split: prod.split outcome.split
        intro!: lockings_function lockings_encoders)
  then have "lockings (4 + 0) (handle_locked P p)"
    unfolding handle_locked_def
    by (intro lockings_bind) (auto simp: lockings_simps split: outcome.split)
  then show ?thesis by simp
qed

lemma handle_locked_within: "platform_ok P \<Longrightarrow> sync_within 4006 (handle_locked P p)"
  unfolding sync_within_def
  by (intro exI [of _ 4002] exI [of _ 4]) (simp add: unlocked_handle handle_program_within lockings_handle)

lemma locked_requests_within:
  "platform_ok P \<Longrightarrow>
   list_all2 sync_within (replicate (length ps) 4006) (snd (snd (locked_requests P ps T)))"
  by (simp add: locked_requests_def list_all2_conv_all_nth handle_locked_within)

end
