(* ===== verification/Modbus_Server.thy ===== *)
theory Modbus_Server
  imports Modbus_Request_Handler
begin

text \<open>
  \<open>server.hpp\<close> and \<open>server.cpp\<close>: the server object and its callbacks as a state machine. The
  networking library decides which callback runs when, for which session and with which
  bytes; here that is an event, and nothing is assumed about their order. What the callbacks
  ask the library to do is recorded as a list of effects. User callbacks are functions on the
  table, part of the state because they can be rebound.
\<close>

section \<open>The server object\<close>

type_synonym session = nat
type_synonym conn_cb = "session \<Rightarrow> table \<Rightarrow> table"

datatype effect = No_delay session | Send session packet_t

record server =
  srv_table :: table
  srv_on_connect :: conn_cb
  srv_on_disconnect :: conn_cb
  srv_effects :: "effect list"

text \<open>The constructor: both user callbacks do nothing.\<close>

definition make_server :: "table \<Rightarrow> server" where
  "make_server T =
     \<lparr>srv_table = T, srv_on_connect = (\<lambda>_ T. T), srv_on_disconnect = (\<lambda>_ T. T),
      srv_effects = []\<rparr>"

definition bind_connect :: "conn_cb \<Rightarrow> server \<Rightarrow> server" where
  "bind_connect cb S = S\<lparr>srv_on_connect := cb\<rparr>"

definition bind_disconnect :: "conn_cb \<Rightarrow> server \<Rightarrow> server" where
  "bind_disconnect cb S = S\<lparr>srv_on_disconnect := cb\<rparr>"

definition add_effect :: "effect \<Rightarrow> server \<Rightarrow> server" where
  "add_effect e S = S\<lparr>srv_effects := srv_effects S @ [e]\<rparr>"

text \<open>\<open>on_start\<close> and \<open>on_stop\<close> only log.\<close>

definition on_start :: "server \<Rightarrow> server" where
  "on_start S = S"

definition on_stop :: "server \<Rightarrow> server" where
  "on_stop S = S"

definition on_connect :: "session \<Rightarrow> server \<Rightarrow> server" where
  "on_connect s S =
     (let S = add_effect (No_delay s) S
      in S\<lparr>srv_table := srv_on_connect S s (srv_table S)\<rparr>)"

definition on_disconnect :: "session \<Rightarrow> server \<Rightarrow> server" where
  "on_disconnect s S = S\<lparr>srv_table := srv_on_disconnect S s (srv_table S)\<rparr>"

definition on_receive :: "platform \<Rightarrow> session \<Rightarrow> packet_t \<Rightarrow> (server, exn, unit) act" where
  "on_receive P s raw_packet S =
     (case handle P raw_packet (srv_table S) of
        (Ok response, T) \<Rightarrow>
          (let S = S\<lparr>srv_table := T\<rparr>
           in (Ok (), if response \<noteq> [] then add_effect (Send s response) S else S))
      | (Throw e, T) \<Rightarrow> (Throw e, S\<lparr>srv_table := T\<rparr>)
      | (Undefined, T) \<Rightarrow> (Undefined, S\<lparr>srv_table := T\<rparr>))"

section \<open>Runs\<close>

datatype event =
    Start
  | Stop
  | Connect session
  | Disconnect session
  | Receive session packet_t
  | Bind_connect conn_cb
  | Bind_disconnect conn_cb

inductive server_step :: "platform \<Rightarrow> server \<Rightarrow> event \<Rightarrow> server \<Rightarrow> bool" for P where
  start: "server_step P S Start (on_start S)"
| stop: "server_step P S Stop (on_stop S)"
| connect: "server_step P S (Connect s) (on_connect s S)"
| disconnect: "server_step P S (Disconnect s) (on_disconnect s S)"
| receive: "on_receive P s p S = (Ok (), S') \<Longrightarrow> server_step P S (Receive s p) S'"
| bind_connect: "server_step P S (Bind_connect cb) (bind_connect cb S)"
| bind_disconnect: "server_step P S (Bind_disconnect cb) (bind_disconnect cb S)"

inductive_simps server_step_receive: "server_step P S (Receive s p) S'"
inductive_cases server_stepE: "server_step P S e S'"

text \<open>The runs of a server, with the events so far.\<close>

inductive server_run :: "platform \<Rightarrow> server \<Rightarrow> event list \<Rightarrow> server \<Rightarrow> bool" for P S where
  initial: "server_run P S [] S"
| event: "server_run P S es S' \<Longrightarrow> server_step P S' e S'' \<Longrightarrow> server_run P S (es @ [e]) S''"

lemma server_run_one: "server_step P S e S' \<Longrightarrow> server_run P S [e] S'"
  using server_run.event [OF server_run.initial] by force

lemma server_run_two:
  "server_step P S e S' \<Longrightarrow> server_step P S' e' S'' \<Longrightarrow> server_run P S [e, e'] S''"
  using server_run.event [OF server_run_one] by force

section \<open>Invariants\<close>

text \<open>User callbacks must keep the block invariant; nothing else is asked of them.\<close>

definition callback_ok :: "conn_cb \<Rightarrow> bool" where
  "callback_ok cb \<longleftrightarrow> (\<forall>s T. table_inv T \<longrightarrow> table_inv (cb s T))"

definition event_ok :: "event \<Rightarrow> bool" where
  "event_ok e \<longleftrightarrow>
     (case e of Bind_connect cb \<Rightarrow> callback_ok cb | Bind_disconnect cb \<Rightarrow> callback_ok cb | _ \<Rightarrow> True)"

definition server_inv :: "server \<Rightarrow> bool" where
  "server_inv S \<longleftrightarrow> table_inv (srv_table S) \<and> callback_ok (srv_on_connect S) \<and>
     callback_ok (srv_on_disconnect S)"

lemma server_inv_make [simp]: "table_inv T \<Longrightarrow> server_inv (make_server T)"
  by (simp add: server_inv_def make_server_def callback_ok_def)

lemma add_effect_simps [simp]:
  "srv_table (add_effect e S) = srv_table S"
  "srv_on_connect (add_effect e S) = srv_on_connect S"
  "srv_on_disconnect (add_effect e S) = srv_on_disconnect S"
  "srv_effects (add_effect e S) = srv_effects S @ [e]"
  by (simp_all add: add_effect_def)

lemma handle_keeps_inv:
  "platform_ok P \<Longrightarrow> table_inv T \<Longrightarrow> table_inv (snd (handle P p T))"
  by (rule handle_cases [of P T p]) auto

text \<open>What a completed receive did.\<close>

lemma on_receive_ok:
  "on_receive P s p S = (Ok (), S') \<longleftrightarrow>
     (\<exists>r T. handle P p (srv_table S) = (Ok r, T) \<and>
        S' = (if r = [] then S\<lparr>srv_table := T\<rparr> else add_effect (Send s r) (S\<lparr>srv_table := T\<rparr>)))"
  by (auto simp: on_receive_def Let_def split: prod.splits outcome.splits)

lemma server_step_inv:
  assumes "platform_ok P" "server_step P S e S'" "server_inv S" "event_ok e"
  shows "server_inv S'"
  using assms(2)
proof cases
  case (receive s p)
  then show ?thesis
    using assms(1,3) handle_keeps_inv [OF assms(1), of "srv_table S" p]
    by (auto simp: on_receive_ok server_inv_def)
qed (use assms(3,4) in \<open>auto simp: server_inv_def on_start_def on_stop_def on_connect_def
      on_disconnect_def bind_connect_def bind_disconnect_def callback_ok_def event_ok_def Let_def\<close>)

lemma server_run_inv:
  assumes "platform_ok P" "server_run P S es S'" "server_inv S" "list_all event_ok es"
  shows "server_inv S'"
  using assms(2,4)
proof induction
  case (event es S' e S'')
  then show ?case using server_step_inv [OF assms(1)] by simp
qed (use assms(3) in simp)

section \<open>Requests and replies\<close>

text \<open>The packets a session sent that have a function byte, and the packets sent to it.\<close>

definition requests_of :: "session \<Rightarrow> event list \<Rightarrow> packet_t list" where
  "requests_of s es =
     concat (map (\<lambda>e. case e of Receive t p \<Rightarrow> (if t = s \<and> 8 \<le> length p then [p] else [])
                     | _ \<Rightarrow> []) es)"

definition replies_to :: "session \<Rightarrow> effect list \<Rightarrow> packet_t list" where
  "replies_to s effs =
     concat (map (\<lambda>e. case e of Send t r \<Rightarrow> (if t = s then [r] else []) | No_delay _ \<Rightarrow> []) effs)"

definition answers :: "packet_t \<Rightarrow> packet_t \<Rightarrow> bool" where
  "answers p r \<longleftrightarrow>
     packet_u16 r 0 = packet_u16 p 0 \<and> packet_u16 r 2 = 0 \<and> r ! 6 = p ! 6 \<and>
     unat (packet_u16 r 4) = length r - 6 \<and> 9 \<le> length r \<and> length r \<le> unat max_adu_length \<and>
     (r ! 7 = p ! 7 \<or> r ! 7 = error_function_byte (p ! 7))"

lemma lists_append [simp]:
  "requests_of s [] = []" "replies_to s [] = []"
  "requests_of s (es @ es') = requests_of s es @ requests_of s es'"
  "replies_to s (fs @ fs') = replies_to s fs @ replies_to s fs'"
  by (simp_all add: requests_of_def replies_to_def)

lemma handle_answers:
  assumes "platform_ok P" "table_inv T" "handle P p T = (Ok r, T')"
  shows "if length p < 8 then r = [] else r \<noteq> [] \<and> answers p r"
  using assms(1,2)
proof (rule handle_cases [of P T p])
  fix body T''
  assume a: "8 \<le> length p" "spec_request p (table_image T) = Reply body (table_image T'')"
    "handle P p T = (Ok (adu_packet (packet_u16 p 0) (p ! 6) (p ! 7) body), T'')"
  with spec_reply_body_length [OF a(2)] assms(3) show ?thesis
    by (auto simp: answers_def unat_length_field max_adu_length_def)
next
  fix ec
  assume "8 \<le> length p" "handle P p T = (Ok (adu_packet (packet_u16 p 0) (p ! 6)
      (error_function_byte (p ! 7)) [exception_underlying ec]), T)"
  with assms(3) show ?thesis
    using adu_packet_length_field [of "[exception_underlying ec]"]
    by (auto simp: answers_def max_adu_length_def)
qed (use assms(3) in auto)

text \<open>One step adds to each session's replies what its event asks for.\<close>

lemma server_step_replies:
  assumes "platform_ok P" "server_step P S e S'" "server_inv S"
  shows "\<exists>rs. replies_to s (srv_effects S') = replies_to s (srv_effects S) @ rs \<and>
    list_all2 answers (requests_of s [e]) rs"
  using assms(2)
proof cases
  case (receive t p)
  then obtain r T where h: "handle P p (srv_table S) = (Ok r, T)"
    and S': "S' = (if r = [] then S\<lparr>srv_table := T\<rparr>
                   else add_effect (Send t r) (S\<lparr>srv_table := T\<rparr>))"
    by (auto simp: on_receive_ok)
  have "table_inv (srv_table S)" using assms(3) by (simp add: server_inv_def)
  from handle_answers [OF assms(1) this h] S' show ?thesis
    by (auto simp: receive(1) requests_of_def replies_to_def split: if_splits)
qed (auto simp: requests_of_def replies_to_def on_start_def on_stop_def on_connect_def
      on_disconnect_def bind_connect_def bind_disconnect_def Let_def)

lemma server_run_replies:
  assumes "platform_ok P" "server_run P S es S'" "server_inv S" "list_all event_ok es"
  shows "\<exists>rs. replies_to s (srv_effects S') = replies_to s (srv_effects S) @ rs \<and>
    list_all2 answers (requests_of s es) rs"
  using assms(2,4)
proof induction
  case (event es S' e S'')
  then obtain rs where rs: "replies_to s (srv_effects S') = replies_to s (srv_effects S) @ rs"
      "list_all2 answers (requests_of s es) rs"
    by auto
  have "server_inv S'" using server_run_inv [OF assms(1) event(1) assms(3)] event by simp
  from server_step_replies [OF assms(1) event(2) this, of s] rs show ?case
    by (auto intro: list_all2_appendI)
qed simp

section \<open>Servers without user callbacks\<close>

text \<open>An event that cannot change the table by itself: no user callback is bound.\<close>

definition plain_event :: "event \<Rightarrow> bool" where
  "plain_event e \<longleftrightarrow> (case e of Bind_connect _ \<Rightarrow> False | Bind_disconnect _ \<Rightarrow> False | _ \<Rightarrow> True)"

definition plain_server :: "server \<Rightarrow> bool" where
  "plain_server S \<longleftrightarrow> table_inv (srv_table S) \<and>
     srv_on_connect S = (\<lambda>_ T. T) \<and> srv_on_disconnect S = (\<lambda>_ T. T)"

section \<open>A run as one sequence of requests\<close>

text \<open>The packets of a run, in the order of their arrival, whatever their session.\<close>

definition received :: "event list \<Rightarrow> (session \<times> packet_t) list" where
  "received es = concat (map (\<lambda>e. case e of Receive s p \<Rightarrow> [(s, p)] | _ \<Rightarrow> []) es)"

text \<open>Serving a sequence of packets: one after the other, each on the table the last one left.\<close>

fun serve_all :: "platform \<Rightarrow> (session \<times> packet_t) list \<Rightarrow> table \<Rightarrow> effect list \<times> table" where
  "serve_all P [] T = ([], T)"
| "serve_all P ((s, p) # ps) T =
     (case handle P p T of (r, T') \<Rightarrow>
       (case serve_all P ps T' of (effs, T'') \<Rightarrow>
         ((case r of Ok reply \<Rightarrow> (if reply = [] then [] else [Send s reply]) | _ \<Rightarrow> []) @ effs, T'')))"

primrec is_send :: "effect \<Rightarrow> bool" where
  "is_send (Send s r) = True"
| "is_send (No_delay s) = False"

lemma received_append [simp]: "received [] = []" "received (es @ es') = received es @ received es'"
  by (simp_all add: received_def)

lemma serve_all_snoc:
  "serve_all P (ps @ [(s, p)]) T =
    (case serve_all P ps T of (effs, T') \<Rightarrow>
      (case handle P p T' of (r, T'') \<Rightarrow>
        (effs @ (case r of Ok reply \<Rightarrow> (if reply = [] then [] else [Send s reply]) | _ \<Rightarrow> []), T'')))"
  by (induction P ps T rule: serve_all.induct) (simp_all split: prod.split)

lemma server_run_serves:
  assumes "platform_ok P" "server_run P S es S'" "plain_server S" "list_all plain_event es"
  shows "plain_server S' \<and> srv_table S' = snd (serve_all P (received es) (srv_table S)) \<and>
    filter is_send (srv_effects S') =
      filter is_send (srv_effects S) @ fst (serve_all P (received es) (srv_table S))"
  using assms(2,4)
proof induction
  case (event es S' e S'')
  then have IH: "plain_server S'" "srv_table S' = snd (serve_all P (received es) (srv_table S))"
    "filter is_send (srv_effects S') =
      filter is_send (srv_effects S) @ fst (serve_all P (received es) (srv_table S))"
    and e: "plain_event e"
    by simp_all
  obtain effs T where sa: "serve_all P (received es) (srv_table S) = (effs, T)" by fastforce
  from event(2) show ?case
  proof cases
    case (receive s p)
    then obtain r T' where h: "handle P p T = (Ok r, T')"
      and S'': "S'' = (if r = [] then S'\<lparr>srv_table := T'\<rparr>
                     else add_effect (Send s r) (S'\<lparr>srv_table := T'\<rparr>))"
      using IH(2) by (auto simp: on_receive_ok sa)
    have "table_inv T'"
      using handle_keeps_inv [OF assms(1), of T p] IH(1,2) h by (simp add: plain_server_def sa)
    then show ?thesis
      using IH S'' by (simp add: receive(1) received_def [of "[_]"] serve_all_snoc sa h
          plain_server_def)
  qed (use IH e in \<open>auto simp: plain_server_def on_start_def on_stop_def on_connect_def
        on_disconnect_def plain_event_def received_def [of "[_]"] Let_def\<close>)
qed (use assms(3) in simp)

end
