(* ===== verification/Modbus_Concurrent_Server.thy ===== *)
theory Modbus_Concurrent_Server
  imports Modbus_Concurrent_Requests Modbus_Server "HOL-Library.Multiset"
begin

text \<open>
  The server with its threads (\<open>server.cpp\<close>): the networking library may start a callback while
  others are still running. A callback that runs is a task, whose table accesses are steps of
  their own; the user callbacks are programs, too. Whether the library waits with the next
  packet of a session until the callback for its last one has returned is the parameter
  \<open>serial\<close>; packets of different sessions are never kept apart. The server of \<open>Modbus_Server\<close>,
  which runs one callback at a time, is simulated by this one.
\<close>

section \<open>The server object and its tasks\<close>

type_synonym call = "session \<Rightarrow> (table, unit) prog"

datatype task =
    Handling session packet_t "(table, (exn, packet_t) outcome) prog"
  | Calling "(table, unit) prog"

record concurrent_server =
  cs_table :: table
  cs_on_connect :: call
  cs_on_disconnect :: call
  cs_tasks :: "task list"
  cs_effects :: "effect list"

definition make_concurrent_server :: "table \<Rightarrow> concurrent_server" where
  "make_concurrent_server T =
     \<lparr>cs_table = T, cs_on_connect = (\<lambda>_. Done ()), cs_on_disconnect = (\<lambda>_. Done ()),
      cs_tasks = [], cs_effects = []\<rparr>"

datatype cs_event =
    Cs_start
  | Cs_stop
  | Cs_connect session
  | Cs_disconnect session
  | Cs_receive session packet_t
  | Cs_bind_connect call
  | Cs_bind_disconnect call

text \<open>The packets of a session whose callbacks are running.\<close>

fun outstanding :: "session \<Rightarrow> task list \<Rightarrow> packet_t list" where
  "outstanding s [] = []"
| "outstanding s (Handling t p q # ts) = (if t = s then [p] else []) @ outstanding s ts"
| "outstanding s (Calling q # ts) = outstanding s ts"

definition start_task :: "task \<Rightarrow> concurrent_server \<Rightarrow> concurrent_server" where
  "start_task t C = C\<lparr>cs_tasks := cs_tasks C @ [t]\<rparr>"

definition cs_effect :: "effect \<Rightarrow> concurrent_server \<Rightarrow> concurrent_server" where
  "cs_effect e C = C\<lparr>cs_effects := cs_effects C @ [e]\<rparr>"

text \<open>
  The label of a step: the event of the networking library that starts a callback, or nothing for
  a step of a task. The last two rules are the end of a callback; \<open>on_receive\<close> sends the response
  unless it is empty. A task whose program is undefined, or throws, has no step, and the others
  go on; in the code the process has undefined behaviour then, or terminates, so the runs here
  include more than the code's.
\<close>

inductive cs_step ::
    "platform \<Rightarrow> bool \<Rightarrow> concurrent_server \<Rightarrow> cs_event list \<Rightarrow> concurrent_server \<Rightarrow> bool"
  for P serial where
  cs_start: "cs_step P serial C [Cs_start] C"
| cs_stop: "cs_step P serial C [Cs_stop] C"
| cs_connect: "cs_step P serial C [Cs_connect s]
    (start_task (Calling (cs_on_connect C s)) (cs_effect (No_delay s) C))"
| cs_disconnect: "cs_step P serial C [Cs_disconnect s] (start_task (Calling (cs_on_disconnect C s)) C)"
| cs_receive: "(serial \<Longrightarrow> outstanding s (cs_tasks C) = []) \<Longrightarrow>
    cs_step P serial C [Cs_receive s p] (start_task (Handling s p (handle_program P p)) C)"
| cs_bind_connect: "cs_step P serial C [Cs_bind_connect cb] (C\<lparr>cs_on_connect := cb\<rparr>)"
| cs_bind_disconnect: "cs_step P serial C [Cs_bind_disconnect cb] (C\<lparr>cs_on_disconnect := cb\<rparr>)"
| cs_handles: "cs_tasks C = xs @ Handling s p (Access k) # ys \<Longrightarrow> k (cs_table C) = (q, T) \<Longrightarrow>
    cs_step P serial C [] (C\<lparr>cs_table := T, cs_tasks := xs @ Handling s p q # ys\<rparr>)"
| cs_calls: "cs_tasks C = xs @ Calling (Access k') # ys \<Longrightarrow> k' (cs_table C) = (q', T) \<Longrightarrow>
    cs_step P serial C [] (C\<lparr>cs_table := T, cs_tasks := xs @ Calling q' # ys\<rparr>)"
| cs_responds: "cs_tasks C = xs @ Handling s p (Done (Ok response)) # ys \<Longrightarrow>
    cs_step P serial C []
      (if response \<noteq> [] then cs_effect (Send s response) (C\<lparr>cs_tasks := xs @ ys\<rparr>)
       else C\<lparr>cs_tasks := xs @ ys\<rparr>)"
| cs_returns: "cs_tasks C = xs @ Calling (Done u) # ys \<Longrightarrow>
    cs_step P serial C [] (C\<lparr>cs_tasks := xs @ ys\<rparr>)"

inductive_cases cs_stepE: "cs_step P serial C e C'"

inductive cs_run ::
    "platform \<Rightarrow> bool \<Rightarrow> concurrent_server \<Rightarrow> cs_event list \<Rightarrow> concurrent_server \<Rightarrow> bool"
  for P serial C where
  cs_initial: "cs_run P serial C [] C"
| cs_event: "cs_run P serial C es C' \<Longrightarrow> cs_step P serial C' e C'' \<Longrightarrow> cs_run P serial C (es @ e) C''"

lemma cs_run_step: "cs_step P serial C e C' \<Longrightarrow> cs_run P serial C e C'"
  using cs_event [OF cs_initial] by fastforce

lemma cs_run_trans:
  "cs_run P serial D fs E \<Longrightarrow> cs_run P serial C es D \<Longrightarrow> cs_run P serial C (es @ fs) E"
  by (induction rule: cs_run.induct) (auto simp flip: append_assoc intro: cs_event)

section \<open>What every run keeps\<close>

lemma outstanding_append [simp]: "outstanding s (xs @ ys) = outstanding s xs @ outstanding s ys"
  by (induction s xs rule: outstanding.induct) auto

lemma task_fields [simp]:
  "cs_table (start_task t C) = cs_table C" "cs_on_connect (start_task t C) = cs_on_connect C"
  "cs_on_disconnect (start_task t C) = cs_on_disconnect C" "cs_effects (start_task t C) = cs_effects C"
  "cs_tasks (start_task t C) = cs_tasks C @ [t]"
  "cs_table (cs_effect e C) = cs_table C" "cs_on_connect (cs_effect e C) = cs_on_connect C"
  "cs_on_disconnect (cs_effect e C) = cs_on_disconnect C"
  "cs_effects (cs_effect e C) = cs_effects C @ [e]" "cs_tasks (cs_effect e C) = cs_tasks C"
  by (simp_all add: start_task_def cs_effect_def)

text \<open>
  User callbacks keep the invariant and the extents of the table at every access; they may write
  any area. Every task keeps them, and a request ends as it would alone on the first table.
\<close>

definition call_ok :: "table \<Rightarrow> (table, unit) prog \<Rightarrow> bool" where
  "call_ok T0 q \<longleftrightarrow> guarantees (table_like T0) (\<lambda>_. True) q"

definition cs_event_ok :: "table \<Rightarrow> cs_event \<Rightarrow> bool" where
  "cs_event_ok T0 e \<longleftrightarrow>
     (case e of Cs_bind_connect cb \<Rightarrow> (\<forall>s. call_ok T0 (cb s))
      | Cs_bind_disconnect cb \<Rightarrow> (\<forall>s. call_ok T0 (cb s)) | _ \<Rightarrow> True)"

primrec task_ok :: "platform \<Rightarrow> table \<Rightarrow> task \<Rightarrow> bool" where
  "task_ok P T0 (Handling s p q) =
     guarantees (table_like T0) (same_but_values p (fst (handle P p T0))) q"
| "task_ok P T0 (Calling q) = call_ok T0 q"

definition cs_ok :: "platform \<Rightarrow> table \<Rightarrow> concurrent_server \<Rightarrow> bool" where
  "cs_ok P T0 C \<longleftrightarrow> table_like T0 (cs_table C) \<and> (\<forall>s. call_ok T0 (cs_on_connect C s)) \<and>
     (\<forall>s. call_ok T0 (cs_on_disconnect C s)) \<and> list_all (task_ok P T0) (cs_tasks C)"

lemma make_concurrent_server_ok: "table_inv T \<Longrightarrow> cs_ok P T (make_concurrent_server T)"
  by (simp add: cs_ok_def make_concurrent_server_def call_ok_def table_like_refl)

lemma cs_step_ok:
  assumes P: "platform_ok P" and T0: "table_inv T0"
    and step: "cs_step P serial C e C'" "cs_ok P T0 C" "list_all (cs_event_ok T0) e"
  shows "cs_ok P T0 C'"
  using step
proof (induction rule: cs_step.induct)
  case (cs_handles C xs s p k ys q T)
  then have "guarantees (table_like T0) (same_but_values p (fst (handle P p T0))) (Access k)"
    "table_like T0 (cs_table C)" by (auto simp: cs_ok_def)
  with cs_handles show ?case by (auto simp: cs_ok_def guarantees_Access_iff)
next
  case (cs_calls C xs k ys q T)
  then have "guarantees (table_like T0) (\<lambda>_. True) (Access k)" "table_like T0 (cs_table C)"
    by (auto simp: cs_ok_def call_ok_def)
  with cs_calls show ?case by (auto simp: cs_ok_def call_ok_def guarantees_Access_iff)
qed (auto simp: cs_ok_def cs_event_ok_def handle_program_guarantees [OF P T0])

lemma cs_run_ok:
  assumes "platform_ok P" "table_inv T0" "cs_run P serial C es C'" "cs_ok P T0 C"
    and "list_all (cs_event_ok T0) es"
  shows "cs_ok P T0 C'"
  using assms(3,5)
  by (induction rule: cs_run.induct) (use assms(4) cs_step_ok [OF assms(1,2)] in auto)


section \<open>Requests and replies\<close>

definition cs_received :: "session \<Rightarrow> cs_event list \<Rightarrow> packet_t list" where
  "cs_received s es =
     concat (map (\<lambda>e. case e of Cs_receive t p \<Rightarrow> (if t = s then [p] else []) | _ \<Rightarrow> []) es)"

text \<open>A packet without a function byte gets no reply.\<close>

definition has_function :: "packet_t \<Rightarrow> bool" where
  "has_function p \<longleftrightarrow> 8 \<le> length p"

text \<open>A reply answers its request and is the one it would get alone, up to values.\<close>

definition reply_ok :: "platform \<Rightarrow> table \<Rightarrow> packet_t \<Rightarrow> packet_t \<Rightarrow> bool" where
  "reply_ok P T0 p r \<longleftrightarrow> answers p r \<and> same_but_values p (fst (handle P p T0)) (Ok r)"

lemma cs_received_append [simp]:
  "cs_received s [] = []" "cs_received s (es @ fs) = cs_received s es @ cs_received s fs"
  by (simp_all add: cs_received_def)

lemma cs_received_one [simp]:
  "cs_received s [Cs_receive t p] = (if t = s then [p] else [])"
  "cs_received s [Cs_start] = []" "cs_received s [Cs_stop] = []" "cs_received s [Cs_connect t] = []"
  "cs_received s [Cs_disconnect t] = []" "cs_received s [Cs_bind_connect cb] = []"
  "cs_received s [Cs_bind_disconnect cb] = []"
  by (simp_all add: cs_received_def)

lemma replies_to_one [simp]:
  "replies_to s [Send t r] = (if t = s then [r] else [])" "replies_to s [No_delay t] = []"
  by (simp_all add: replies_to_def)

lemma answers_first_bytes:
  assumes "answers p r" "length r' = length r" "take 8 r' = take 8 r"
  shows "answers p r'"
proof -
  have b: "r' ! i = r ! i" if "i < 8" for i
    using arg_cong [OF assms(3), of "\<lambda>xs. xs ! i"] that by simp
  have "packet_u16 r' i = packet_u16 r i" if "i < 7" for i
    using that b by (simp add: packet_u16_def)
  with b assms(1,2) show ?thesis by (simp add: answers_def)
qed

lemma response_ok:
  assumes P: "platform_ok P" and T0: "table_inv T0"
    and x: "same_but_values p (fst (handle P p T0)) (Ok r)"
  shows "if has_function p then r \<noteq> [] \<and> reply_ok P T0 p r else r = []"
proof -
  obtain r0 T' where h: "handle P p T0 = (Ok r0, T')"
    using x by (cases "handle P p T0") (auto simp: same_but_values_def)
  with x have r0: "length r = length r0" "take 8 r = take 8 r0" by (auto simp: same_but_values_def)
  show ?thesis
  proof (cases "has_function p")
    case True
    with handle_answers [OF P T0 h] have "r0 \<noteq> []" "answers p r0" by (auto simp: has_function_def)
    with True r0 x show ?thesis using answers_first_bytes [of p r0 r] by (auto simp: reply_ok_def)
  next
    case False
    with handle_answers [OF P T0 h] r0(1) show ?thesis by (simp add: has_function_def)
  qed
qed

text \<open>
  What went in is what came out and what is still inside: the packets of a session are those
  answered and those outstanding. If callbacks of a session do not overlap, at most one packet
  is outstanding, and the answered ones come first.
\<close>

definition session_inv ::
    "platform \<Rightarrow> table \<Rightarrow> bool \<Rightarrow> session \<Rightarrow> cs_event list \<Rightarrow> concurrent_server \<Rightarrow> bool" where
  "session_inv P T0 serial s es C \<longleftrightarrow>
     (\<exists>ps. list_all2 (reply_ok P T0) ps (replies_to s (cs_effects C)) \<and>
        (let requests = filter has_function (cs_received s es);
             running = filter has_function (outstanding s (cs_tasks C))
         in mset requests = mset ps + mset running \<and>
            (serial \<longrightarrow> requests = ps @ running \<and> length (outstanding s (cs_tasks C)) \<le> 1)))"

lemma session_inv_step:
  assumes P: "platform_ok P" and T0: "table_inv T0"
    and step: "cs_step P serial C e C'" "cs_ok P T0 C" "session_inv P T0 serial s es C"
  shows "session_inv P T0 serial s (es @ e) C'"
  using step
proof (induction rule: cs_step.induct)
  case (cs_receive t C p)
  then show ?case by (cases "t = s"; cases serial) (auto simp: session_inv_def Let_def)
next
  case (cs_responds C xs t p r ys)
  then have r: "if has_function p then r \<noteq> [] \<and> reply_ok P T0 p r else r = []"
    using response_ok [OF P T0, of p r] by (simp add: cs_ok_def)
  from cs_responds(3) obtain ps where ps: "list_all2 (reply_ok P T0) ps (replies_to s (cs_effects C))"
    "mset (filter has_function (cs_received s es)) =
       mset ps + mset (filter has_function (outstanding s (cs_tasks C)))"
    "serial \<Longrightarrow> filter has_function (cs_received s es) =
       ps @ filter has_function (outstanding s (cs_tasks C)) \<and> length (outstanding s (cs_tasks C)) \<le> 1"
    by (auto simp: session_inv_def Let_def)
  show ?case
  proof (cases "t = s \<and> has_function p")
    case True
    with r ps cs_responds(1) show ?thesis
      unfolding session_inv_def Let_def
      by (intro exI [of _ "ps @ [p]"]) (auto intro!: list_all2_appendI)
  next
    case False
    with r ps cs_responds(1) show ?thesis
      unfolding session_inv_def Let_def by (intro exI [of _ ps]) auto
  qed
qed (auto simp: session_inv_def Let_def)

lemma cs_run_session_inv:
  assumes "platform_ok P" "table_inv T0" "cs_run P serial C es C'" "cs_ok P T0 C"
    and "list_all (cs_event_ok T0) es" "session_inv P T0 serial s [] C"
  shows "session_inv P T0 serial s es C'"
  using assms(3,5)
proof (induction rule: cs_run.induct)
  case (cs_event es C' e C'')
  then have "cs_ok P T0 C'" using cs_run_ok [OF assms(1,2) _ assms(4)] by simp
  with cs_event show ?case using session_inv_step [OF assms(1,2)] by simp
qed (rule assms(6))

lemma session_inv_start: "session_inv P T serial s [] (make_concurrent_server T)"
  by (simp add: session_inv_def make_concurrent_server_def replies_to_def)

section \<open>Completing a run\<close>

text \<open>A task alone, in front of the others: its program is run to its end.\<close>

lemma task_runs:
  "cs_run P serial (C\<lparr>cs_table := T, cs_tasks := Handling s p q # ts\<rparr>) []
     (C\<lparr>cs_table := snd (run_prog q T), cs_tasks := Handling s p (Done (fst (run_prog q T))) # ts\<rparr>)"
proof (induction q arbitrary: T)
  case (Access k)
  have "cs_step P serial (C\<lparr>cs_table := T, cs_tasks := Handling s p (Access k) # ts\<rparr>) []
      (C\<lparr>cs_table := snd (k T), cs_tasks := Handling s p (fst (k T)) # ts\<rparr>)"
    using cs_handles [of "C\<lparr>cs_table := T, cs_tasks := Handling s p (Access k) # ts\<rparr>" "[]" s p k ts "fst (k T)" "snd (k T)"]
    by simp
  from cs_run_trans [OF Access [of T "snd (k T)"] cs_run_step [OF this]] show ?case
    by (simp add: run_Access del: run_prog.simps(2))
qed (simp add: cs_initial)

lemma call_runs:
  "cs_run P serial (C\<lparr>cs_table := T, cs_tasks := Calling q # ts\<rparr>) []
     (C\<lparr>cs_table := snd (run_prog q T), cs_tasks := Calling (Done ()) # ts\<rparr>)"
proof (induction q arbitrary: T)
  case (Access k)
  have "cs_step P serial (C\<lparr>cs_table := T, cs_tasks := Calling (Access k) # ts\<rparr>) []
      (C\<lparr>cs_table := snd (k T), cs_tasks := Calling (fst (k T)) # ts\<rparr>)"
    using cs_calls [of "C\<lparr>cs_table := T, cs_tasks := Calling (Access k) # ts\<rparr>" "[]" k ts "fst (k T)" "snd (k T)"]
    by simp
  from cs_run_trans [OF Access [of T "snd (k T)"] cs_run_step [OF this]] show ?case
    by (simp add: run_Access del: run_prog.simps(2))
qed (simp add: cs_initial)

lemma same_tasks [simp]: "cs_tasks C = ts \<Longrightarrow> C\<lparr>cs_tasks := ts\<rparr> = C"
  by (cases C) simp

lemma first_task_runs:
  assumes "cs_tasks C = Handling s p q # ts"
  shows "cs_run P serial C [] (C\<lparr>cs_table := snd (run_prog q (cs_table C)),
    cs_tasks := Handling s p (Done (fst (run_prog q (cs_table C)))) # ts\<rparr>)"
  using task_runs [where C = C and T = "cs_table C" and s = s and p = p and q = q and ts = ts] assms by simp

lemma first_call_runs:
  assumes "cs_tasks C = Calling q # ts"
  shows "cs_run P serial C [] (C\<lparr>cs_table := snd (run_prog q (cs_table C)),
    cs_tasks := Calling (Done ()) # ts\<rparr>)"
  using call_runs [where C = C and T = "cs_table C" and q = q and ts = ts] assms by simp

text \<open>A packet that is as long as its function needs is handled, alone, with a reply.\<close>

definition complete :: "packet_t \<Rightarrow> bool" where
  "complete p \<longleftrightarrow> (8 \<le> length p \<and> p ! 7 \<in> set supported_bytes \<longrightarrow> request_extent p \<le> length p)"

lemma complete_handled:
  assumes "platform_ok P" "table_inv T" "complete p"
  shows "\<exists>r. fst (handle P p T) = Ok r"
  using assms(3) spec_overread_iff [of p "table_image T"]
  by (cases rule: handle_cases [OF assms(1,2), of p, case_names short reply failure overread])
    (auto simp: complete_def)

primrec task_complete :: "task \<Rightarrow> bool" where
  "task_complete (Handling s p q) = complete p"
| "task_complete (Calling q) = True"

lemma cs_drains:
  assumes P: "platform_ok P" and T0: "table_inv T0"
    and "cs_ok P T0 C" "list_all task_complete (cs_tasks C)"
  shows "\<exists>C'. cs_run P serial C [] C' \<and> cs_tasks C' = []"
  using assms(3,4)
proof (induction "cs_tasks C" arbitrary: C)
  case Nil
  then show ?case using cs_initial by metis
next
  case (Cons t ts)
  have "\<exists>D. cs_run P serial C [] D \<and> cs_tasks D = ts"
  proof (cases t)
    case (Handling s p q)
    define D where "D = C\<lparr>cs_table := snd (run_prog q (cs_table C)),
      cs_tasks := Handling s p (Done (fst (run_prog q (cs_table C)))) # ts\<rparr>"
    have run: "cs_run P serial C [] D"
      unfolding D_def by (rule first_task_runs) (use Cons.hyps(2) Handling in simp)
    obtain r0 where "fst (handle P p T0) = Ok r0"
      using complete_handled [OF P T0, of p] Cons.prems(2) Cons.hyps(2) [symmetric] by (auto simp: Handling)
    moreover have "cs_ok P T0 D" using cs_run_ok [OF P T0 run Cons.prems(1)] by simp
    ultimately obtain r where r: "fst (run_prog q (cs_table C)) = Ok r"
      by (cases "fst (run_prog q (cs_table C))") (auto simp: cs_ok_def D_def same_but_values_def)
    have tasks: "cs_tasks D = [] @ Handling s p (Done (Ok r)) # ts" by (simp add: D_def r)
    show ?thesis using cs_run_trans [OF cs_run_step [OF cs_responds [OF tasks]] run] by fastforce
  next
    case (Calling q)
    define D where "D = C\<lparr>cs_table := snd (run_prog q (cs_table C)), cs_tasks := Calling (Done ()) # ts\<rparr>"
    have run: "cs_run P serial C [] D"
      unfolding D_def by (rule first_call_runs) (use Cons.hyps(2) Calling in simp)
    have tasks: "cs_tasks D = [] @ Calling (Done ()) # ts" by (simp add: D_def)
    show ?thesis using cs_run_trans [OF cs_run_step [OF cs_returns [OF tasks]] run] by fastforce
  qed
  then obtain D where D: "cs_run P serial C [] D" "cs_tasks D = ts" by blast
  have "cs_ok P T0 D" using cs_run_ok [OF P T0 D(1) Cons.prems(1)] by simp
  moreover have "list_all task_complete (cs_tasks D)"
    using Cons.prems(2) D(2) Cons.hyps(2) [symmetric] by simp
  ultimately obtain C' where "cs_run P serial D [] C'" "cs_tasks C' = []"
    using Cons.hyps(1) [of D] D(2) by auto
  with cs_run_trans [OF _ D(1)] show ?case by fastforce
qed

text \<open>What is outstanding was received.\<close>

lemma outstanding_complete:
  assumes "\<And>s. session_inv P T0 serial s es C" "\<forall>s. \<forall>p \<in> set (cs_received s es). complete p"
  shows "list_all task_complete (cs_tasks C)"
proof -
  have c: "complete p" if "p \<in> set (outstanding s (cs_tasks C))" for s p
  proof (cases "has_function p")
    case True
    obtain ps where "mset (filter has_function (cs_received s es)) =
        mset ps + mset (filter has_function (outstanding s (cs_tasks C)))"
      using assms(1) [of s] by (auto simp: session_inv_def Let_def)
    then have "set (filter has_function (outstanding s (cs_tasks C))) \<subseteq>
        set (filter has_function (cs_received s es))"
      by (metis mset_subset_eq_add_right set_mset_mono set_mset_mset)
    with True that assms(2) show ?thesis by auto
  qed (simp add: complete_def has_function_def)
  have "list_all task_complete ts" if "\<And>s p. p \<in> set (outstanding s ts) \<Longrightarrow> complete p" for ts
    using that
  proof (induction ts)
    case (Cons t ts)
    have "task_complete t" using Cons.prems by (cases t) fastforce+
    moreover have "complete p" if "p \<in> set (outstanding s ts)" for s p
      using Cons.prems [of p s] that by (cases t) auto
    ultimately show ?case using Cons.IH by simp
  qed simp
  then show ?thesis using c by blast
qed

section \<open>One callback at a time\<close>

text \<open>
  A simulation between two step relations with labels: every step of the first is matched by a
  run of the second, whose labels are those of the step.
\<close>

locale run_simulation =
  fixes step :: "'s \<Rightarrow> 'e \<Rightarrow> 's \<Rightarrow> bool" and run :: "'s \<Rightarrow> 'e list \<Rightarrow> 's \<Rightarrow> bool"
    and detailed :: "'t \<Rightarrow> 'f list \<Rightarrow> 't \<Rightarrow> bool" and labels :: "'e \<Rightarrow> 'f list"
    and rel :: "'s \<Rightarrow> 't \<Rightarrow> bool"
  assumes run_cases: "run s es s' \<Longrightarrow>
      es = [] \<and> s' = s \<or> (\<exists>fs e t. es = fs @ [e] \<and> run s fs t \<and> step t e s')"
    and detailed_refl: "detailed t [] t"
    and detailed_trans: "detailed t fs u \<Longrightarrow> detailed u gs v \<Longrightarrow> detailed t (fs @ gs) v"
    and step_matched: "rel s t \<Longrightarrow> step s e s' \<Longrightarrow> \<exists>t'. detailed t (labels e) t' \<and> rel s' t'"
begin

lemma run_matched:
  "run s es s' \<Longrightarrow> rel s t \<Longrightarrow> \<exists>t'. detailed t (concat (map labels es)) t' \<and> rel s' t'"
proof (induction es arbitrary: s' rule: rev_induct)
  case Nil
  then show ?case using run_cases [of s "[]" s'] detailed_refl by auto
next
  case (snoc e es)
  then obtain u where "run s es u" "step u e s'" using run_cases [of s "es @ [e]" s'] by auto
  with snoc obtain t' where t': "detailed t (concat (map labels es)) t'" "rel u t'" by blast
  from step_matched [OF t'(2) \<open>step u e s'\<close>] show ?case
    using detailed_trans [OF t'(1)] by auto
qed

end

text \<open>A user callback of \<open>Modbus_Server\<close> is one access.\<close>

definition whole_call :: "conn_cb \<Rightarrow> call" where
  "whole_call cb s = Access (\<lambda>T. (Done (), cb s T))"

definition cs_events :: "event \<Rightarrow> cs_event list" where
  "cs_events e = (case e of
     Start \<Rightarrow> [Cs_start] | Stop \<Rightarrow> [Cs_stop] | Connect s \<Rightarrow> [Cs_connect s]
   | Disconnect s \<Rightarrow> [Cs_disconnect s] | Receive s p \<Rightarrow> [Cs_receive s p]
   | Bind_connect cb \<Rightarrow> [Cs_bind_connect (whole_call cb)]
   | Bind_disconnect cb \<Rightarrow> [Cs_bind_disconnect (whole_call cb)])"

definition idle_server :: "server \<Rightarrow> concurrent_server" where
  "idle_server S =
     \<lparr>cs_table = srv_table S, cs_on_connect = whole_call (srv_on_connect S),
      cs_on_disconnect = whole_call (srv_on_disconnect S), cs_tasks = [],
      cs_effects = srv_effects S\<rparr>"

lemma call_matched:
  assumes "cs_tasks C = []"
  shows "cs_run P serial (start_task (Calling (whole_call cb s)) C) []
    (C\<lparr>cs_table := cb s (cs_table C)\<rparr>)"
proof -
  let ?C = "start_task (Calling (whole_call cb s)) C"
  have run: "cs_run P serial ?C [] (C\<lparr>cs_table := cb s (cs_table C), cs_tasks := [Calling (Done ())]\<rparr>)"
    using first_call_runs [of ?C "whole_call cb s" "[]" P serial] assms
    by (simp add: whole_call_def start_task_def)
  have "cs_step P serial (C\<lparr>cs_table := cb s (cs_table C), cs_tasks := [Calling (Done ())]\<rparr>) []
      (C\<lparr>cs_table := cb s (cs_table C)\<rparr>)"
    using cs_returns [of "C\<lparr>cs_table := cb s (cs_table C), cs_tasks := [Calling (Done ())]\<rparr>" "[]"]
      assms by simp
  from cs_run_trans [OF cs_run_step [OF this] run] show ?thesis by simp
qed

lemma receive_matched:
  assumes "cs_tasks C = []" "handle P p (cs_table C) = (Ok r, T)"
  shows "cs_run P serial C [Cs_receive s p]
    (if r = [] then C\<lparr>cs_table := T\<rparr> else cs_effect (Send s r) (C\<lparr>cs_table := T\<rparr>))"
proof -
  let ?C = "start_task (Handling s p (handle_program P p)) C"
  let ?D = "C\<lparr>cs_table := T, cs_tasks := [Handling s p (Done (Ok r))]\<rparr>"
  have start: "cs_run P serial C [Cs_receive s p] ?C"
    using assms(1) by (intro cs_run_step cs_receive) simp
  have run: "cs_run P serial ?C [] ?D"
    using first_task_runs [of ?C s p "handle_program P p" "[]" P serial] assms
    by (simp add: run_handle_program start_task_def)
  have "cs_step P serial ?D [] (if r \<noteq> [] then cs_effect (Send s r) (?D\<lparr>cs_tasks := [] @ []\<rparr>)
      else ?D\<lparr>cs_tasks := [] @ []\<rparr>)"
    by (rule cs_responds) simp
  then have "cs_step P serial ?D []
      (if r = [] then C\<lparr>cs_table := T\<rparr> else cs_effect (Send s r) (C\<lparr>cs_table := T\<rparr>))"
    using assms(1) by (cases "r = []") simp_all
  from cs_run_trans [OF cs_run_step [OF this] cs_run_trans [OF run start]] show ?thesis by simp
qed

interpretation threads: run_simulation "server_step P" "server_run P" "cs_run P serial" cs_events
  "\<lambda>S C. C = idle_server S" for P serial
proof unfold_locales
  fix S es S'
  assume "server_run P S es S'"
  then show "es = [] \<and> S' = S \<or>
      (\<exists>fs e t. es = fs @ [e] \<and> server_run P S fs t \<and> server_step P t e S')"
    by cases auto
next
  fix S C e S'
  assume C: "C = idle_server S" and "server_step P S e S'"
  have idle: "cs_tasks C = []" by (simp add: C idle_server_def)
  from \<open>server_step P S e S'\<close>
  have "cs_run P serial C (cs_events e) (idle_server S')"
  proof cases
    case (connect s)
    let ?D = "cs_effect (No_delay s) C"
    have "cs_step P serial C [Cs_connect s] (start_task (Calling (cs_on_connect C s)) ?D)"
      by (rule cs_connect)
    moreover have "cs_run P serial (start_task (Calling (cs_on_connect C s)) ?D) []
        (?D\<lparr>cs_table := srv_on_connect S s (cs_table ?D)\<rparr>)"
      using call_matched [of ?D P serial "srv_on_connect S" s] idle by (simp add: C idle_server_def)
    ultimately have "cs_run P serial C [Cs_connect s] (?D\<lparr>cs_table := srv_on_connect S s (cs_table ?D)\<rparr>)"
      using cs_run_trans [OF _ cs_run_step] by fastforce
    then show ?thesis
      by (simp add: connect cs_events_def C idle_server_def on_connect_def add_effect_def
          cs_effect_def Let_def)
  next
    case (disconnect s)
    have "cs_step P serial C [Cs_disconnect s] (start_task (Calling (cs_on_disconnect C s)) C)"
      by (rule cs_disconnect)
    moreover have "cs_run P serial (start_task (Calling (cs_on_disconnect C s)) C) []
        (C\<lparr>cs_table := srv_on_disconnect S s (cs_table C)\<rparr>)"
      using call_matched [of C P serial "srv_on_disconnect S" s] idle by (simp add: C idle_server_def)
    ultimately have "cs_run P serial C [Cs_disconnect s]
        (C\<lparr>cs_table := srv_on_disconnect S s (cs_table C)\<rparr>)"
      using cs_run_trans [OF _ cs_run_step] by fastforce
    then show ?thesis
      by (simp add: disconnect cs_events_def C idle_server_def on_disconnect_def)
  next
    case (receive s p)
    then obtain r T where h: "handle P p (cs_table C) = (Ok r, T)"
      and S': "S' = (if r = [] then S\<lparr>srv_table := T\<rparr> else add_effect (Send s r) (S\<lparr>srv_table := T\<rparr>))"
      by (auto simp: on_receive_ok C idle_server_def)
    from receive_matched [OF idle h, of serial s] show ?thesis
      by (cases "r = []") (simp_all add: receive(1) cs_events_def S' C idle_server_def cs_effect_def
          add_effect_def)
  next
    case (bind_connect cb)
    then show ?thesis
      using cs_run_step [OF cs_bind_connect, of P serial C "whole_call cb"]
      by (simp add: cs_events_def C idle_server_def bind_connect_def)
  next
    case (bind_disconnect cb)
    then show ?thesis
      using cs_run_step [OF cs_bind_disconnect, of P serial C "whole_call cb"]
      by (simp add: cs_events_def C idle_server_def bind_disconnect_def)
  qed (use cs_run_step [OF cs_start] cs_run_step [OF cs_stop] in
      \<open>simp_all add: cs_events_def C on_start_def on_stop_def\<close>)
  then show "\<exists>C'. cs_run P serial C (cs_events e) C' \<and> C' = idle_server S'" by blast
qed (auto intro: cs_initial cs_run_trans)

end
