(* ===== verification/Modbus_Request_Codec.thy ===== *)
theory Modbus_Request_Codec
  imports Modbus_Request_Handler
begin

text \<open>
  The client's half of the request classes: what \<open>encode\<close> sends, and that the server's
  \<open>decode\<close> of the same class gets it back. The interface of a request class is a locale, with
  the laws that \<open>encode\<close> produces a well-formed packet with a given body, that \<open>decode\<close> reads
  that body into the same fields, and that the packet is as long as the server expects; every
  class is an instance.
\<close>

section \<open>The interface\<close>

text \<open>What the constructors of a class set: its function, as an enumerator and as a byte.\<close>

definition ready :: "function_code \<Rightarrow> 'a adu_scheme \<Rightarrow> bool" where
  "ready f r \<longleftrightarrow> adu_function r = f \<and> adu_function_code r = function_underlying f"

text \<open>What \<open>enc\<close> makes of the request \<open>r\<close>, \<open>dec\<close> reads into a fresh one with these fields.\<close>

definition decodes_as ::
    "('a adu_scheme, exn, packet_t) act \<Rightarrow> (packet_t \<Rightarrow> ('a adu_scheme, exn, unit) act) \<Rightarrow>
     'a adu_scheme \<Rightarrow> ('a adu_scheme \<Rightarrow> 'f) \<Rightarrow> 'a adu_scheme \<Rightarrow> 'f \<Rightarrow> bool" where
  "decodes_as enc dec fresh get r v \<longleftrightarrow>
     (case enc r of
        (Ok p, _) \<Rightarrow>
          (case dec p fresh of
             (Ok _, q) \<Rightarrow> get q = v \<and> adu_transaction q = adu_transaction r \<and>
               adu_unit q = adu_unit r
           | _ \<Rightarrow> False)
      | _ \<Rightarrow> False)"

locale request_codec =
  fixes enc :: "platform \<Rightarrow> ('a adu_scheme, exn, packet_t) act"
    and dec :: "platform \<Rightarrow> packet_t \<Rightarrow> ('a adu_scheme, exn, unit) act"
    and fresh :: "'a adu_scheme"
    and code :: function_code
    and body_of :: "'a adu_scheme \<Rightarrow> byte list"
    and fields_of :: "'a adu_scheme \<Rightarrow> 'f"
    and sendable :: "'a adu_scheme \<Rightarrow> bool"
  assumes encodes: "platform_ok P \<Longrightarrow> sendable r \<Longrightarrow>
      enc P r = (Ok (adu_packet (adu_transaction r) (adu_unit r) (function_underlying code)
                       (body_of r)), calc_length (word_of_nat (length (body_of r))) r)"
    and decodes: "platform_ok P \<Longrightarrow> sendable r \<Longrightarrow>
      p = adu_packet t u (function_underlying code) (body_of r) \<Longrightarrow>
      \<exists>q. dec P p fresh = (Ok (), q) \<and> fields_of q = fields_of r \<and>
          adu_transaction q = t \<and> adu_unit q = u"
    and complete: "sendable r \<Longrightarrow> p = adu_packet t u (function_underlying code) (body_of r) \<Longrightarrow>
      request_extent p \<le> length p"
begin

lemma encode_ok:
  "platform_ok P \<Longrightarrow> sendable r \<Longrightarrow> enc P r = (Ok p, r') \<Longrightarrow>
   p = adu_packet (adu_transaction r) (adu_unit r) (function_underlying code) (body_of r) \<and>
   r' = calc_length (word_of_nat (length (body_of r))) r"
  using encodes by simp

lemma round_trip:
  assumes "platform_ok P" "sendable r"
  shows "decodes_as (enc P) (dec P) fresh fields_of r (fields_of r)"
proof -
  obtain q where "dec P (adu_packet (adu_transaction r) (adu_unit r) (function_underlying code)
      (body_of r)) fresh = (Ok (), q)" "fields_of q = fields_of r"
    "adu_transaction q = adu_transaction r" "adu_unit q = adu_unit r"
    using decodes [OF assms refl] by blast
  with encodes [OF assms] show ?thesis by (simp add: decodes_as_def)
qed

text \<open>Whatever the table, the server answers what a client has encoded.\<close>

lemma served:
  assumes "platform_ok P" "sendable r" "table_inv T" "enc P r = (Ok p, r')"
  shows "\<exists>reply T'. handle P p T = (Ok reply, T') \<and> reply \<noteq> []"
proof -
  from encode_ok [OF assms(1,2,4)] have
    p: "p = adu_packet (adu_transaction r) (adu_unit r) (function_underlying code) (body_of r)"
    by simp
  from complete [OF assms(2) p] have "spec_request p (table_image T) \<noteq> Overread"
    by (simp add: spec_overread_iff)
  moreover have "8 \<le> length p" by (simp add: p)
  ultimately show ?thesis
    by (cases rule: handle_cases [OF assms(1,3), of p]) auto
qed

end

section \<open>Bodies\<close>

lemma packet_u16_u16_bytes [simp]:
  "packet_u16 (u16_bytes a @ xs) 0 = a"
  "packet_u16 (u16_bytes a) 0 = a"
  by (simp_all add: packet_u16_def u16_bytes_def)

lemma packet_u16_skip:
  "2 \<le> n \<Longrightarrow> packet_u16 (u16_bytes a @ xs) n = packet_u16 xs (n - 2)"
  by (simp add: packet_u16_def u16_bytes_def nth_append nth_Cons' numeral_2_eq_2)
    (metis Suc_diff_Suc Suc_le_eq)

lemma u16_bytes_nth_skip: "2 \<le> n \<Longrightarrow> (u16_bytes a @ xs) ! n = xs ! (n - 2)"
  by (simp add: nth_append)

lemma u16_bytes_drop [simp]: "2 \<le> n \<Longrightarrow> drop n (u16_bytes a @ xs) = drop (n - 2) xs"
  by simp

lemmas body_simps =
  packet_u16_adu_packet adu_packet_nth packet_u16_skip u16_bytes_nth_skip

lemma packet_registers_adu_packet:
  "8 \<le> i \<Longrightarrow> packet_registers (adu_packet t u f body) i n = packet_registers body (i - 8) n"
  by (simp add: packet_registers_def packet_u16_adu_packet)

lemma header_bytes_body:
  "n = word_of_nat (length body) \<Longrightarrow> adu_function_code r = f \<Longrightarrow>
   header_bytes (calc_length n r) @ body = adu_packet (adu_transaction r) (adu_unit r) f body"
  using header_bytes_adu_packet by blast

section \<open>Two 16-bit fields\<close>

text \<open>The reads and the single register write: what is sent does not depend on the values.\<close>

definition read_bits_body :: "read_bits_request \<Rightarrow> byte list" where
  "read_bits_body r = u16_bytes (meta_get (rbq_address r)) @ u16_bytes (meta_get (rbq_count r))"

definition read_bits_fields :: "read_bits_request \<Rightarrow> metadata \<times> metadata" where
  "read_bits_fields r = (rbq_address r, rbq_count r)"

lemma request_frames [simp]:
  "rbq_address (calc_length n q1) = rbq_address q1" "rbq_count (calc_length n q1) = rbq_count q1"
  "rrq_address (calc_length n q2) = rrq_address q2" "rrq_count (calc_length n q2) = rrq_count q2"
  "wcq_address (calc_length n q3) = wcq_address q3" "wcq_value (calc_length n q3) = wcq_value q3"
  "wrq_address (calc_length n q4) = wrq_address q4" "wrq_value (calc_length n q4) = wrq_value q4"
  "mwq_address (calc_length n q5) = mwq_address q5"
  "mwq_and_mask (calc_length n q5) = mwq_and_mask q5"
  "mwq_or_mask (calc_length n q5) = mwq_or_mask q5"
  by (cases q1; cases q2; cases q3; cases q4; cases q5; simp add: calc_length_def)+

lemma multiple_request_frames [simp]:
  "wmcq_address (calc_length n q1) = wmcq_address q1" "wmcq_count (calc_length n q1) = wmcq_count q1"
  "wmcq_values (calc_length n q1) = wmcq_values q1"
  "wmcq_byte_count (calc_length n q1) = wmcq_byte_count q1"
  "wmrq_address (calc_length n q2) = wmrq_address q2" "wmrq_count (calc_length n q2) = wmrq_count q2"
  "wmrq_values (calc_length n q2) = wmrq_values q2"
  "rwq_read_address (calc_length n q3) = rwq_read_address q3"
  "rwq_read_count (calc_length n q3) = rwq_read_count q3"
  "rwq_write_address (calc_length n q3) = rwq_write_address q3"
  "rwq_write_count (calc_length n q3) = rwq_write_count q3"
  "rwq_values (calc_length n q3) = rwq_values q3"
  by (cases q1; cases q2; cases q3; simp add: calc_length_def)+

lemma read_bits_encode_eq:
  assumes "platform_ok P" "adu_function_code r = f"
  shows "read_bits_encode P r =
    (Ok (adu_packet (adu_transaction r) (adu_unit r) f (read_bits_body r)), calc_length 4 r)"
  using header_bytes_body [of 4 "read_bits_body r" r f] assms
  by (simp add: read_bits_encode_def act_simps header_packet_eq pack_u16s read_bits_body_def)

interpretation read_coils_codec: request_codec read_bits_encode
  "\<lambda>P. read_bits_decode P read_coils" "new_read_bits_request read_coils" read_coils
  read_bits_body read_bits_fields "ready read_coils"
  by unfold_locales
    (auto simp: read_bits_encode_eq read_bits_decode_eq read_bits_fields_def read_bits_body_def
      body_simps request_extent_def ready_def)

interpretation read_discrete_inputs_codec: request_codec read_bits_encode
  "\<lambda>P. read_bits_decode P read_discrete_inputs" "new_read_bits_request read_discrete_inputs"
  read_discrete_inputs read_bits_body read_bits_fields "ready read_discrete_inputs"
  by unfold_locales
    (auto simp: read_bits_encode_eq read_bits_decode_eq read_bits_fields_def read_bits_body_def
      body_simps request_extent_def ready_def)


definition read_registers_body :: "read_registers_request \<Rightarrow> byte list" where
  "read_registers_body r =
     u16_bytes (meta_get (rrq_address r)) @ u16_bytes (meta_get (rrq_count r))"

definition read_registers_fields :: "read_registers_request \<Rightarrow> metadata \<times> metadata" where
  "read_registers_fields r = (rrq_address r, rrq_count r)"

lemma read_registers_encode_eq:
  assumes "platform_ok P" "adu_function_code r = f"
  shows "read_registers_encode P r =
    (Ok (adu_packet (adu_transaction r) (adu_unit r) f (read_registers_body r)), calc_length 4 r)"
  using header_bytes_body [of 4 "read_registers_body r" r f] assms
  by (simp add: read_registers_encode_def act_simps header_packet_eq pack_u16s
      read_registers_body_def)

interpretation read_holding_registers_codec: request_codec read_registers_encode
  "\<lambda>P. read_registers_decode P read_holding_registers"
  "new_read_registers_request read_holding_registers" read_holding_registers
  read_registers_body read_registers_fields "ready read_holding_registers"
  by unfold_locales
    (auto simp: read_registers_encode_eq read_registers_decode_eq read_registers_fields_def
      read_registers_body_def body_simps request_extent_def ready_def)

interpretation read_input_registers_codec: request_codec read_registers_encode
  "\<lambda>P. read_registers_decode P read_input_registers"
  "new_read_registers_request read_input_registers" read_input_registers
  read_registers_body read_registers_fields "ready read_input_registers"
  by unfold_locales
    (auto simp: read_registers_encode_eq read_registers_decode_eq read_registers_fields_def
      read_registers_body_def body_simps request_extent_def ready_def)

definition write_single_register_body :: "write_single_register_request \<Rightarrow> byte list" where
  "write_single_register_body r =
     u16_bytes (meta_get (wrq_address r)) @ u16_bytes (meta_get (wrq_value r))"

definition write_single_register_fields ::
    "write_single_register_request \<Rightarrow> metadata \<times> metadata" where
  "write_single_register_fields r = (wrq_address r, wrq_value r)"

lemma write_single_register_encode_eq:
  assumes "platform_ok P" "adu_function_code r = f"
  shows "write_single_register_encode P r =
    (Ok (adu_packet (adu_transaction r) (adu_unit r) f (write_single_register_body r)),
     calc_length 4 r)"
  using header_bytes_body [of 4 "write_single_register_body r" r f] assms
  by (simp add: write_single_register_encode_def act_simps header_packet_eq pack_u16s
      write_single_register_body_def)

interpretation write_single_register_codec: request_codec write_single_register_encode
  write_single_register_decode new_write_single_register_request write_single_register
  write_single_register_body write_single_register_fields "ready write_single_register"
  by unfold_locales
    (auto simp: write_single_register_encode_eq write_single_register_decode_eq
      write_single_register_fields_def write_single_register_body_def body_simps
      request_extent_def ready_def)

text \<open>A coil value is sent as one of the two values the protocol has.\<close>

definition write_single_coil_body :: "write_single_coil_request \<Rightarrow> byte list" where
  "write_single_coil_body r =
     u16_bytes (meta_get (wcq_address r)) @ u16_bytes (bits_underlying (wcq_value r))"

definition write_single_coil_fields :: "write_single_coil_request \<Rightarrow> metadata \<times> value_bits" where
  "write_single_coil_fields r = (wcq_address r, wcq_value r)"

lemma write_single_coil_encode_eq:
  assumes "platform_ok P" "adu_function_code r = f"
  shows "write_single_coil_encode P r =
    (Ok (adu_packet (adu_transaction r) (adu_unit r) f (write_single_coil_body r)),
     calc_length 4 r)"
  using header_bytes_body [of 4 "write_single_coil_body r" r f] assms
  by (simp add: write_single_coil_encode_def act_simps header_packet_eq pack_u16s
      write_single_coil_body_def)

definition coil_value_ok :: "write_single_coil_request \<Rightarrow> bool" where
  "coil_value_ok r \<longleftrightarrow> wcq_value r = bits_off \<or> wcq_value r = bits_on"

lemma coil_value_ok_cast:
  "coil_value_ok r \<Longrightarrow> check_bits_value (bits_underlying (wcq_value r)) \<and>
     bits_of_u16 (bits_underlying (wcq_value r)) = wcq_value r"
  by (auto simp: coil_value_ok_def check_bits_value_def bits_of_u16_def)

interpretation write_single_coil_codec: request_codec write_single_coil_encode
  write_single_coil_decode new_write_single_coil_request write_single_coil
  write_single_coil_body write_single_coil_fields
  "\<lambda>r. ready write_single_coil r \<and> coil_value_ok r"
  by unfold_locales
    (auto simp: write_single_coil_encode_eq write_single_coil_decode_eq
      write_single_coil_fields_def write_single_coil_body_def body_simps
      request_extent_def coil_value_ok_cast ready_def)

section \<open>Three 16-bit fields\<close>

definition mask_write_register_body :: "mask_write_register_request \<Rightarrow> byte list" where
  "mask_write_register_body r =
     u16_bytes (meta_get (mwq_address r)) @ u16_bytes (meta_get (mwq_and_mask r)) @
     u16_bytes (meta_get (mwq_or_mask r))"

definition mask_write_register_fields ::
    "mask_write_register_request \<Rightarrow> metadata \<times> metadata \<times> metadata" where
  "mask_write_register_fields r = (mwq_address r, mwq_and_mask r, mwq_or_mask r)"

lemma mask_write_register_encode_eq:
  assumes "platform_ok P" "adu_function_code r = f"
  shows "mask_write_register_encode P r =
    (Ok (adu_packet (adu_transaction r) (adu_unit r) f (mask_write_register_body r)),
     calc_length 6 r)"
  using header_bytes_body [of 6 "mask_write_register_body r" r f] assms
  by (simp add: mask_write_register_encode_def act_simps header_packet_eq pack_u16s
      mask_write_register_body_def)

interpretation mask_write_register_codec: request_codec mask_write_register_encode
  mask_write_register_decode new_mask_write_register_request mask_write_register
  mask_write_register_body mask_write_register_fields "ready mask_write_register"
  by unfold_locales
    (auto simp: mask_write_register_encode_eq mask_write_register_decode_eq
      mask_write_register_fields_def mask_write_register_body_def body_simps
      request_extent_def ready_def)


section \<open>Multiple coils\<close>

definition write_multiple_coils_body :: "write_multiple_coils_request \<Rightarrow> byte list" where
  "write_multiple_coils_body r =
     u16_bytes (meta_get (wmcq_address r)) @ u16_bytes (meta_get (wmcq_count r)) @
     [coils_byte_count (wmcq_count r)] @ pack_bits (wmcq_values r)"

definition write_multiple_coils_fields ::
    "write_multiple_coils_request \<Rightarrow> metadata \<times> metadata \<times> bool list" where
  "write_multiple_coils_fields r = (wmcq_address r, wmcq_count r, wmcq_values r)"

text \<open>
  The byte count is computed from the low eight bits of the count: it is right for fewer than
  256 coils, and for no larger number.
\<close>

definition coils_sendable :: "write_multiple_coils_request \<Rightarrow> bool" where
  "coils_sendable r \<longleftrightarrow> ready write_multiple_coils r \<and>
     wmcq_byte_count r = coils_byte_count (wmcq_count r) \<and>
     length (wmcq_values r) = unat (meta_get (wmcq_count r)) \<and>
     unat (meta_get (wmcq_count r)) < 256"

lemma unat_coils_byte_count:
  "unat (coils_byte_count c) = (unat (meta_get c) mod 256 + 7) div 8"
proof -
  let ?b = "ucast (meta_get c) :: byte"
  have b: "unat ?b = unat (meta_get c) mod 256"
    using unat_lo_byte [of "meta_get c"] by (simp add: lo_byte_def)
  have d: "unat (?b div 8) = unat ?b div 8" and m: "unat (?b mod 8) = unat ?b mod 8"
    by (simp_all add: unat_div unat_mod)
  have "unat ?b div 8 < 255" using unat_byte_less [of ?b] by linarith
  then have s: "unat (?b div 8 + 1) = unat ?b div 8 + 1"
    using d by (simp add: unat_word_ariths)
  have z: "?b mod 8 = 0 \<longleftrightarrow> unat ?b mod 8 = 0"
    using m by (metis unat_eq_zero)
  show ?thesis
    unfolding coils_byte_count_def Let_def z b [symmetric] using d s by (auto; presburger)
qed

lemma pack_u16_u16_byte:
  "platform_ok P \<Longrightarrow> pack P ''HHB'' [unat a, unat b, unat (c :: byte)] =
     u16_bytes a @ u16_bytes b @ [c]"
  by (simp add: pack_eq field_bytes_u16 field_bytes_byte u16_bytes_def)

lemma pack_four_u16_byte:
  "platform_ok P \<Longrightarrow> pack P ''HHHHB'' [unat a, unat b, unat c, unat d, unat (e :: byte)] =
     u16_bytes a @ u16_bytes b @ u16_bytes c @ u16_bytes d @ [e]"
  by (simp add: pack_eq field_bytes_u16 field_bytes_byte u16_bytes_def)

lemma unat_five_plus_byte: "unat (5 + ucast (b :: byte) :: u16) = 5 + unat b"
proof -
  have e: "unat (5 :: u16) = 5" "unat (ucast b :: u16) = unat b" by simp_all
  have "unat (5 :: u16) + unat (ucast b :: u16) < 65536"
    unfolding e using unat_byte_less [of b] by linarith
  from unat_add_u16 [OF this] show ?thesis by (simp only: e)
qed

lemma write_multiple_coils_encode_eq:
  assumes P: "platform_ok P"
  defines "bytes r \<equiv> (length (wmcq_values r) + 7) div 8"
  shows "write_multiple_coils_encode P r =
    (if bytes r = unat (wmcq_byte_count r)
     then (Ok (header_bytes (calc_length (5 + ucast (wmcq_byte_count r)) r) @
               write_multiple_coils_body r), calc_length (5 + ucast (wmcq_byte_count r)) r)
     else (Throw (Internal bad_data), calc_length (5 + ucast (wmcq_byte_count r)) r))"
  using P
  by (simp add: write_multiple_coils_encode_def act_simps header_packet_eq pack_u16_u16_byte
      write_multiple_coils_body_def write_multiple_coils_data_length_def header_length_def
      unat_five_plus_byte length_pack_bits bytes_def)

lemma coils_body_length:
  "length (write_multiple_coils_body r) = 5 + (length (wmcq_values r) + 7) div 8"
  by (simp add: write_multiple_coils_body_def length_pack_bits)

interpretation write_multiple_coils_codec: request_codec write_multiple_coils_encode
  write_multiple_coils_decode new_write_multiple_coils_request write_multiple_coils
  write_multiple_coils_body write_multiple_coils_fields coils_sendable
proof unfold_locales
  fix P and r :: write_multiple_coils_request
  assume P: "platform_ok P" and r: "coils_sendable r"
  let ?n = "unat (meta_get (wmcq_count r))"
  have bc: "unat (wmcq_byte_count r) = (?n + 7) div 8"
    using r by (simp add: coils_sendable_def unat_coils_byte_count)
  have len: "5 + ucast (wmcq_byte_count r) =
      (word_of_nat (length (write_multiple_coils_body r)) :: u16)"
    using r bc by (intro word_eq_of_unat)
      (simp add: unat_five_plus_byte coils_body_length coils_sendable_def)
  show "write_multiple_coils_encode P r =
      (Ok (adu_packet (adu_transaction r) (adu_unit r) (function_underlying write_multiple_coils)
         (write_multiple_coils_body r)),
       calc_length (word_of_nat (length (write_multiple_coils_body r))) r)"
    unfolding write_multiple_coils_encode_eq [OF P] len
    using header_bytes_body [OF refl, where r = r and f = "0x0F" and body = "write_multiple_coils_body r"] r bc
    by (simp add: coils_sendable_def ready_def)
next
  fix P r p t u
  assume P: "platform_ok P" and r: "coils_sendable r"
    and p: "p = adu_packet t u (function_underlying write_multiple_coils)
              (write_multiple_coils_body r)"
  have "drop 13 p = pack_bits (wmcq_values r)"
    by (simp add: p adu_packet_def Let_def write_multiple_coils_body_def)
  moreover have "13 \<le> length p" by (simp add: p coils_body_length)
  moreover have "p ! 7 = 0x0F" by (simp add: p)
  moreover have "packet_u16 p 8 = meta_get (wmcq_address r)"
    "packet_u16 p 10 = meta_get (wmcq_count r)" "packet_u16 p 0 = t" "p ! 6 = u"
    by (simp_all add: p body_simps write_multiple_coils_body_def)
  moreover have "vector_resize False (unat (meta_get (wmcq_count r)))
      (unpack_bits (pack_bits (wmcq_values r))) = wmcq_values r"
    using r resize_unpack_pack [of "wmcq_values r"] by (simp add: coils_sendable_def)
  ultimately show "\<exists>q. write_multiple_coils_decode P p new_write_multiple_coils_request = (Ok (), q) \<and>
      write_multiple_coils_fields q = write_multiple_coils_fields r \<and>
      adu_transaction q = t \<and> adu_unit q = u"
    by (simp add: write_multiple_coils_decode_eq [OF P] write_multiple_coils_fields_def)
next
  fix r p t u
  assume "p = adu_packet t u (function_underlying write_multiple_coils)
            (write_multiple_coils_body r)"
  then show "request_extent p \<le> length p"
    by (simp add: request_extent_def coils_body_length)
qed


section \<open>Multiple registers\<close>

definition write_multiple_registers_body :: "write_multiple_registers_request \<Rightarrow> byte list" where
  "write_multiple_registers_body r =
     u16_bytes (meta_get (wmrq_address r)) @ u16_bytes (meta_get (wmrq_count r)) @
     [registers_byte_count (wmrq_count r)] @ registers_bytes (wmrq_values r)"

definition write_multiple_registers_fields ::
    "write_multiple_registers_request \<Rightarrow> metadata \<times> metadata \<times> u16 list" where
  "write_multiple_registers_fields r = (wmrq_address r, wmrq_count r, wmrq_values r)"

text \<open>Twice the count must fit the byte count's eight bits.\<close>

definition registers_sendable :: "write_multiple_registers_request \<Rightarrow> bool" where
  "registers_sendable r \<longleftrightarrow> ready write_multiple_registers r \<and>
     length (wmrq_values r) = unat (meta_get (wmrq_count r)) \<and>
     unat (meta_get (wmrq_count r)) < 128"

lemma registers_body_length [simp]:
  "length (write_multiple_registers_body r) = 5 + 2 * length (wmrq_values r)"
  by (simp add: write_multiple_registers_body_def)

lemma write_multiple_registers_encode_eq:
  assumes P: "platform_ok P"
  defines "n r \<equiv> 5 + ucast (registers_byte_count (wmrq_count r)) :: u16"
  shows "write_multiple_registers_encode P r =
    (if 2 * length (wmrq_values r) = unat (registers_byte_count (wmrq_count r))
     then (Ok (header_bytes (calc_length (n r) r) @ write_multiple_registers_body r),
           calc_length (n r) r)
     else (Throw (Internal bad_data), calc_length (n r) r))"
  using P
  by (simp add: write_multiple_registers_encode_def act_simps header_packet_eq pack_u16_u16_byte
      write_multiple_registers_body_def write_multiple_registers_data_length_def
      header_length_def unat_five_plus_byte pack_registers_eq n_def)

interpretation write_multiple_registers_codec: request_codec write_multiple_registers_encode
  write_multiple_registers_decode new_write_multiple_registers_request write_multiple_registers
  write_multiple_registers_body write_multiple_registers_fields registers_sendable
proof unfold_locales
  fix P and r :: write_multiple_registers_request
  assume P: "platform_ok P" and r: "registers_sendable r"
  have bc: "unat (registers_byte_count (wmrq_count r)) = 2 * length (wmrq_values r)"
    using r by (simp add: registers_sendable_def unat_registers_byte_count)
  have len: "5 + ucast (registers_byte_count (wmrq_count r)) =
      (word_of_nat (length (write_multiple_registers_body r)) :: u16)"
    using bc by (intro word_eq_of_unat) (simp add: unat_five_plus_byte)
  show "write_multiple_registers_encode P r =
      (Ok (adu_packet (adu_transaction r) (adu_unit r) (function_underlying write_multiple_registers)
         (write_multiple_registers_body r)),
       calc_length (word_of_nat (length (write_multiple_registers_body r))) r)"
    unfolding write_multiple_registers_encode_eq [OF P] len
    using header_bytes_body [OF refl, where r = r and f = "0x10"
        and body = "write_multiple_registers_body r"] r bc
    by (simp add: registers_sendable_def ready_def del: registers_body_length)
next
  fix P r p t u
  assume P: "platform_ok P" and r: "registers_sendable r"
    and p: "p = adu_packet t u (function_underlying write_multiple_registers)
              (write_multiple_registers_body r)"
  let ?n = "unat (meta_get (wmrq_count r))"
  have n: "length (wmrq_values r) = ?n" "?n < 128"
    using r by (simp_all add: registers_sendable_def)
  then have bc: "unat (registers_byte_count (wmrq_count r)) = 2 * ?n"
    by (simp add: unat_registers_byte_count)
  have f: "packet_u16 p 8 = meta_get (wmrq_address r)"
    "packet_u16 p 10 = meta_get (wmrq_count r)" "packet_u16 p 0 = t" "p ! 6 = u" "p ! 7 = 0x10"
    "p ! 12 = registers_byte_count (wmrq_count r)" "length p = 13 + 2 * ?n"
    by (simp_all add: p body_simps write_multiple_registers_body_def n)
  have "packet_registers (write_multiple_registers_body r) 5 ?n = wmrq_values r"
    using packet_registers_of_bytes [of "u16_bytes (meta_get (wmrq_address r)) @
        u16_bytes (meta_get (wmrq_count r)) @ [registers_byte_count (wmrq_count r)]" 5
        "wmrq_values r" "[]"] n
    by (simp add: write_multiple_registers_body_def)
  then have "packet_registers p 13 ?n = wmrq_values r"
    by (simp add: p packet_registers_adu_packet)
  with f n show "\<exists>q. write_multiple_registers_decode P p new_write_multiple_registers_request =
      (Ok (), q) \<and> write_multiple_registers_fields q = write_multiple_registers_fields r \<and>
      adu_transaction q = t \<and> adu_unit q = u"
    by (simp add: write_multiple_registers_decode_eq [OF P] write_multiple_registers_fields_def bc)
next
  fix r p t u
  assume "registers_sendable r" "p = adu_packet t u (function_underlying write_multiple_registers)
            (write_multiple_registers_body r)"
  then show "request_extent p \<le> length p"
    by (auto simp: request_extent_def registers_sendable_def body_simps
        write_multiple_registers_body_def unat_registers_byte_count)
qed

section \<open>Read and write\<close>

definition read_write_body :: "read_write_multiple_registers_request \<Rightarrow> byte list" where
  "read_write_body r =
     u16_bytes (meta_get (rwq_read_address r)) @ u16_bytes (meta_get (rwq_read_count r)) @
     u16_bytes (meta_get (rwq_write_address r)) @ u16_bytes (meta_get (rwq_write_count r)) @
     [registers_byte_count (rwq_write_count r)] @ registers_bytes (rwq_values r)"

definition read_write_fields ::
    "read_write_multiple_registers_request \<Rightarrow>
     metadata \<times> metadata \<times> metadata \<times> metadata \<times> u16 list" where
  "read_write_fields r =
     (rwq_read_address r, rwq_read_count r, rwq_write_address r, rwq_write_count r, rwq_values r)"

definition read_write_sendable :: "read_write_multiple_registers_request \<Rightarrow> bool" where
  "read_write_sendable r \<longleftrightarrow> ready read_write_multiple_registers r \<and>
     length (rwq_values r) = unat (meta_get (rwq_write_count r)) \<and>
     unat (meta_get (rwq_write_count r)) < 128"

lemma read_write_body_length [simp]:
  "length (read_write_body r) = 9 + 2 * length (rwq_values r)"
  by (simp add: read_write_body_def)

lemma unat_nine_plus_byte: "unat (9 + ucast (b :: byte) :: u16) = 9 + unat b"
proof -
  have e: "unat (9 :: u16) = 9" "unat (ucast b :: u16) = unat b" by simp_all
  have "unat (9 :: u16) + unat (ucast b :: u16) < 65536"
    unfolding e using unat_byte_less [of b] by linarith
  from unat_add_u16 [OF this] show ?thesis by (simp only: e)
qed

lemma read_write_encode_eq:
  assumes P: "platform_ok P"
  defines "n r \<equiv> 9 + ucast (registers_byte_count (rwq_write_count r)) :: u16"
  shows "read_write_multiple_registers_encode P r =
    (if 2 * length (rwq_values r) = unat (registers_byte_count (rwq_write_count r))
     then (Ok (header_bytes (calc_length (n r) r) @ read_write_body r), calc_length (n r) r)
     else (Throw (Internal bad_data), calc_length (n r) r))"
  using P
  by (simp add: read_write_multiple_registers_encode_def act_simps header_packet_eq
      pack_four_u16_byte read_write_body_def read_write_data_length_def header_length_def
      unat_nine_plus_byte pack_registers_eq n_def)

interpretation read_write_codec: request_codec read_write_multiple_registers_encode
  read_write_multiple_registers_decode new_read_write_multiple_registers_request
  read_write_multiple_registers read_write_body read_write_fields read_write_sendable
proof unfold_locales
  fix P and r :: read_write_multiple_registers_request
  assume P: "platform_ok P" and r: "read_write_sendable r"
  have bc: "unat (registers_byte_count (rwq_write_count r)) = 2 * length (rwq_values r)"
    using r by (simp add: read_write_sendable_def unat_registers_byte_count)
  have len: "9 + ucast (registers_byte_count (rwq_write_count r)) =
      (word_of_nat (length (read_write_body r)) :: u16)"
    using bc by (intro word_eq_of_unat) (simp add: unat_nine_plus_byte)
  show "read_write_multiple_registers_encode P r =
      (Ok (adu_packet (adu_transaction r) (adu_unit r)
         (function_underlying read_write_multiple_registers) (read_write_body r)),
       calc_length (word_of_nat (length (read_write_body r))) r)"
    unfolding read_write_encode_eq [OF P] len
    using header_bytes_body [OF refl, where r = r and f = "0x17" and body = "read_write_body r"]
      r bc
    by (simp add: read_write_sendable_def ready_def del: read_write_body_length)
next
  fix P r p t u
  assume P: "platform_ok P" and r: "read_write_sendable r"
    and p: "p = adu_packet t u (function_underlying read_write_multiple_registers)
              (read_write_body r)"
  let ?n = "unat (meta_get (rwq_write_count r))"
  have n: "length (rwq_values r) = ?n" "?n < 128"
    using r by (simp_all add: read_write_sendable_def)
  then have bc: "unat (registers_byte_count (rwq_write_count r)) = 2 * ?n"
    by (simp add: unat_registers_byte_count)
  have f: "packet_u16 p 8 = meta_get (rwq_read_address r)"
    "packet_u16 p 10 = meta_get (rwq_read_count r)"
    "packet_u16 p 12 = meta_get (rwq_write_address r)"
    "packet_u16 p 14 = meta_get (rwq_write_count r)" "packet_u16 p 0 = t" "p ! 6 = u"
    "p ! 7 = 0x17" "p ! 16 = registers_byte_count (rwq_write_count r)" "length p = 17 + 2 * ?n"
    by (simp_all add: p body_simps read_write_body_def n)
  have "packet_registers (read_write_body r) 9 ?n = rwq_values r"
    using packet_registers_of_bytes [of "u16_bytes (meta_get (rwq_read_address r)) @
        u16_bytes (meta_get (rwq_read_count r)) @ u16_bytes (meta_get (rwq_write_address r)) @
        u16_bytes (meta_get (rwq_write_count r)) @ [registers_byte_count (rwq_write_count r)]" 9
        "rwq_values r" "[]"] n
    by (simp add: read_write_body_def)
  then have "packet_registers p 17 ?n = rwq_values r"
    by (simp add: p packet_registers_adu_packet)
  with f n show "\<exists>q. read_write_multiple_registers_decode P p
      new_read_write_multiple_registers_request = (Ok (), q) \<and>
      read_write_fields q = read_write_fields r \<and> adu_transaction q = t \<and> adu_unit q = u"
    by (simp add: read_write_multiple_registers_decode_eq [OF P] read_write_fields_def bc)
next
  fix r p t u
  assume "read_write_sendable r" "p = adu_packet t u
      (function_underlying read_write_multiple_registers) (read_write_body r)"
  then show "request_extent p \<le> length p"
    by (auto simp: request_extent_def read_write_sendable_def body_simps read_write_body_def
        unat_registers_byte_count)
qed

section \<open>Requests of any size\<close>

text \<open>Which requests the encoders accept, and what they send for them.\<close>

lemma encodes_if:
  assumes "platform_ok P"
  shows "ready write_multiple_coils rc \<Longrightarrow> write_multiple_coils_encode P rc =
      (if (length (wmcq_values rc) + 7) div 8 = unat (wmcq_byte_count rc)
       then (Ok (adu_packet (adu_transaction rc) (adu_unit rc) 0x0F (write_multiple_coils_body rc)),
             calc_length (5 + ucast (wmcq_byte_count rc)) rc)
       else (Throw (Internal bad_data), calc_length (5 + ucast (wmcq_byte_count rc)) rc))"
    "ready write_multiple_registers rr \<Longrightarrow> write_multiple_registers_encode P rr =
      (if 2 * length (wmrq_values rr) = unat (registers_byte_count (wmrq_count rr))
       then (Ok (adu_packet (adu_transaction rr) (adu_unit rr) 0x10 (write_multiple_registers_body rr)),
             calc_length (5 + ucast (registers_byte_count (wmrq_count rr))) rr)
       else (Throw (Internal bad_data), calc_length (5 + ucast (registers_byte_count (wmrq_count rr))) rr))"
    "ready read_write_multiple_registers rw \<Longrightarrow> read_write_multiple_registers_encode P rw =
      (if 2 * length (rwq_values rw) = unat (registers_byte_count (rwq_write_count rw))
       then (Ok (adu_packet (adu_transaction rw) (adu_unit rw) 0x17 (read_write_body rw)),
             calc_length (9 + ucast (registers_byte_count (rwq_write_count rw))) rw)
       else (Throw (Internal bad_data), calc_length (9 + ucast (registers_byte_count (rwq_write_count rw))) rw))"
proof -
  assume a: "ready write_multiple_coils rc"
  let ?n = "5 + ucast (wmcq_byte_count rc) :: u16" and ?body = "write_multiple_coils_body rc"
  have "header_bytes (calc_length ?n rc) @ ?body =
      adu_packet (adu_transaction rc) (adu_unit rc) 0x0F ?body"
    if "(length (wmcq_values rc) + 7) div 8 = unat (wmcq_byte_count rc)"
  proof (rule header_bytes_body)
    show "?n = word_of_nat (length ?body)"
      using that by (intro word_eq_of_unat) (simp add: unat_five_plus_byte coils_body_length)
  qed (use a in \<open>simp add: ready_def\<close>)
  then show "write_multiple_coils_encode P rc =
      (if (length (wmcq_values rc) + 7) div 8 = unat (wmcq_byte_count rc)
       then (Ok (adu_packet (adu_transaction rc) (adu_unit rc) 0x0F ?body), calc_length ?n rc)
       else (Throw (Internal bad_data), calc_length ?n rc))"
    unfolding write_multiple_coils_encode_eq [OF assms] by (simp cong: if_cong)
next
  assume a: "ready write_multiple_registers rr"
  let ?n = "5 + ucast (registers_byte_count (wmrq_count rr)) :: u16" and ?body = "write_multiple_registers_body rr"
  have "header_bytes (calc_length ?n rr) @ ?body =
      adu_packet (adu_transaction rr) (adu_unit rr) 0x10 ?body"
    if "2 * length (wmrq_values rr) = unat (registers_byte_count (wmrq_count rr))"
  proof (rule header_bytes_body)
    show "?n = word_of_nat (length ?body)"
      using that by (intro word_eq_of_unat) (simp add: unat_five_plus_byte)
  qed (use a in \<open>simp add: ready_def\<close>)
  then show "write_multiple_registers_encode P rr =
      (if 2 * length (wmrq_values rr) = unat (registers_byte_count (wmrq_count rr))
       then (Ok (adu_packet (adu_transaction rr) (adu_unit rr) 0x10 ?body), calc_length ?n rr)
       else (Throw (Internal bad_data), calc_length ?n rr))"
    unfolding write_multiple_registers_encode_eq [OF assms] by (simp cong: if_cong)
next
  assume a: "ready read_write_multiple_registers rw"
  let ?n = "9 + ucast (registers_byte_count (rwq_write_count rw)) :: u16" and ?body = "read_write_body rw"
  have "header_bytes (calc_length ?n rw) @ ?body =
      adu_packet (adu_transaction rw) (adu_unit rw) 0x17 ?body"
    if "2 * length (rwq_values rw) = unat (registers_byte_count (rwq_write_count rw))"
  proof (rule header_bytes_body)
    show "?n = word_of_nat (length ?body)"
      using that by (intro word_eq_of_unat) (simp add: unat_nine_plus_byte)
  qed (use a in \<open>simp add: ready_def\<close>)
  then show "read_write_multiple_registers_encode P rw =
      (if 2 * length (rwq_values rw) = unat (registers_byte_count (rwq_write_count rw))
       then (Ok (adu_packet (adu_transaction rw) (adu_unit rw) 0x17 ?body), calc_length ?n rw)
       else (Throw (Internal bad_data), calc_length ?n rw))"
    unfolding read_write_encode_eq [OF assms] by (simp cong: if_cong)
qed

text \<open>
  What the server makes of a request that the client's \<open>encode\<close> accepts: the list of values is
  cut or filled up to the count, as \<open>decode\<close> resizes it.
\<close>

lemma coil_arrives:
  assumes "platform_ok P" "ready write_single_coil r"
  shows "if check_bits_value (bits_underlying (wcq_value r))
    then decodes_as (write_single_coil_encode P) (write_single_coil_decode P)
      new_write_single_coil_request write_single_coil_fields r
      (wcq_address r, bits_of_u16 (bits_underlying (wcq_value r)))
    else \<exists>p r' h. write_single_coil_encode P r = (Ok p, r') \<and>
      fst (write_single_coil_decode P p new_write_single_coil_request) =
        Throw (Specification server_device_failure write_single_coil h)"
  using assms
  by (auto simp: decodes_as_def ready_def write_single_coil_encode_eq write_single_coil_decode_eq
      write_single_coil_body_def write_single_coil_fields_def body_simps)

lemma coils_arrive:
  assumes "platform_ok P" "ready write_multiple_coils r"
  shows "if (length (wmcq_values r) + 7) div 8 = unat (wmcq_byte_count r)
    then decodes_as (write_multiple_coils_encode P) (write_multiple_coils_decode P)
      new_write_multiple_coils_request write_multiple_coils_fields r
      (wmcq_address r, wmcq_count r,
       vector_resize False (unat (meta_get (wmcq_count r))) (wmcq_values r))
    else fst (write_multiple_coils_encode P r) = Throw (Internal bad_data)"
proof -
  let ?p = "adu_packet (adu_transaction r) (adu_unit r) 0x0F (write_multiple_coils_body r)"
  have "13 \<le> length ?p" "drop 13 ?p = pack_bits (wmcq_values r)"
    "packet_u16 ?p 8 = meta_get (wmcq_address r)" "packet_u16 ?p 10 = meta_get (wmcq_count r)"
    by (simp_all add: coils_body_length body_simps write_multiple_coils_body_def)
      (simp add: adu_packet_def Let_def)
  with assms(1) show ?thesis
    by (simp add: decodes_as_def encodes_if(1) [OF assms] write_multiple_coils_decode_eq
        write_multiple_coils_fields_def unpack_pack_bits vector_resize_padded)
qed

lemma registers_arrive:
  assumes "platform_ok P" "ready write_multiple_registers r"
  shows "if 2 * length (wmrq_values r) = unat (registers_byte_count (wmrq_count r))
    then decodes_as (write_multiple_registers_encode P) (write_multiple_registers_decode P)
      new_write_multiple_registers_request write_multiple_registers_fields r
      (wmrq_address r, wmrq_count r,
       vector_resize 0 (unat (meta_get (wmrq_count r))) (wmrq_values r))
    else fst (write_multiple_registers_encode P r) = Throw (Internal bad_data)"
proof (cases "2 * length (wmrq_values r) = unat (registers_byte_count (wmrq_count r))")
  case True
  let ?p = "adu_packet (adu_transaction r) (adu_unit r) 0x10 (write_multiple_registers_body r)"
  have p: "packet_u16 ?p 8 = meta_get (wmrq_address r)" "packet_u16 ?p 10 = meta_get (wmrq_count r)"
    "unat (?p ! 12) = 2 * length (wmrq_values r)" "length ?p = 13 + 2 * length (wmrq_values r)"
    using True by (simp_all add: body_simps write_multiple_registers_body_def)
  have "packet_registers ?p 13 (length (wmrq_values r)) = wmrq_values r"
    using packet_registers_of_bytes [of "u16_bytes (meta_get (wmrq_address r)) @
        u16_bytes (meta_get (wmrq_count r)) @ [registers_byte_count (wmrq_count r)]" 5
        "wmrq_values r" "[]"]
    by (simp add: packet_registers_adu_packet write_multiple_registers_body_def)
  with p True [unfolded unat_registers_byte_count, symmetric] assms(1) have
    "write_multiple_registers_decode P ?p new_write_multiple_registers_request =
     (Ok (), (take_header ?p new_write_multiple_registers_request)
        \<lparr>wmrq_address := wmrq_address r, wmrq_count := wmrq_count r,
         wmrq_values := vector_resize 0 (unat (meta_get (wmrq_count r))) (wmrq_values r)\<rparr>)"
    by (simp add: write_multiple_registers_decode_eq)
  with True show ?thesis
    by (simp add: decodes_as_def encodes_if(2) [OF assms] write_multiple_registers_fields_def)
qed (simp add: encodes_if(2) [OF assms])

lemma read_write_arrives:
  assumes "platform_ok P" "ready read_write_multiple_registers r"
  shows "if 2 * length (rwq_values r) = unat (registers_byte_count (rwq_write_count r))
    then decodes_as (read_write_multiple_registers_encode P)
      (read_write_multiple_registers_decode P) new_read_write_multiple_registers_request
      read_write_fields r
      (rwq_read_address r, rwq_read_count r, rwq_write_address r, rwq_write_count r,
       vector_resize 0 (unat (meta_get (rwq_write_count r))) (rwq_values r))
    else fst (read_write_multiple_registers_encode P r) = Throw (Internal bad_data)"
proof (cases "2 * length (rwq_values r) = unat (registers_byte_count (rwq_write_count r))")
  case True
  let ?p = "adu_packet (adu_transaction r) (adu_unit r) 0x17 (read_write_body r)"
  have p: "packet_u16 ?p 8 = meta_get (rwq_read_address r)"
    "packet_u16 ?p 10 = meta_get (rwq_read_count r)"
    "packet_u16 ?p 12 = meta_get (rwq_write_address r)"
    "packet_u16 ?p 14 = meta_get (rwq_write_count r)"
    "unat (?p ! 16) = 2 * length (rwq_values r)" "length ?p = 17 + 2 * length (rwq_values r)"
    using True by (simp_all add: body_simps read_write_body_def)
  have "packet_registers ?p 17 (length (rwq_values r)) = rwq_values r"
    using packet_registers_of_bytes [of "u16_bytes (meta_get (rwq_read_address r)) @
        u16_bytes (meta_get (rwq_read_count r)) @ u16_bytes (meta_get (rwq_write_address r)) @
        u16_bytes (meta_get (rwq_write_count r)) @ [registers_byte_count (rwq_write_count r)]" 9
        "rwq_values r" "[]"]
    by (simp add: packet_registers_adu_packet read_write_body_def)
  with p True [unfolded unat_registers_byte_count, symmetric] assms(1) have
    "read_write_multiple_registers_decode P ?p new_read_write_multiple_registers_request =
     (Ok (), (take_header ?p new_read_write_multiple_registers_request)
        \<lparr>rwq_read_address := rwq_read_address r, rwq_read_count := rwq_read_count r,
         rwq_write_address := rwq_write_address r, rwq_write_count := rwq_write_count r,
         rwq_values := vector_resize 0 (unat (meta_get (rwq_write_count r))) (rwq_values r)\<rparr>)"
    by (simp add: read_write_multiple_registers_decode_eq)
  with True show ?thesis
    by (simp add: decodes_as_def encodes_if(3) [OF assms] read_write_fields_def)
qed (simp add: encodes_if(3) [OF assms])

lemma fixed_requests_arrive:
  assumes "platform_ok P"
  shows "f \<in> {read_coils, read_discrete_inputs} \<Longrightarrow> ready f rb \<Longrightarrow>
      decodes_as (read_bits_encode P) (read_bits_decode P f) (new_read_bits_request f)
        read_bits_fields rb (rbq_address rb, rbq_count rb)"
    and "g \<in> {read_holding_registers, read_input_registers} \<Longrightarrow> ready g rr \<Longrightarrow>
      decodes_as (read_registers_encode P) (read_registers_decode P g)
        (new_read_registers_request g) read_registers_fields rr (rrq_address rr, rrq_count rr)"
    and "ready write_single_register wr \<Longrightarrow>
      decodes_as (write_single_register_encode P) (write_single_register_decode P)
        new_write_single_register_request write_single_register_fields wr
        (wrq_address wr, wrq_value wr)"
    and "ready mask_write_register mw \<Longrightarrow>
      decodes_as (mask_write_register_encode P) (mask_write_register_decode P)
        new_mask_write_register_request mask_write_register_fields mw
        (mwq_address mw, mwq_and_mask mw, mwq_or_mask mw)"
  using read_coils_codec.round_trip [OF assms, of rb]
    read_discrete_inputs_codec.round_trip [OF assms, of rb]
    read_holding_registers_codec.round_trip [OF assms, of rr]
    read_input_registers_codec.round_trip [OF assms, of rr]
    write_single_register_codec.round_trip [OF assms, of wr]
    mask_write_register_codec.round_trip [OF assms, of mw]
  by (auto simp: read_bits_fields_def read_registers_fields_def write_single_register_fields_def
      mask_write_register_fields_def)

end
