(* ===== verification/Modbus_Client.thy ===== *)
theory Modbus_Client
  imports Modbus_Request_Codec
begin

text \<open>
  The client's half of the response classes: \<open>response::decode\<close> on what the server sends. A
  client encodes a request, sends it, makes the response object from the request and lets it
  decode the reply; \<open>exchange\<close> is that sequence against a server table. The lemmas say, for
  each function, whether the client accepts the reply of this library's own server.
\<close>

section \<open>Decoding a reply\<close>

lemma response_decode_eq:
  assumes "platform_ok P"
  shows "response_decode P dp p r =
    (case packet_stage (req_header r) (adu_function r) p of
       stage_bad \<Rightarrow>
         (Throw (Internal bad_data), if header_matches (req_header r) p then take_header p r else r)
     | stage_error \<Rightarrow>
         (if 8 < length p then Throw Std_exception else Throw (Internal bad_data), take_header p r)
     | stage_passed \<Rightarrow>
         (case dp p (take_header p r) of
            (Throw e, r') \<Rightarrow> (Throw (if e = Std_out_of_range then Internal bad_data else e), r')
          | res \<Rightarrow> res))"
  by (auto simp: response_decode_def check_stage_eq [OF assms] act_simps packet_stage_def
      generate_exception_def slice_exception_def header_length_def
      split: stage.split prod.split outcome.split)

text \<open>A packet made by a server for this request, with a normal function byte.\<close>

lemma decode_normal:
  assumes "platform_ok P" "hd_transaction (req_header r) = t" "hd_unit (req_header r) = u"
    and "length body < 65534" "check_function f"
  shows "response_decode P dp (adu_packet t u f body) r =
    (case dp (adu_packet t u f body) (take_header (adu_packet t u f body) r) of
       (Throw e, r') \<Rightarrow> (Throw (if e = Std_out_of_range then Internal bad_data else e), r')
     | res \<Rightarrow> res)"
proof -
  have "packet_stage (req_header r) (adu_function r) (adu_packet t u f body) = stage_passed"
    using assms(2-5) by (simp add: packet_stage_def header_matches_def unat_length_field)
  then show ?thesis by (simp add: response_decode_eq [OF assms(1)])
qed

text \<open>An exception packet for this request.\<close>

lemma decode_exception:
  assumes "platform_ok P" "hd_transaction (req_header r) = t" "hd_unit (req_header r) = u"
    and "check_function (function_underlying (adu_function r))"
  shows "fst (response_decode P dp
      (adu_packet t u (function_underlying (adu_function r) + 0x80) [c]) r) = Throw Std_exception"
proof -
  let ?f = "function_underlying (adu_function r)"
  let ?p = "adu_packet t u (?f + 0x80) [c]"
  have f: "0 < ?f" "?f < 0x2C" using assms(4) by (simp_all add: check_function_def)
  have e: "?f + 0x80 - 0x80 = ?f" by simp
  have lt: "unat ?f < 44" using f(2) by (simp add: word_less_nat_alt)
  then have "unat (?f + 0x80) = unat ?f + 0x80" by (simp add: unat_word_ariths)
  then have nc: "\<not> check_function (?f + 0x80)"
    by (simp add: check_function_def word_less_nat_alt)
  have "adu_function r \<noteq> fc_min" "adu_function r \<noteq> fc_max" using f by auto
  then have "check_function_enum (adu_function r)" by (simp add: check_function_enum_def)
  moreover have "?f + 0x80 \<noteq> ?f" by simp
  moreover have "header_matches (req_header r) ?p"
    using assms(2,3) unat_length_field [of 1] by (simp add: header_matches_def)
  ultimately have "packet_stage (req_header r) (adu_function r) ?p = stage_error"
    using nc e by (simp add: packet_stage_def)
  then show ?thesis by (simp add: response_decode_eq [OF assms(1)])
qed


section \<open>An exchange\<close>

text \<open>The object that a decoder ran on, if it returned.\<close>

definition object_of :: "(exn, unit) outcome \<times> 'r \<Rightarrow> (exn, 'r) outcome" where
  "object_of res = bind_outcome (fst res) (\<lambda>_. Ok (snd res))"

text \<open>The same for a decoder under the catch clause of \<open>response::decode\<close>.\<close>

definition caught_object_of :: "(exn, unit) outcome \<times> 'r \<Rightarrow> (exn, 'r) outcome" where
  "caught_object_of res =
     (case fst res of
        Ok _ \<Rightarrow> Ok (snd res)
      | Throw e \<Rightarrow> Throw (if e = Std_out_of_range then Internal bad_data else e)
      | Undefined \<Rightarrow> Undefined)"

text \<open>Encode, send, receive, decode; the value is the response object.\<close>

definition exchange ::
    "('q, exn, packet_t) act \<Rightarrow> ('q \<Rightarrow> 'r response_scheme) \<Rightarrow>
     (packet_t \<Rightarrow> ('r response_scheme, exn, unit) act) \<Rightarrow> platform \<Rightarrow> 'q \<Rightarrow> table \<Rightarrow>
     (exn, 'r response_scheme) outcome \<times> table" where
  "exchange enc mk decode_passed P rq T =
     (case enc rq of
        (Ok packet, rq') \<Rightarrow>
          (case handle P packet T of
             (Ok reply, T') \<Rightarrow> (object_of (response_decode P decode_passed reply (mk rq')), T')
           | (Throw e, T') \<Rightarrow> (Throw e, T') | (Undefined, T') \<Rightarrow> (Undefined, T'))
      | (Throw e, _) \<Rightarrow> (Throw e, T) | (Undefined, _) \<Rightarrow> (Undefined, T))"

text \<open>
  The interface between a request class and its response class, on the client: a response
  object made from a request remembers the request's header and function. Under this contract
  the client sees the reply of the server through \<open>decode_passed\<close>, and every failure of the
  server as a bare \<open>std::exception\<close>: the catch clause for a Modbus exception never matches.
\<close>

locale client_exchange = request_codec +
  fixes mk :: "platform \<Rightarrow> 'a adu_scheme \<Rightarrow> 'c response_scheme"
  assumes mk_header: "req_header (mk P r) = adu_header r"
    and mk_function: "adu_function r = code \<Longrightarrow> adu_function (mk P r) = code"
    and mk_ready: "sendable r \<Longrightarrow> adu_function r = code"
    and code_checked: "check_function (function_underlying code)"
begin

abbreviation sent :: "'a adu_scheme \<Rightarrow> packet_t" where
  "sent r \<equiv> adu_packet (adu_transaction r) (adu_unit r) (function_underlying code) (body_of r)"

abbreviation replied :: "'a adu_scheme \<Rightarrow> byte list \<Rightarrow> packet_t" where
  "replied r body \<equiv> adu_packet (adu_transaction r) (adu_unit r) (function_underlying code) body"

abbreviation expects :: "platform \<Rightarrow> 'a adu_scheme \<Rightarrow> 'c response_scheme" where
  "expects P r \<equiv> mk P (calc_length (word_of_nat (length (body_of r))) r)"

lemma exchange_reply:
  assumes "platform_ok P" "table_inv T" "sendable r"
    and "spec_request (sent r) (table_image T) = Reply rbody im"
  shows "\<exists>T'. exchange (enc P) (mk P) dp P r T =
      (caught_object_of (dp (replied r rbody) (take_header (replied r rbody) (expects P r))), T') \<and>
    table_image T' = im \<and> table_inv T'"
proof -
  have "8 \<le> length (sent r)" by simp
  from handle_reply [OF assms(1,2) this assms(4)] obtain T' where
    T': "handle P (sent r) T = (Ok (replied r rbody), T')" "table_image T' = im" "table_inv T'"
    by (cases "handle P (sent r) T") auto
  have len: "length rbody < 65534" using spec_reply_body_length [OF assms(4)] by simp
  have hd: "hd_transaction (req_header (expects P r)) = adu_transaction r"
    "hd_unit (req_header (expects P r)) = adu_unit r"
    by (simp_all add: mk_header adu_header_def)
  from decode_normal [OF assms(1) hd len code_checked, of dp]
  have "object_of (response_decode P dp (replied r rbody) (expects P r)) =
      caught_object_of (dp (replied r rbody) (take_header (replied r rbody) (expects P r)))"
    by (simp add: object_of_def caught_object_of_def split: prod.split outcome.split)
  with T' show ?thesis by (simp add: exchange_def encodes [OF assms(1,3)])
qed

lemma exchange_accepted:
  assumes "platform_ok P" "table_inv T" "sendable r"
    and "spec_request (sent r) (table_image T) = Reply rbody im"
    and "dp (replied r rbody) (take_header (replied r rbody) (expects P r)) = (Ok (), rs)"
  shows "\<exists>T'. exchange (enc P) (mk P) dp P r T = (Ok rs, T') \<and> table_image T' = im"
  using exchange_reply [OF assms(1-4), of dp] assms(5) by (auto simp: caught_object_of_def)

lemma exchange_rejected:
  assumes "platform_ok P" "table_inv T" "sendable r"
    and "spec_request (sent r) (table_image T) = Reply rbody im"
    and "fst (dp (replied r rbody) (take_header (replied r rbody) (expects P r))) =
      Throw (Internal bad_data)"
  shows "\<exists>T'. exchange (enc P) (mk P) dp P r T = (Throw (Internal bad_data), T') \<and>
    table_image T' = im"
  using exchange_reply [OF assms(1-4), of dp] assms(5) by (auto simp: caught_object_of_def)

lemma exchange_fail:
  assumes "platform_ok P" "table_inv T" "sendable r"
    and "spec_request (sent r) (table_image T) = Fail ec"
  shows "exchange (enc P) (mk P) dp P r T = (Throw Std_exception, T)"
proof -
  have "8 \<le> length (sent r)" by simp
  from handle_fail [OF assms(1,2) this assms(4)] code_checked
  have h: "handle P (sent r) T = (Ok (adu_packet (adu_transaction r) (adu_unit r)
      (function_underlying code + 0x80) [exception_underlying ec]), T)"
    by (simp add: error_function_byte_def)
  have hd: "hd_transaction (req_header (expects P r)) = adu_transaction r"
    "hd_unit (req_header (expects P r)) = adu_unit r"
    by (simp_all add: mk_header adu_header_def)
  have f: "adu_function (expects P r) = code"
    using mk_ready [OF assms(3)] by (intro mk_function) simp
  from decode_exception [OF assms(1) hd, of dp "exception_underlying ec"] code_checked
  show ?thesis
    by (simp add: exchange_def encodes [OF assms(1,3)] h f object_of_def)
qed

end

section \<open>The classes\<close>

lemma supported_function_checks [simp]:
  "check_function 1" "check_function 2" "check_function 3" "check_function 4" "check_function 5"
  "check_function 6" "check_function 0x0F" "check_function 0x10" "check_function 0x16"
  "check_function 0x17"
  by (simp_all add: check_function_def)

interpretation read_coils_client: client_exchange read_bits_encode
  "\<lambda>P. read_bits_decode P read_coils" "new_read_bits_request read_coils" read_coils
  read_bits_body read_bits_fields "ready read_coils"
  "\<lambda>P. make_read_bits_response P read_coils"
  by unfold_locales (simp_all add: ready_def)

interpretation read_discrete_inputs_client: client_exchange read_bits_encode
  "\<lambda>P. read_bits_decode P read_discrete_inputs" "new_read_bits_request read_discrete_inputs"
  read_discrete_inputs read_bits_body read_bits_fields "ready read_discrete_inputs"
  "\<lambda>P. make_read_bits_response P read_discrete_inputs"
  by unfold_locales (simp_all add: ready_def)

interpretation read_holding_registers_client: client_exchange read_registers_encode
  "\<lambda>P. read_registers_decode P read_holding_registers"
  "new_read_registers_request read_holding_registers" read_holding_registers
  read_registers_body read_registers_fields "ready read_holding_registers"
  "\<lambda>P. make_read_registers_response P read_holding_registers"
  by unfold_locales (simp_all add: ready_def)

interpretation read_input_registers_client: client_exchange read_registers_encode
  "\<lambda>P. read_registers_decode P read_input_registers"
  "new_read_registers_request read_input_registers" read_input_registers
  read_registers_body read_registers_fields "ready read_input_registers"
  "\<lambda>P. make_read_registers_response P read_input_registers"
  by unfold_locales (simp_all add: ready_def)

interpretation write_single_coil_client: client_exchange write_single_coil_encode
  write_single_coil_decode new_write_single_coil_request write_single_coil
  write_single_coil_body write_single_coil_fields
  "\<lambda>r. ready write_single_coil r \<and> coil_value_ok r" make_write_single_coil_response
  by unfold_locales (simp_all add: ready_def)

interpretation write_single_register_client: client_exchange write_single_register_encode
  write_single_register_decode new_write_single_register_request write_single_register
  write_single_register_body write_single_register_fields "ready write_single_register"
  "\<lambda>P. make_write_single_register_response"
  by unfold_locales (simp_all add: ready_def)

interpretation mask_write_register_client: client_exchange mask_write_register_encode
  mask_write_register_decode new_mask_write_register_request mask_write_register
  mask_write_register_body mask_write_register_fields "ready mask_write_register"
  "\<lambda>P. make_mask_write_register_response"
  by unfold_locales (simp_all add: ready_def)

interpretation write_multiple_coils_client: client_exchange write_multiple_coils_encode
  write_multiple_coils_decode new_write_multiple_coils_request write_multiple_coils
  write_multiple_coils_body write_multiple_coils_fields coils_sendable
  "\<lambda>P. make_write_multiple_coils_response"
  by unfold_locales (simp_all add: coils_sendable_def ready_def)

interpretation write_multiple_registers_client: client_exchange write_multiple_registers_encode
  write_multiple_registers_decode new_write_multiple_registers_request write_multiple_registers
  write_multiple_registers_body write_multiple_registers_fields registers_sendable
  "\<lambda>P. make_write_multiple_registers_response"
  by unfold_locales (simp_all add: registers_sendable_def ready_def)

interpretation read_write_client: client_exchange read_write_multiple_registers_encode
  read_write_multiple_registers_decode new_read_write_multiple_registers_request
  read_write_multiple_registers read_write_body read_write_fields read_write_sendable
  "\<lambda>P. make_read_write_multiple_registers_response"
  by unfold_locales (simp_all add: read_write_sendable_def ready_def)

section \<open>The passed decoders\<close>

lemma write_single_register_decode_passed_eq:
  assumes "platform_ok P"
  shows "write_single_register_decode_passed P p r =
    (if length p = 12 \<and> meta_get (wrq_address (wrs_request r)) = packet_u16 p 8 \<and>
        meta_get (wrq_value (wrs_request r)) = packet_u16 p 10
     then (Ok (), r\<lparr>wrs_address := wrq_address (wrs_request r),
                    wrs_value := wrq_value (wrs_request r)\<rparr>)
     else (Throw (Internal bad_data), r))"
  using assms
  by (simp add: write_single_register_decode_passed_def act_simps codec_simps header_length_def
      write_single_register_response_size_def Let_def)

lemma mask_write_register_decode_passed_eq:
  assumes "platform_ok P"
  shows "mask_write_register_decode_passed P p r =
    (if length p = 14 \<and> meta_get (mwq_address (mws_request r)) = packet_u16 p 8 \<and>
        meta_get (mwq_and_mask (mws_request r)) = packet_u16 p 10 \<and>
        meta_get (mwq_or_mask (mws_request r)) = packet_u16 p 12
     then (Ok (), r\<lparr>mws_address := mwq_address (mws_request r),
                    mws_and_mask := mwq_and_mask (mws_request r),
                    mws_or_mask := mwq_or_mask (mws_request r)\<rparr>)
     else (Throw (Internal bad_data), r))"
  using assms
  by (simp add: mask_write_register_decode_passed_def act_simps codec_simps header_length_def
      mask_write_register_response_size_def Let_def)

lemma write_single_coil_decode_passed_eq:
  assumes "platform_ok P"
  shows "write_single_coil_decode_passed P p r =
    (if length p = 12 \<and> meta_get (wcq_address (wcs_request r)) = packet_u16 p 8 \<and>
        (bits_underlying (wcq_value (wcs_request r)) = packet_u16 p 10 \<or>
         \<not> check_bits_value (packet_u16 p 10))
     then (Ok (), r\<lparr>wcs_value := bits_of_u16 (packet_u16 p 10)\<rparr>)
     else (Throw (Internal bad_data), r))"
  using assms
  by (simp add: write_single_coil_decode_passed_def act_simps codec_simps header_length_def
      write_single_coil_response_size_def Let_def)

lemma meta_get_eq_iff: "meta_get m = w \<longleftrightarrow> m = Metadata w"
  by (cases m) simp

lemma write_multiple_coils_decode_passed_eq:
  assumes "platform_ok P"
  shows "fst (write_multiple_coils_decode_passed P p r) =
    (if length p = 12 \<and> meta_get (wmcq_address (wmcs_request r)) = packet_u16 p 8 \<and>
        meta_get (wmcq_count (wmcs_request r)) = packet_u16 p 10
     then Ok () else Throw (Internal bad_data))"
  using assms
  by (simp add: write_multiple_coils_decode_passed_def act_simps codec_simps header_length_def
      write_multiple_coils_response_size_def Let_def meta_get_eq_iff)

lemma write_multiple_registers_decode_passed_eq:
  assumes "platform_ok P"
  shows "fst (write_multiple_registers_decode_passed P p r) =
    (if length p = 12 \<and> meta_get (wmrq_address (wmrs_request r)) = packet_u16 p 8 \<and>
        meta_get (wmrq_count (wmrs_request r)) = packet_u16 p 10
     then Ok () else Throw (Internal bad_data))"
  using assms
  by (simp add: write_multiple_registers_decode_passed_def act_simps codec_simps
      header_length_def write_multiple_registers_response_size_def Let_def meta_get_eq_iff)


section \<open>Byte counts read through a \<open>char\<close>\<close>

text \<open>A byte becomes the same 16-bit number exactly when \<open>char\<close> is unsigned or it is small.\<close>

lemma char_to_u16_int:
  "uint (char_to_u16 P b) =
     (if char_is_signed P \<and> 128 \<le> uint b then uint b + 65280 else uint b)"
proof -
  have b: "0 \<le> uint b" "uint b < 256"
    using uint_ge_0 [of b] uint_lt2p [of b] by simp_all
  have s: "sint b = (if uint b < 128 then uint b else uint b - 256)"
    using b by (simp add: sint_uint signed_take_bit_eq_take_bit_minus take_bit_int_eq_self
        bit_iff_odd) presburger
  have "uint (char_to_u16 P b) = char_to_int P b mod 65536"
    by (simp add: char_to_u16_def uint_word_of_int)
  moreover have "(uint b - 256) mod 65536 = uint b + 65280" if "128 \<le> uint b"
  proof -
    have "(uint b - 256) mod 65536 = (uint b - 256 + 65536) mod 65536"
      by (rule mod_add_self2 [symmetric])
    also have "\<dots> = uint b - 256 + 65536" by (rule mod_pos_pos_trivial) (use b that in linarith)+
    finally show ?thesis by simp
  qed
  moreover have "uint b mod 65536 = uint b"
    using b by (intro mod_pos_pos_trivial) linarith+
  ultimately show ?thesis using s by (auto simp: char_to_int_def)
qed

lemma unat_char_to_u16:
  "unat (char_to_u16 P b) =
     (if char_is_signed P \<and> 128 \<le> unat b then unat b + 65280 else unat b)"
proof -
  have i: "uint b = int (unat b)" by simp
  have "int (unat (char_to_u16 P b)) = uint (char_to_u16 P b)" by simp
  also have "\<dots> = int (if char_is_signed P \<and> 128 \<le> unat b then unat b + 65280 else unat b)"
    unfolding char_to_u16_int i by (simp del: of_nat_unat)
  finally show ?thesis by (simp only: of_nat_eq_iff)
qed


section \<open>The decoders of read replies\<close>

lemma registers_after_byte:
  "length vs = n \<Longrightarrow> packet_registers (adu_packet t u f (b # registers_bytes vs)) 9 n = vs"
  using packet_registers_of_bytes [of "[b]" 1 vs "[]"]
  by (simp add: packet_registers_adu_packet)

text \<open>
  A correct reply to a register read: it is accepted unless \<open>char\<close> is signed and the byte
  count has its top bit set.
\<close>

lemma read_registers_decode_passed_reply:
  fixes r :: read_registers_response
  assumes P: "platform_ok P" and v: "num_regs_validate False (meta_get (rrq_count (rrs_request r)))"
  defines "n \<equiv> unat (meta_get (rrq_count (rrs_request r)))"
  assumes vs: "length vs = n" and ub: "unat b = 2 * n"
    and p: "p = adu_packet t u f (b # registers_bytes vs)"
  shows "read_registers_decode_passed P p r =
    (if char_is_signed P \<and> 64 \<le> n
     then (Throw (Internal bad_data), r\<lparr>rrs_count := char_to_u16 P b\<rparr>)
     else (Ok (), r\<lparr>rrs_count := char_to_u16 P b, rrs_registers := vs\<rparr>))"
proof -
  have n: "n \<le> 125" using v by (simp add: num_regs_validate_unat n_def)
  have len: "length p = 9 + 2 * n" by (simp add: p vs)
  have bc: "unat (read_registers_byte_count (rrs_request r)) = 2 * n"
    using unat_read_registers_byte_count [OF v] by (simp add: n_def)
  have size: "read_registers_response_size (rrs_request r) = 9 + 2 * n"
    using read_registers_response_size_eq [OF v] by (simp add: n_def)
  have b: "p ! 8 = b" by (simp add: p adu_packet_nth)
  have cmp: "char_to_u16 P b = read_registers_byte_count (rrs_request r) \<longleftrightarrow>
      \<not> (char_is_signed P \<and> 64 \<le> n)"
    unfolding word_unat_eq_iff unat_char_to_u16 ub bc by auto
  have regs: "unpack_registers P p 9 (2 * n) 0 [] s = (Ok vs, s)" for s :: read_registers_response
    using registers_after_byte [OF vs, of t u f b] len
    by (simp add: unpack_registers_eq [OF P] p)
  show ?thesis
    by (auto simp: read_registers_decode_passed_def act_simps header_length_def len size b cmp bc
        regs vs n_def [symmetric] Let_def)
qed

text \<open>
  A correct reply to a bit read is never accepted: its byte count is compared with the number
  of bits, and where the two are equal the number of unpacked bits is not.
\<close>

lemma byte_count_of_bits:
  assumes "1 \<le> n" "n \<le> 2000" "unat b = (n + 7) div 8" "unat (char_to_u16 P b) = n"
  shows "n = 1"
proof (cases "char_is_signed P \<and> 128 \<le> unat b")
  case True
  with assms(4) have "65280 \<le> n" unfolding unat_char_to_u16 by simp
  with assms(2) show ?thesis by simp
next
  case False
  with assms(4) have "unat b = n" unfolding unat_char_to_u16 by (simp split: if_splits)
  with assms(3) have "(n + 7) div 8 = n" by simp
  with assms(1) show ?thesis by linarith
qed

lemma read_bits_decode_passed_reply:
  fixes r :: read_bits_response
  defines "n \<equiv> unat (meta_get (rbq_count (rbs_request r)))"
  assumes n: "1 \<le> n" "n \<le> 2000" and bits: "length bits = n" and ub: "unat b = (n + 7) div 8"
    and p: "p = adu_packet t u f (b # pack_bits bits)"
  shows "fst (read_bits_decode_passed P p r) = Throw (Internal bad_data)"
proof -
  have len: "length p = 9 + (n + 7) div 8" by (simp add: p length_pack_bits bits)
  have b: "p ! 8 = b" by (simp add: p adu_packet_nth)
  have d: "drop 9 p = pack_bits bits"
    by (simp add: p adu_packet_def Let_def)
  have one: "n = 1" if "char_to_u16 P b = meta_get (rbq_count (rbs_request r))"
    using byte_count_of_bits [OF n ub, of P] that by (simp add: n_def)
  have ne: "length (unpack_bits (pack_bits bits)) \<noteq> 1"
    using n by (simp add: unpack_pack_bits bits)
  show ?thesis
    using one ne by (auto simp: read_bits_decode_passed_def act_simps header_length_def len b d
        n_def [symmetric] Let_def)
qed

lemma read_write_decode_passed_reply:
  fixes r :: read_write_multiple_registers_response
  assumes P: "platform_ok P"
    and v: "num_regs_validate False (meta_get (rwq_read_count (rws_request r)))"
  defines "n \<equiv> unat (meta_get (rwq_read_count (rws_request r)))"
  assumes vs: "length vs = n" and ub: "unat b = 2 * n"
    and p: "p = adu_packet t u f (b # registers_bytes vs)"
  shows "read_write_multiple_registers_decode_passed P p r =
    (Ok (), r\<lparr>rws_count := b, rws_registers := vs\<rparr>)"
proof -
  have len: "length p = 9 + 2 * n" by (simp add: p vs)
  have bc: "unat (registers_byte_count (rwq_read_count (rws_request r))) = 2 * n"
    and size: "read_write_response_size (rws_request r) = 9 + 2 * n"
    using read_write_response_size_eq [OF v] by (simp_all add: n_def)
  have b: "p ! 8 = b" by (simp add: p adu_packet_nth)
  have cmp: "registers_byte_count (rwq_read_count (rws_request r)) = b"
    by (simp add: word_unat_eq_iff bc ub)
  have regs: "unpack_registers P p 9 (2 * n) 0 [] s = (Ok vs, s)"
    for s :: read_write_multiple_registers_response
    using registers_after_byte [OF vs, of t u f b] len
    by (simp add: unpack_registers_eq [OF P] p)
  show ?thesis
    by (simp add: read_write_multiple_registers_decode_passed_def act_simps header_length_def len
        size b cmp ub regs vs n_def [symmetric] Let_def)
qed

end
