(* ===== verification/Modbus_Exchange.thy ===== *)
theory Modbus_Exchange
  imports Modbus_Client
begin

text \<open>
  Whole exchanges between a client and a server of this library, one function at a time: the
  client encodes a request, the server handles it, and the client decodes the reply. The
  register writes and the combined read and write always work; reading registers works up to
  a size that depends on the platform; writing a coil and reading bits reject replies of this
  library's own server.
\<close>

lemmas exchange_simps = body_simps spec_request_def Let_def adu_header_def caught_object_of_def

section \<open>What the server answers\<close>

lemma sent_write_single_register:
  assumes "block_cells (holding_registers T) (unat (meta_get (wrq_address rq))) \<noteq> None"
  shows "spec_request (write_single_register_client.sent rq) (table_image T) =
    Reply (u16_bytes (meta_get (wrq_address rq)) @ u16_bytes (meta_get (wrq_value rq)))
      ((table_image T)\<lparr>im_holding_registers :=
         put_cells (im_holding_registers (table_image T)) (unat (meta_get (wrq_address rq)))
           [meta_get (wrq_value rq)]\<rparr>)"
  using assms
  by (simp add: exchange_simps spec_write_single_register_def write_single_register_body_def)

lemma sent_mask_write_register:
  assumes "block_cells (holding_registers T) (unat (meta_get (mwq_address rq))) = Some cur"
  shows "spec_request (mask_write_register_client.sent rq) (table_image T) =
    Reply (u16_bytes (meta_get (mwq_address rq)) @ u16_bytes (meta_get (mwq_and_mask rq)) @
           u16_bytes (meta_get (mwq_or_mask rq)))
      ((table_image T)\<lparr>im_holding_registers :=
         put_cells (im_holding_registers (table_image T)) (unat (meta_get (mwq_address rq)))
           [or (and cur (meta_get (mwq_and_mask rq))) (meta_get (mwq_or_mask rq))]\<rparr>)"
  using assms
  by (simp add: exchange_simps spec_mask_write_register_def mask_write_register_body_def)

lemma sent_write_single_coil:
  assumes "block_cells (coils T) (unat (meta_get (wcq_address rq))) = Some old" "coil_value_ok rq"
  shows "spec_request (write_single_coil_client.sent rq) (table_image T) =
    Reply (u16_bytes (meta_get (wcq_address rq)) @ u16_bytes (if old then 0xFF00 else 0))
      ((table_image T)\<lparr>im_coils :=
         put_cells (im_coils (table_image T)) (unat (meta_get (wcq_address rq)))
           [wcq_value rq = bits_on]\<rparr>)"
  using assms
  by (auto simp: exchange_simps spec_write_single_coil_def write_single_coil_body_def
      coil_value_ok_def)

text \<open>A range of a block, as the requests name it.\<close>

definition range_ok :: "'a block \<Rightarrow> metadata \<Rightarrow> metadata \<Rightarrow> nat \<Rightarrow> bool" where
  "range_ok b a c m \<longleftrightarrow> 1 \<le> unat (meta_get c) \<and> unat (meta_get c) \<le> m \<and>
     all_cells (block_cells b) (unat (meta_get a)) (unat (meta_get c))"

lemma sent_read_registers:
  assumes "range_ok (holding_registers T) (rrq_address rq) (rrq_count rq) 125"
  defines "n \<equiv> unat (meta_get (rrq_count rq))"
  shows "spec_request (read_holding_registers_client.sent rq) (table_image T) =
    Reply (word_of_nat (2 * n) # registers_bytes (cell_list (block_cells (holding_registers T))
        (unat (meta_get (rrq_address rq))) n)) (table_image T)"
  using assms
  by (simp add: exchange_simps spec_read_registers_def read_registers_body_def range_ok_def)

lemma sent_read_bits:
  assumes "range_ok (coils T) (rbq_address rq) (rbq_count rq) 2000"
  defines "n \<equiv> unat (meta_get (rbq_count rq))"
  shows "spec_request (read_coils_client.sent rq) (table_image T) =
    Reply (word_of_nat ((n + 7) div 8) # pack_bits_chunks (cell_list (block_cells (coils T))
        (unat (meta_get (rbq_address rq))) n)) (table_image T)"
  using assms
  by (simp add: exchange_simps spec_read_bits_def read_bits_body_def range_ok_def)

text \<open>The values of the two multiple writes, found again in the packet.\<close>

lemma sent_registers:
  assumes "registers_sendable rq"
  shows "packet_registers (write_multiple_registers_client.sent rq) 13
      (unat (meta_get (wmrq_count rq))) = wmrq_values rq"
proof -
  have "length (wmrq_values rq) = unat (meta_get (wmrq_count rq))"
    using assms by (simp add: registers_sendable_def)
  with packet_registers_of_bytes [of "u16_bytes (meta_get (wmrq_address rq)) @
      u16_bytes (meta_get (wmrq_count rq)) @ [registers_byte_count (wmrq_count rq)]" 5
      "wmrq_values rq" "[]"]
  show ?thesis
    by (simp add: packet_registers_adu_packet write_multiple_registers_body_def)
qed

lemma sent_read_write_registers:
  assumes "read_write_sendable rq"
  shows "packet_registers (read_write_client.sent rq) 17
      (unat (meta_get (rwq_write_count rq))) = rwq_values rq"
proof -
  have "length (rwq_values rq) = unat (meta_get (rwq_write_count rq))"
    using assms by (simp add: read_write_sendable_def)
  with packet_registers_of_bytes [of "u16_bytes (meta_get (rwq_read_address rq)) @
      u16_bytes (meta_get (rwq_read_count rq)) @ u16_bytes (meta_get (rwq_write_address rq)) @
      u16_bytes (meta_get (rwq_write_count rq)) @ [registers_byte_count (rwq_write_count rq)]" 9
      "rwq_values rq" "[]"]
  show ?thesis by (simp add: packet_registers_adu_packet read_write_body_def)
qed

lemma sent_write_multiple_registers:
  assumes "registers_sendable rq"
    "range_ok (holding_registers T) (wmrq_address rq) (wmrq_count rq) 123"
  shows "spec_request (write_multiple_registers_client.sent rq) (table_image T) =
    Reply (u16_bytes (meta_get (wmrq_address rq)) @ u16_bytes (meta_get (wmrq_count rq)))
      ((table_image T)\<lparr>im_holding_registers :=
         put_cells (im_holding_registers (table_image T)) (unat (meta_get (wmrq_address rq)))
           (wmrq_values rq)\<rparr>)"
proof -
  let ?p = "write_multiple_registers_client.sent rq" and ?n = "unat (meta_get (wmrq_count rq))"
  have n: "length (wmrq_values rq) = ?n" "?n \<le> 123" "1 \<le> ?n"
    "all_cells (block_cells (holding_registers T)) (unat (meta_get (wmrq_address rq))) ?n"
    using assms by (simp_all add: registers_sendable_def range_ok_def)
  have "?p ! 7 = 0x10" "packet_u16 ?p 8 = meta_get (wmrq_address rq)"
    "packet_u16 ?p 10 = meta_get (wmrq_count rq)" "unat (?p ! 12) = 2 * ?n"
    "length ?p = 13 + 2 * ?n"
    using n by (simp_all add: body_simps write_multiple_registers_body_def
        unat_registers_byte_count)
  with n sent_registers [OF assms(1)] show ?thesis
    by (simp add: spec_request_def spec_write_multiple_registers_def Let_def)
qed

lemma sent_read_write:
  assumes "read_write_sendable rq"
    "range_ok (holding_registers T) (rwq_read_address rq) (rwq_read_count rq) 125"
    "range_ok (holding_registers T) (rwq_write_address rq) (rwq_write_count rq) 123"
  defines "regs \<equiv> put_cells (im_holding_registers (table_image T))
      (unat (meta_get (rwq_write_address rq))) (rwq_values rq)"
    and "n \<equiv> unat (meta_get (rwq_read_count rq))"
  shows "spec_request (read_write_client.sent rq) (table_image T) =
    Reply (word_of_nat (2 * n) #
        registers_bytes (cell_list regs (unat (meta_get (rwq_read_address rq))) n))
      ((table_image T)\<lparr>im_holding_registers := regs\<rparr>)"
proof -
  let ?p = "read_write_client.sent rq" and ?m = "unat (meta_get (rwq_write_count rq))"
  have m: "length (rwq_values rq) = ?m" "?m \<le> 123" "1 \<le> ?m"
    "all_cells (block_cells (holding_registers T)) (unat (meta_get (rwq_write_address rq))) ?m"
    using assms(1,3) by (simp_all add: read_write_sendable_def range_ok_def)
  have "?p ! 7 = 0x17" "packet_u16 ?p 8 = meta_get (rwq_read_address rq)"
    "packet_u16 ?p 10 = meta_get (rwq_read_count rq)"
    "packet_u16 ?p 12 = meta_get (rwq_write_address rq)"
    "packet_u16 ?p 14 = meta_get (rwq_write_count rq)" "unat (?p ! 16) = 2 * ?m"
    "length ?p = 17 + 2 * ?m"
    using m by (simp_all add: body_simps read_write_body_def unat_registers_byte_count)
  with m sent_read_write_registers [OF assms(1)] assms(2) show ?thesis
    by (simp add: spec_request_def spec_read_write_multiple_registers_def Let_def range_ok_def
        regs_def n_def)
qed


section \<open>What the client sees\<close>

text \<open>
  Writing a register works end to end: for an address of the table, the client's decoder
  accepts the server's reply, the response object names the address and value of the request,
  and the register has the value.
\<close>

lemma write_single_register_exchange:
  assumes "platform_ok P" "table_inv T" "ready write_single_register rq"
    and "block_cells (holding_registers T) (unat (meta_get (wrq_address rq))) \<noteq> None"
  shows "\<exists>rs T'. exchange (write_single_register_encode P) make_write_single_register_response
      (write_single_register_decode_passed P) P rq T = (Ok rs, T') \<and>
    wrs_address rs = wrq_address rq \<and> wrs_value rs = wrq_value rq \<and>
    block_cells (holding_registers T') (unat (meta_get (wrq_address rq))) =
      Some (meta_get (wrq_value rq))"
proof -
  let ?r = "u16_bytes (meta_get (wrq_address rq)) @ u16_bytes (meta_get (wrq_value rq))"
  let ?p = "write_single_register_client.replied rq ?r"
  let ?rs = "take_header ?p (write_single_register_client.expects P rq)"
  have "write_single_register_decode_passed P ?p ?rs =
      (Ok (), ?rs\<lparr>wrs_address := wrq_address rq, wrs_value := wrq_value rq\<rparr>)"
    by (simp add: write_single_register_decode_passed_eq [OF assms(1)] exchange_simps)
  from write_single_register_client.exchange_accepted [where
      dp = "write_single_register_decode_passed P", OF assms(1-3)
      sent_write_single_register [OF assms(4)] this]
  obtain T' where e: "exchange (write_single_register_encode P)
        make_write_single_register_response (write_single_register_decode_passed P) P rq T =
      (Ok (?rs\<lparr>wrs_address := wrq_address rq, wrs_value := wrq_value rq\<rparr>), T')"
    and im: "table_image T' = (table_image T)\<lparr>im_holding_registers :=
      put_cells (im_holding_registers (table_image T)) (unat (meta_get (wrq_address rq)))
        [meta_get (wrq_value rq)]\<rparr>"
    by blast
  from im have "im_holding_registers (table_image T') (unat (meta_get (wrq_address rq))) =
      Some (meta_get (wrq_value rq))"
    by (simp add: put_cells_def del: table_image_simps)
  with e show ?thesis by simp
qed

text \<open>
  Writing several registers works end to end: for a request the client can encode and a
  range of the table, the reply is accepted and the range holds the values of the request.
\<close>

lemma write_multiple_registers_exchange:
  assumes "platform_ok P" "table_inv T" "registers_sendable rq"
    and "range_ok (holding_registers T) (wmrq_address rq) (wmrq_count rq) 123"
  shows "\<exists>rs T'. exchange (write_multiple_registers_encode P)
      make_write_multiple_registers_response (write_multiple_registers_decode_passed P) P rq T =
      (Ok rs, T') \<and>
    cell_list (block_cells (holding_registers T')) (unat (meta_get (wmrq_address rq)))
      (unat (meta_get (wmrq_count rq))) = wmrq_values rq"
proof -
  let ?r = "u16_bytes (meta_get (wmrq_address rq)) @ u16_bytes (meta_get (wmrq_count rq))"
  let ?p = "write_multiple_registers_client.replied rq ?r"
  let ?d = "write_multiple_registers_decode_passed P ?p
    (take_header ?p (write_multiple_registers_client.expects P rq))"
  have "fst ?d = Ok ()"
    by (simp add: write_multiple_registers_decode_passed_eq [OF assms(1)] exchange_simps)
  then have "?d = (Ok (), snd ?d)" by (simp add: prod_eq_iff)
  from write_multiple_registers_client.exchange_accepted [where
      dp = "write_multiple_registers_decode_passed P", OF assms(1-3)
      sent_write_multiple_registers [OF assms(3,4)] this]
  obtain T' where e: "exchange (write_multiple_registers_encode P)
      make_write_multiple_registers_response (write_multiple_registers_decode_passed P) P rq T =
      (Ok (snd ?d), T')"
    and im: "table_image T' = (table_image T)\<lparr>im_holding_registers :=
      put_cells (im_holding_registers (table_image T)) (unat (meta_get (wmrq_address rq)))
        (wmrq_values rq)\<rparr>"
    by blast
  have "length (wmrq_values rq) = unat (meta_get (wmrq_count rq))"
    using assms(3) by (simp add: registers_sendable_def)
  then have "cell_list (im_holding_registers (table_image T'))
      (unat (meta_get (wmrq_address rq))) (unat (meta_get (wmrq_count rq))) = wmrq_values rq"
    using cell_list_put_same [of _ _ "wmrq_values rq"] by (simp add: im)
  with e show ?thesis by auto
qed


text \<open>
  Reading and writing in one request works end to end: the reply is accepted on every
  platform and the response object holds the registers of the table after the write.
\<close>

lemma read_write_exchange:
  assumes "platform_ok P" "table_inv T" "read_write_sendable rq"
    and "range_ok (holding_registers T) (rwq_read_address rq) (rwq_read_count rq) 125"
    and "range_ok (holding_registers T) (rwq_write_address rq) (rwq_write_count rq) 123"
  shows "\<exists>rs T'. exchange (read_write_multiple_registers_encode P)
      make_read_write_multiple_registers_response
      (read_write_multiple_registers_decode_passed P) P rq T = (Ok rs, T') \<and>
    rws_registers rs = cell_list (block_cells (holding_registers T'))
      (unat (meta_get (rwq_read_address rq))) (unat (meta_get (rwq_read_count rq))) \<and>
    block_cells (holding_registers T') = put_cells (block_cells (holding_registers T))
      (unat (meta_get (rwq_write_address rq))) (rwq_values rq)"
proof -
  let ?n = "unat (meta_get (rwq_read_count rq))"
  let ?regs = "put_cells (im_holding_registers (table_image T))
      (unat (meta_get (rwq_write_address rq))) (rwq_values rq)"
  let ?vs = "cell_list ?regs (unat (meta_get (rwq_read_address rq))) ?n"
  let ?b = "word_of_nat (2 * ?n) :: byte"
  let ?p = "read_write_client.replied rq (?b # registers_bytes ?vs)"
  let ?rs = "take_header ?p (read_write_client.expects P rq)"
  have v: "num_regs_validate False (meta_get (rwq_read_count rq))" "?n \<le> 125"
    using assms(4) by (simp_all add: range_ok_def num_regs_validate_unat)
  have ub: "unat ?b = 2 * ?n"
    using v(2) by (simp only: unat_of_nat_byte) simp
  have rq: "rwq_read_count (rws_request ?rs) = rwq_read_count rq" by simp
  have "read_write_multiple_registers_decode_passed P ?p ?rs =
      (Ok (), ?rs\<lparr>rws_count := ?b, rws_registers := ?vs\<rparr>)"
    by (rule read_write_decode_passed_reply [OF assms(1) _ _ _ refl])
      (use v ub in \<open>simp_all only: rq length_cell_list\<close>)
  from read_write_client.exchange_accepted [where
      dp = "read_write_multiple_registers_decode_passed P", OF assms(1-3)
      sent_read_write [OF assms(3-5)] this]
  obtain T' where e: "exchange (read_write_multiple_registers_encode P)
      make_read_write_multiple_registers_response
      (read_write_multiple_registers_decode_passed P) P rq T =
      (Ok (?rs\<lparr>rws_count := ?b, rws_registers := ?vs\<rparr>), T')"
    and im: "table_image T' = (table_image T)\<lparr>im_holding_registers := ?regs\<rparr>"
    by blast
  from im have "im_holding_registers (table_image T') = ?regs" by simp
  then have "block_cells (holding_registers T') = ?regs" by simp
  with e show ?thesis by simp
qed

text \<open>
  Masking a register works end to end: the reply is accepted and the register holds the
  masked value.
\<close>

lemma mask_write_register_exchange:
  assumes "platform_ok P" "table_inv T" "ready mask_write_register rq"
    and "block_cells (holding_registers T) (unat (meta_get (mwq_address rq))) = Some cur"
  shows "\<exists>rs T'. exchange (mask_write_register_encode P) make_mask_write_register_response
      (mask_write_register_decode_passed P) P rq T = (Ok rs, T') \<and>
    block_cells (holding_registers T') (unat (meta_get (mwq_address rq))) =
      Some (or (and cur (meta_get (mwq_and_mask rq))) (meta_get (mwq_or_mask rq)))"
proof -
  let ?r = "u16_bytes (meta_get (mwq_address rq)) @ u16_bytes (meta_get (mwq_and_mask rq)) @
      u16_bytes (meta_get (mwq_or_mask rq))"
  let ?v = "or (and cur (meta_get (mwq_and_mask rq))) (meta_get (mwq_or_mask rq))"
  let ?p = "mask_write_register_client.replied rq ?r"
  let ?d = "mask_write_register_decode_passed P ?p
      (take_header ?p (mask_write_register_client.expects P rq))"
  have "fst ?d = Ok ()"
    by (simp add: mask_write_register_decode_passed_eq [OF assms(1)] exchange_simps)
  then have "?d = (Ok (), snd ?d)" by (simp add: prod_eq_iff)
  from mask_write_register_client.exchange_accepted [where
      dp = "mask_write_register_decode_passed P", OF assms(1-3)
      sent_mask_write_register [OF assms(4)] this]
  obtain T' where e: "exchange (mask_write_register_encode P) make_mask_write_register_response
      (mask_write_register_decode_passed P) P rq T = (Ok (snd ?d), T')"
    and im: "table_image T' = (table_image T)\<lparr>im_holding_registers :=
      put_cells (im_holding_registers (table_image T)) (unat (meta_get (mwq_address rq))) [?v]\<rparr>"
    by blast
  from im have "im_holding_registers (table_image T') (unat (meta_get (mwq_address rq))) = Some ?v"
    by (simp add: put_cells_def del: table_image_simps)
  with e show ?thesis by simp
qed

text \<open>
  C21: writing registers works end to end, for all four requests that do it. On every platform,
  the client's decoder accepts the server's reply to a request that the client can encode and
  whose addresses the table has. After a single write the response object names the address and
  value of the request and the register has the value; after a multiple write the range holds
  the values; a combined read and write returns the registers as they are after its write; after
  a mask write the register holds \<open>(old AND and_mask) OR or_mask\<close>.
\<close>

theorem register_exchanges:
  assumes "platform_ok P" "table_inv T"
  shows "(\<forall>rq. ready write_single_register rq \<and>
      block_cells (holding_registers T) (unat (meta_get (wrq_address rq))) \<noteq> None \<longrightarrow>
      (\<exists>rs T'. exchange (write_single_register_encode P) make_write_single_register_response
          (write_single_register_decode_passed P) P rq T = (Ok rs, T') \<and>
        wrs_address rs = wrq_address rq \<and> wrs_value rs = wrq_value rq \<and>
        block_cells (holding_registers T') (unat (meta_get (wrq_address rq))) =
          Some (meta_get (wrq_value rq)))) \<and>
    (\<forall>rq. registers_sendable rq \<and>
      range_ok (holding_registers T) (wmrq_address rq) (wmrq_count rq) 123 \<longrightarrow>
      (\<exists>rs T'. exchange (write_multiple_registers_encode P)
          make_write_multiple_registers_response (write_multiple_registers_decode_passed P) P rq T =
          (Ok rs, T') \<and>
        cell_list (block_cells (holding_registers T')) (unat (meta_get (wmrq_address rq)))
          (unat (meta_get (wmrq_count rq))) = wmrq_values rq)) \<and>
    (\<forall>rq. read_write_sendable rq \<and>
      range_ok (holding_registers T) (rwq_read_address rq) (rwq_read_count rq) 125 \<and>
      range_ok (holding_registers T) (rwq_write_address rq) (rwq_write_count rq) 123 \<longrightarrow>
      (\<exists>rs T'. exchange (read_write_multiple_registers_encode P)
          make_read_write_multiple_registers_response
          (read_write_multiple_registers_decode_passed P) P rq T = (Ok rs, T') \<and>
        rws_registers rs = cell_list (block_cells (holding_registers T'))
          (unat (meta_get (rwq_read_address rq))) (unat (meta_get (rwq_read_count rq))) \<and>
        block_cells (holding_registers T') = put_cells (block_cells (holding_registers T))
          (unat (meta_get (rwq_write_address rq))) (rwq_values rq))) \<and>
    (\<forall>rq cur. ready mask_write_register rq \<and>
      block_cells (holding_registers T) (unat (meta_get (mwq_address rq))) = Some cur \<longrightarrow>
      (\<exists>rs T'. exchange (mask_write_register_encode P) make_mask_write_register_response
          (mask_write_register_decode_passed P) P rq T = (Ok rs, T') \<and>
        block_cells (holding_registers T') (unat (meta_get (mwq_address rq))) =
          Some (or (and cur (meta_get (mwq_and_mask rq))) (meta_get (mwq_or_mask rq)))))"
  by (intro conjI allI impI; elim conjE)
    (rule write_single_register_exchange write_multiple_registers_exchange read_write_exchange
      mask_write_register_exchange; (rule assms | assumption))+

theorem register_exchanges_witness:
  "(\<exists>rs. fst (exchange (write_single_register_encode (sample_platform True))
      make_write_single_register_response
      (write_single_register_decode_passed (sample_platform True)) (sample_platform True)
      (make_write_single_register_request (Metadata 17) (Metadata 99)) sample_table) = Ok rs \<and>
    wrs_value rs = Metadata 99) \<and>
  cell_list (block_cells (holding_registers (snd (exchange
      (write_multiple_registers_encode (sample_platform True))
      make_write_multiple_registers_response
      (write_multiple_registers_decode_passed (sample_platform True)) (sample_platform True)
      (make_write_multiple_registers_request (Metadata 17) (Metadata 2) [5, 6])
      sample_table)))) 17 2 = [5, 6] \<and>
  block_cells (holding_registers (snd (exchange
      (read_write_multiple_registers_encode (sample_platform True))
      make_read_write_multiple_registers_response
      (read_write_multiple_registers_decode_passed (sample_platform True)) (sample_platform True)
      (make_read_write_multiple_registers_request (Metadata 16) (Metadata 2) (Metadata 17)
         (Metadata 1) [5])
      sample_table))) 17 = Some 5 \<and>
  block_cells (holding_registers (snd (exchange
      (mask_write_register_encode (sample_platform True)) make_mask_write_register_response
      (mask_write_register_decode_passed (sample_platform True)) (sample_platform True)
      (make_mask_write_register_request (Metadata 17) (Metadata 5) (Metadata 8))
      sample_table))) 17 = Some 13"
proof -
  let ?rq1 = "make_write_single_register_request (Metadata 17) (Metadata 99)"
  let ?rq2 = "make_write_multiple_registers_request (Metadata 17) (Metadata 2) [5, 6]"
  let ?rq3 = "make_read_write_multiple_registers_request (Metadata 16) (Metadata 2) (Metadata 17)
         (Metadata 1) [5]"
  let ?rq4 = "make_mask_write_register_request (Metadata 17) (Metadata 5) (Metadata 8)"
  note all = register_exchanges [OF sample_platform_ok [of True] sample_table_inv]
  have c1: "ready write_single_register ?rq1 \<and>
      block_cells (holding_registers sample_table) (unat (meta_get (wrq_address ?rq1))) \<noteq> None"
    and c2: "registers_sendable ?rq2 \<and>
      range_ok (holding_registers sample_table) (wmrq_address ?rq2) (wmrq_count ?rq2) 123"
    and c3: "read_write_sendable ?rq3 \<and>
      range_ok (holding_registers sample_table) (rwq_read_address ?rq3) (rwq_read_count ?rq3) 125 \<and>
      range_ok (holding_registers sample_table) (rwq_write_address ?rq3) (rwq_write_count ?rq3) 123"
    and c4: "ready mask_write_register ?rq4 \<and>
      block_cells (holding_registers sample_table) (unat (meta_get (mwq_address ?rq4))) = Some 7"
    by code_simp+
  have f1: "wrq_value ?rq1 = Metadata 99"
    and f2: "unat (meta_get (wmrq_address ?rq2)) = 17" "unat (meta_get (wmrq_count ?rq2)) = 2"
      "wmrq_values ?rq2 = [5, 6]"
    and f3: "unat (meta_get (rwq_write_address ?rq3)) = 17" "rwq_values ?rq3 = [5]"
    and f4: "unat (meta_get (mwq_address ?rq4)) = 17"
      "or (and 7 (meta_get (mwq_and_mask ?rq4))) (meta_get (mwq_or_mask ?rq4)) = 13"
    by code_simp+
  from all [THEN conjunct1, rule_format, OF c1, unfolded f1]
    all [THEN conjunct2, THEN conjunct1, rule_format, OF c2, unfolded f2]
    all [THEN conjunct2, THEN conjunct2, THEN conjunct1, rule_format, OF c3, unfolded f3]
    all [THEN conjunct2, THEN conjunct2, THEN conjunct2, rule_format, OF c4, unfolded f4]
  show ?thesis by (elim exE conjE) (simp add: put_cells_def)
qed

text \<open>
  C25: reading holding registers works end to end exactly as long as the byte count of the
  reply is not read as a negative \<open>char\<close>: with unsigned \<open>char\<close> always, with signed \<open>char\<close> for
  fewer than 64 registers. From 64 registers on the client throws \<open>bad_data\<close> on the right
  reply, although the protocol and the server allow 125.
\<close>

theorem read_holding_registers_exchange:
  assumes "platform_ok P" "table_inv T" "ready read_holding_registers rq"
    and "range_ok (holding_registers T) (rrq_address rq) (rrq_count rq) 125"
  defines "n \<equiv> unat (meta_get (rrq_count rq))"
    and "X \<equiv> exchange (read_registers_encode P)
      (make_read_registers_response P read_holding_registers) (read_registers_decode_passed P)
      P rq T"
  shows "if char_is_signed P \<and> 64 \<le> n then fst X = Throw (Internal bad_data)
    else \<exists>rs. fst X = Ok rs \<and> rrs_registers rs =
      cell_list (block_cells (holding_registers T)) (unat (meta_get (rrq_address rq))) n"
proof -
  let ?vs = "cell_list (block_cells (holding_registers T)) (unat (meta_get (rrq_address rq))) n"
  let ?b = "word_of_nat (2 * n) :: byte"
  let ?p = "read_holding_registers_client.replied rq (?b # registers_bytes ?vs)"
  let ?rs = "take_header ?p (read_holding_registers_client.expects P rq)"
  have v: "num_regs_validate False (meta_get (rrq_count rq))" "n \<le> 125"
    using assms(4) by (simp_all add: range_ok_def num_regs_validate_unat n_def)
  have ub: "unat ?b = 2 * n" using v(2) by (simp only: unat_of_nat_byte) simp
  have ub2: "unat ?b = 2 * unat (meta_get (rrq_count rq))" using ub by (simp only: n_def)
  have "rrs_request ?rs = calc_length 4 rq" by (simp add: read_registers_body_def)
  then have rq: "rrq_count (rrs_request ?rs) = rrq_count rq" by simp
  have v': "num_regs_validate False (meta_get (rrq_count (rrs_request ?rs)))"
    unfolding rq by (rule v(1))
  have l: "length ?vs = unat (meta_get (rrq_count (rrs_request ?rs)))"
    unfolding rq by (simp add: n_def)
  have ub': "unat ?b = 2 * unat (meta_get (rrq_count (rrs_request ?rs)))"
    unfolding rq by (rule ub2)
  note d = read_registers_decode_passed_reply [OF assms(1) v' l ub' refl, unfolded rq,
      folded n_def]
  note spec = sent_read_registers [OF assms(4), folded n_def]
  from read_holding_registers_client.exchange_reply [OF assms(1-3) spec,
      of "read_registers_decode_passed P"]
  have "fst X = caught_object_of (read_registers_decode_passed P ?p ?rs)"
    by (auto simp: X_def)
  then show ?thesis unfolding d by (simp add: caught_object_of_def)
qed

theorem read_holding_registers_exchange_witness:
  "\<exists>rs. fst (exchange (read_registers_encode (sample_platform True))
      (make_read_registers_response (sample_platform True) read_holding_registers)
      (read_registers_decode_passed (sample_platform True)) (sample_platform True)
      (make_read_registers_request read_holding_registers (Metadata 16) (Metadata 3))
      sample_table) = Ok rs \<and> rrs_registers rs = [7, 7, 7]"
proof -
  let ?rq = "make_read_registers_request read_holding_registers (Metadata 16) (Metadata 3)"
  have r: "ready read_holding_registers ?rq"
    and c: "range_ok (holding_registers sample_table) (rrq_address ?rq) (rrq_count ?rq) 125"
    and f: "cell_list (block_cells (holding_registers sample_table))
        (unat (meta_get (rrq_address ?rq))) (unat (meta_get (rrq_count ?rq))) = [7, 7, 7]"
      "unat (meta_get (rrq_count ?rq)) = 3"
    by code_simp+
  from read_holding_registers_exchange [OF sample_platform_ok [of True] sample_table_inv r c]
  show ?thesis unfolding f(1) unfolding f(2) by simp
qed

text \<open>
  C26: reading coils never works end to end: for every number of coils that the server
  answers, the client's decoder throws \<open>bad_data\<close> on the right reply, because it compares the
  byte count of the reply with the number of coils.
\<close>

theorem read_coils_exchange_rejects:
  assumes "platform_ok P" "table_inv T" "ready read_coils rq"
    and "range_ok (coils T) (rbq_address rq) (rbq_count rq) 2000"
  shows "fst (exchange (read_bits_encode P) (make_read_bits_response P read_coils)
      (read_bits_decode_passed P) P rq T) = Throw (Internal bad_data)"
proof -
  let ?n = "unat (meta_get (rbq_count rq))"
  let ?vs = "cell_list (block_cells (coils T)) (unat (meta_get (rbq_address rq))) ?n"
  let ?b = "word_of_nat ((?n + 7) div 8) :: byte"
  let ?p = "read_coils_client.replied rq (?b # pack_bits_chunks ?vs)"
  let ?rs = "take_header ?p (read_coils_client.expects P rq)"
  have n: "1 \<le> ?n" "?n \<le> 2000" using assms(4) by (simp_all add: range_ok_def)
  then have "(?n + 7) div 8 < 256" by linarith
  then have ub: "unat ?b = (?n + 7) div 8" by (simp only: unat_of_nat_byte) simp
  have "rbs_request ?rs = calc_length 4 rq" by (simp add: read_bits_body_def)
  then have rq: "rbq_count (rbs_request ?rs) = rbq_count rq" by simp
  have "fst (read_bits_decode_passed P ?p ?rs) = Throw (Internal bad_data)"
    by (rule read_bits_decode_passed_reply [where bits = ?vs and b = ?b])
      (simp_all only: rq n ub length_cell_list pack_bits_eq_chunks)
  from read_coils_client.exchange_rejected [where dp = "read_bits_decode_passed P",
      OF assms(1-3) sent_read_bits [OF assms(4)] this]
  show ?thesis by auto
qed

theorem read_coils_exchange_rejects_witness:
  "fst (exchange (read_bits_encode (sample_platform False))
     (make_read_bits_response (sample_platform False) read_coils)
     (read_bits_decode_passed (sample_platform False)) (sample_platform False)
     (make_read_bits_request read_coils (Metadata 16) (Metadata 3)) sample_table) =
   Throw (Internal bad_data)"
proof -
  let ?rq = "make_read_bits_request read_coils (Metadata 16) (Metadata 3)"
  have r: "ready read_coils ?rq"
    and c: "range_ok (coils sample_table) (rbq_address ?rq) (rbq_count ?rq) 2000"
    by code_simp+
  show ?thesis
    by (rule read_coils_exchange_rejects [OF sample_platform_ok sample_table_inv r c])
qed

text \<open>
  C27: writing a coil works end to end exactly when it changes nothing: the client accepts the
  reply if the coil already had the value of the request, and throws \<open>bad_data\<close> otherwise,
  although the coil has been written.
\<close>

theorem write_single_coil_exchange:
  assumes "platform_ok P" "table_inv T" "ready write_single_coil rq" "coil_value_ok rq"
    and "block_cells (coils T) (unat (meta_get (wcq_address rq))) = Some old"
  defines "X \<equiv> exchange (write_single_coil_encode P) (make_write_single_coil_response P)
      (write_single_coil_decode_passed P) P rq T"
  shows "(if old = (wcq_value rq = bits_on) then \<exists>rs. fst X = Ok rs
      else fst X = Throw (Internal bad_data)) \<and>
    block_cells (coils (snd X)) (unat (meta_get (wcq_address rq))) =
      Some (wcq_value rq = bits_on)"
proof -
  let ?r = "u16_bytes (meta_get (wcq_address rq)) @ u16_bytes (if old then 0xFF00 else 0)"
  let ?p = "write_single_coil_client.replied rq ?r"
  define d where "d = write_single_coil_decode_passed P ?p
      (take_header ?p (write_single_coil_client.expects P rq))"
  from write_single_coil_client.exchange_reply [OF assms(1,2) conjI [OF assms(3,4)]
      sent_write_single_coil [OF assms(5,4)], of "write_single_coil_decode_passed P"]
  have X: "fst X = caught_object_of d" "table_image (snd X) = (table_image T)\<lparr>im_coils :=
      put_cells (im_coils (table_image T)) (unat (meta_get (wcq_address rq)))
        [wcq_value rq = bits_on]\<rparr>"
    by (auto simp: X_def d_def)
  have c: "check_bits_value (if old then 0xFF00 else 0)" by (simp add: check_bits_value_def)
  have "bits_underlying (wcq_value rq) = (if old then 0xFF00 else 0) \<longleftrightarrow>
      old = (wcq_value rq = bits_on)"
    using assms(4) by (auto simp: coil_value_ok_def)
  then have "fst d = (if old = (wcq_value rq = bits_on) then Ok () else Throw (Internal bad_data))"
    using c
    by (simp add: d_def write_single_coil_decode_passed_eq [OF assms(1)] exchange_simps)
  moreover have "im_coils (table_image (snd X)) (unat (meta_get (wcq_address rq))) =
      Some (wcq_value rq = bits_on)"
    unfolding X(2) by (simp add: put_cells_def)
  ultimately show ?thesis by (simp add: X(1) caught_object_of_def)
qed

theorem write_single_coil_exchange_witness:
  "fst (exchange (write_single_coil_encode (sample_platform True))
     (make_write_single_coil_response (sample_platform True))
     (write_single_coil_decode_passed (sample_platform True)) (sample_platform True)
     (make_write_single_coil_request (Metadata 16) bits_off) sample_table) =
   Throw (Internal bad_data)"
proof -
  let ?rq = "make_write_single_coil_request (Metadata 16) bits_off"
  have r: "ready write_single_coil ?rq" "coil_value_ok ?rq"
    and c: "block_cells (coils sample_table) (unat (meta_get (wcq_address ?rq))) = Some True"
    and f: "wcq_value ?rq = bits_off"
    by code_simp+
  from write_single_coil_exchange [OF sample_platform_ok [of True] sample_table_inv r c]
  show ?thesis unfolding f by simp
qed

section \<open>Exception replies\<close>

text \<open>The server's reply to what \<open>enc\<close> sends is an exception: its function byte has the top bit.\<close>

definition exception_answer ::
    "platform \<Rightarrow> table \<Rightarrow> ('q, exn, packet_t) act \<Rightarrow> 'q \<Rightarrow> bool" where
  "exception_answer P T enc rq \<longleftrightarrow>
     (case enc rq of
        (Ok packet, _) \<Rightarrow>
          (case handle P packet T of
             (Ok reply, _) \<Rightarrow> 8 < length reply \<and> 0x80 \<le> reply ! 7
           | _ \<Rightarrow> False)
      | _ \<Rightarrow> False)"

lemma exception_sliced:
  assumes P: "platform_ok P" and T: "table_inv T" and a: "exception_answer P T enc rq"
    and r: "ready f rq"
    and enc: "\<And>p rq'. enc rq = (Ok p, rq') \<Longrightarrow> (\<exists>body n.
      p = adu_packet (adu_transaction rq) (adu_unit rq) (function_underlying f) body \<and>
      rq' = calc_length n rq)"
    and mk: "\<And>n. req_header (mk (calc_length n rq)) = adu_header (calc_length n rq)"
      "\<And>n. adu_function (mk (calc_length n rq)) = f"
    and f: "check_function (function_underlying f)"
  shows "exchange enc mk dp P rq T = (Throw Std_exception, T)"
proof -
  let ?p = "\<lambda>body. adu_packet (adu_transaction rq) (adu_unit rq) (function_underlying f) body"
  obtain p rq' where "enc rq = (Ok p, rq')"
    using a by (auto simp: exception_answer_def split: prod.splits outcome.splits)
  with enc obtain body n where e: "enc rq = (Ok (?p body), calc_length n rq)" by blast
  have low: "\<not> 0x80 \<le> function_underlying f"
    using f by (simp add: check_function_def word_less_nat_alt word_le_nat_alt)
  have hd: "hd_transaction (req_header (mk (calc_length n rq))) = adu_transaction rq"
    "hd_unit (req_header (mk (calc_length n rq))) = adu_unit rq"
    by (simp_all add: mk adu_header_def)
  show ?thesis
  proof (cases rule: handle_cases [OF P T, of "?p body", case_names short reply failure overread])
    case (reply rbody T')
    with a e low show ?thesis by (simp add: exception_answer_def)
  next
    case (failure ec)
    have h: "handle P (?p body) T = (Ok (adu_packet (adu_transaction rq) (adu_unit rq)
        (function_underlying f + 0x80) [exception_underlying ec]), T)"
      using failure(3) f by (simp add: error_function_byte_def)
    from decode_exception [OF P hd, of dp "exception_underlying ec"] f
    show ?thesis by (simp add: exchange_def e h mk object_of_def)
  qed (use a e in \<open>simp_all add: exception_answer_def\<close>)
qed

text \<open>
  C28: a Modbus exception never reaches the client as one. For each of the ten functions and every
  request and table, whenever the server answers the request with an exception reply, the
  client's \<open>decode\<close> throws a bare \<open>std::exception\<close>, the sliced return value of
  \<open>generate_exception\<close>, whatever the code of the reply; and the table is as it was.
\<close>

theorem exceptions_sliced:
  assumes "platform_ok P" "table_inv T"
  shows "(f \<in> {read_coils, read_discrete_inputs} \<and> ready f rb \<and>
      exception_answer P T (read_bits_encode P) rb \<longrightarrow>
      exchange (read_bits_encode P) (make_read_bits_response P f) (read_bits_decode_passed P)
        P rb T = (Throw Std_exception, T)) \<and>
    (g \<in> {read_holding_registers, read_input_registers} \<and> ready g rr \<and>
      exception_answer P T (read_registers_encode P) rr \<longrightarrow>
      exchange (read_registers_encode P) (make_read_registers_response P g)
        (read_registers_decode_passed P) P rr T = (Throw Std_exception, T)) \<and>
    (ready write_single_coil wc \<and> exception_answer P T (write_single_coil_encode P) wc \<longrightarrow>
      exchange (write_single_coil_encode P) (make_write_single_coil_response P)
        (write_single_coil_decode_passed P) P wc T = (Throw Std_exception, T)) \<and>
    (ready write_single_register wr \<and>
      exception_answer P T (write_single_register_encode P) wr \<longrightarrow>
      exchange (write_single_register_encode P) make_write_single_register_response
        (write_single_register_decode_passed P) P wr T = (Throw Std_exception, T)) \<and>
    (ready write_multiple_coils wmc \<and>
      exception_answer P T (write_multiple_coils_encode P) wmc \<longrightarrow>
      exchange (write_multiple_coils_encode P) make_write_multiple_coils_response
        (write_multiple_coils_decode_passed P) P wmc T = (Throw Std_exception, T)) \<and>
    (ready write_multiple_registers wmr \<and>
      exception_answer P T (write_multiple_registers_encode P) wmr \<longrightarrow>
      exchange (write_multiple_registers_encode P) make_write_multiple_registers_response
        (write_multiple_registers_decode_passed P) P wmr T = (Throw Std_exception, T)) \<and>
    (ready mask_write_register mw \<and>
      exception_answer P T (mask_write_register_encode P) mw \<longrightarrow>
      exchange (mask_write_register_encode P) make_mask_write_register_response
        (mask_write_register_decode_passed P) P mw T = (Throw Std_exception, T)) \<and>
    (ready read_write_multiple_registers rw \<and>
      exception_answer P T (read_write_multiple_registers_encode P) rw \<longrightarrow>
      exchange (read_write_multiple_registers_encode P)
        make_read_write_multiple_registers_response
        (read_write_multiple_registers_decode_passed P) P rw T = (Throw Std_exception, T))"
proof (intro conjI impI; elim conjE)
qed (rule exception_sliced [OF assms], assumption, assumption,
    (auto simp: ready_def read_bits_encode_eq [OF assms(1)] read_registers_encode_eq [OF assms(1)]
      write_single_coil_encode_eq [OF assms(1)] write_single_register_encode_eq [OF assms(1)]
      mask_write_register_encode_eq [OF assms(1)] encodes_if [OF assms(1), unfolded ready_def]
      split: if_splits)[4])+

theorem exceptions_sliced_witness:
  "fst (exchange (read_bits_encode (sample_platform True))
     (make_read_bits_response (sample_platform True) read_coils)
     (read_bits_decode_passed (sample_platform True)) (sample_platform True)
     (make_read_bits_request read_coils (Metadata 99) (Metadata 1)) sample_table) =
   Throw Std_exception \<and>
   fst (exchange (mask_write_register_encode (sample_platform True))
     make_mask_write_register_response
     (mask_write_register_decode_passed (sample_platform True)) (sample_platform True)
     (make_mask_write_register_request (Metadata 99) (Metadata 5) (Metadata 8)) sample_table) =
   Throw Std_exception"
proof -
  let ?rb = "make_read_bits_request read_coils (Metadata 99) (Metadata 1)"
  let ?mw = "make_mask_write_register_request (Metadata 99) (Metadata 5) (Metadata 8)"
  have "ready read_coils ?rb"
    "exception_answer (sample_platform True) sample_table (read_bits_encode (sample_platform True)) ?rb"
    "ready mask_write_register ?mw"
    "exception_answer (sample_platform True) sample_table
      (mask_write_register_encode (sample_platform True)) ?mw"
    by code_simp+
  with exceptions_sliced [OF sample_platform_ok [of True] sample_table_inv, of read_coils ?rb
      _ _ _ _ _ _ ?mw]
  show ?thesis by auto
qed

end
