(* ===== verification/Modbus_Utilities.thy ===== *)
theory Modbus_Utilities
  imports Modbus_Adu
begin

text \<open>
  \<open>utilities.hpp\<close>: reading an integer at a position of a packet, and the text form of a
  packet. (\<open>to_underlying\<close> is the \<open>\<dots>_underlying\<close> functions of the enumerations.)
\<close>

section \<open>Reading an integer\<close>

text \<open>
  The branches of the template \<open>unpack\<close>. The guard of the wider ones divides the width of the
  integer by \<open>sizeof(packet_t::size_type)\<close>, here \<open>sz\<close>, which is 8 on a 64-bit and 4 on a
  32-bit target; the read is of the bytes themselves.
\<close>

definition unpack_char :: "packet_t \<Rightarrow> nat \<Rightarrow> (exn, byte) outcome" where
  "unpack_char packet start_index =
     (if start_index < length packet then Ok (packet ! start_index) else Undefined)"

definition unpack_u16 :: "nat \<Rightarrow> packet_t \<Rightarrow> nat \<Rightarrow> (exn, u16) outcome" where
  "unpack_u16 sz packet start_index =
     (if length packet \<le> start_index + 2 div sz then Throw Std_out_of_range
      else if start_index + 2 \<le> length packet then Ok (packet_u16 packet start_index)
      else Undefined)"

definition unpack_u32 :: "nat \<Rightarrow> packet_t \<Rightarrow> nat \<Rightarrow> (exn, 32 word) outcome" where
  "unpack_u32 sz packet start_index =
     (if length packet \<le> start_index + 4 div sz then Throw Std_out_of_range
      else if start_index + 4 \<le> length packet
      then Ok (word_rcat (slice start_index 4 packet))
      else Undefined)"

text \<open>Every other integral type: \<open>return 0;\<close>\<close>

definition unpack_other :: "(exn, 'w::len word) outcome" where
  "unpack_other = Ok 0"

text \<open>
  On a target where the size type is at least as wide as the integer is long, the guard lets
  reads through that run past the end.
\<close>

lemma unpack_u16_undefined_iff:
  "2 < sz \<Longrightarrow> unpack_u16 sz p i = Undefined \<longleftrightarrow> length p = i + 1"
  by (auto simp: unpack_u16_def)

lemma unpack_u32_undefined_iff:
  "4 < sz \<Longrightarrow> unpack_u32 sz p i = Undefined \<longleftrightarrow> i < length p \<and> length p < i + 4"
  by (auto simp: unpack_u32_def)

lemma unpack_inside:
  "0 < sz \<Longrightarrow> i + 2 \<le> length p \<Longrightarrow> 2 div sz < 2 \<Longrightarrow> unpack_u16 sz p i = Ok (packet_u16 p i)"
  "0 < sz \<Longrightarrow> i + 4 \<le> length p \<Longrightarrow> 4 div sz < 4 \<Longrightarrow>
     unpack_u32 sz p i = Ok (word_rcat (slice i 4 p))"
  by (auto simp: unpack_u16_def unpack_u32_def)

section \<open>The text form of a packet\<close>

text \<open>
  The loop of \<open>packet_str\<close>; \<open>fmt_byte\<close> is \<open>fmt::format("{:#04x}", _)\<close> of the formatting
  library, and \<open>n\<close> is \<open>packet.size()\<close>.
\<close>

primrec packet_str_loop ::
    "(byte \<Rightarrow> string) \<Rightarrow> nat \<Rightarrow> packet_t \<Rightarrow> nat \<Rightarrow> string \<Rightarrow> string" where
  "packet_str_loop fmt_byte n [] index s = s"
| "packet_str_loop fmt_byte n (b # bs) index s =
     (let index = index + 1
      in if index < n then packet_str_loop fmt_byte n bs index (s @ fmt_byte b @ '' '')
         else packet_str_loop fmt_byte n bs index (s @ fmt_byte b))"

definition packet_str :: "(byte \<Rightarrow> string) \<Rightarrow> packet_t \<Rightarrow> string" where
  "packet_str fmt_byte packet =
     packet_str_loop fmt_byte (length packet) packet 0 ''['' @ '']''"

text \<open>The bytes, separated by single spaces.\<close>

fun spaced :: "string list \<Rightarrow> string" where
  "spaced [] = []"
| "spaced [w] = w"
| "spaced (w # ws) = w @ '' '' @ spaced ws"

lemma packet_str_loop_eq:
  "n = i + length bs \<Longrightarrow> packet_str_loop f n bs i s = s @ spaced (map f bs)"
proof (induction bs arbitrary: i s)
  case (Cons b bs)
  show ?case
  proof (cases bs)
    case Nil
    with Cons.prems show ?thesis by simp
  next
    case (Cons c cs)
    with Cons.IH [of "i + 1" "s @ f b @ '' ''"] Cons.prems show ?thesis by simp
  qed
qed simp

lemma packet_str_eq: "packet_str f p = ''['' @ spaced (map f p) @ '']''"
  by (simp add: packet_str_def packet_str_loop_eq)

end
