(* ===== verification/Modbus_Component_Facts.thy ===== *)
theory Modbus_Component_Facts
  imports Modbus_Exchange Modbus_Utilities
begin

text \<open>
  Properties of single components, outside the path from a packet to its reply: what a client
  can rely on for arbitrary bytes, the limits of the coil request, the codecs as round trips,
  the bit packing, the blocks and the default table, and two guards that do not guard.
\<close>

section \<open>The client on arbitrary bytes\<close>

text \<open>The outcomes of a \<open>decode_passed\<close> that neither over-reads nor lets an exception out.\<close>

definition accepts_or_rejects :: "(packet_t \<Rightarrow> ('r, exn, unit) act) \<Rightarrow> packet_t \<Rightarrow> bool" where
  "accepts_or_rejects dp p \<longleftrightarrow> (\<forall>r. fst (dp p r) \<in> {Ok (), Throw (Internal bad_data)})"

lemma response_decode_settled:
  assumes "platform_ok P" "8 \<le> length p \<Longrightarrow> accepts_or_rejects dp p"
  shows "fst (response_decode P dp p r) \<in> {Ok (), Throw (Internal bad_data), Throw Std_exception}"
proof (cases "packet_stage (req_header r) (adu_function r) p")
  case stage_passed
  then have "8 \<le> length p" by (auto simp: packet_stage_def header_matches_def split: if_splits)
  with assms(2) have "fst (dp p (take_header p r)) \<in> {Ok (), Throw (Internal bad_data)}"
    by (simp add: accepts_or_rejects_def)
  then show ?thesis
    by (auto simp: response_decode_eq [OF assms(1)] stage_passed split: prod.split outcome.split)
qed (simp_all add: response_decode_eq [OF assms(1)])

lemma read_bits_accepts_or_rejects: "accepts_or_rejects (read_bits_decode_passed P) p"
proof -
  have "read_bits_response_size rq = 9 + unat (read_bits_byte_count rq)" for rq
  proof -
    have "unat (read_bits_byte_count rq) < 8193"
      using unat_u16_less [of "meta_get (rbq_count rq)"]
      by (simp add: unat_read_bits_byte_count del: unat_u16_less)
    then show ?thesis
      by (simp add: read_bits_response_size_def unat_calc_adu_length unat_add_u16)
  qed
  then show ?thesis
    by (auto simp: accepts_or_rejects_def read_bits_decode_passed_def act_simps header_length_def
        Let_def)
qed


lemma even_mod: "even (2 * k mod 65536 :: nat)"
  by (rule dvd_mod) simp_all

lemma unat_read_registers_byte_count_mod:
  "unat (read_registers_byte_count rq) = 2 * unat (meta_get (rrq_count rq)) mod 65536"
  by (simp add: read_registers_byte_count_def unat_word_ariths mult.commute)

lemma read_registers_size_cases:
  "read_registers_response_size rq = 9 + unat (read_registers_byte_count rq) \<or>
   read_registers_response_size rq < 8"
proof -
  define n where "n = unat (read_registers_byte_count rq)"
  have "even n" "n < 65536"
    using even_mod [of "unat (meta_get (rrq_count rq))"]
    by (simp_all add: n_def unat_read_registers_byte_count_mod)
  then have n: "n \<le> 65534" by presburger
  have e: "read_registers_response_size rq = (9 + n) mod 65536"
    by (simp add: read_registers_response_size_def calc_adu_length_def header_length_def
        unat_word_ariths n_def [symmetric])
  show ?thesis
  proof (cases "9 + n < 65536")
    case True
    with e show ?thesis by (simp add: n_def)
  next
    case False
    then have "(9 + n) mod 65536 = 9 + n - 65536" using n by (simp add: le_mod_geq)
    with e have "read_registers_response_size rq < 8" using n by linarith
    then show ?thesis by simp
  qed
qed

lemma read_registers_accepts_or_rejects:
  assumes "platform_ok P" "8 \<le> length p"
  shows "accepts_or_rejects (read_registers_decode_passed P) p"
proof -
  have "fst (read_registers_decode_passed P p r) \<in> {Ok (), Throw (Internal bad_data)}" for r
  proof (cases "length p = read_registers_response_size (rrs_request r)")
    case True
    define n where "n = unat (read_registers_byte_count (rrs_request r))"
    with True assms(2) read_registers_size_cases [of "rrs_request r"]
    have len: "length p = 9 + n" by auto
    have "even n"
      by (simp add: n_def unat_read_registers_byte_count_mod even_mod)
    then obtain k where k: "n = 2 * k" by blast
    have "unpack_registers P p 9 n 0 [] s = (Ok (packet_registers p 9 k), s)"
      for s :: read_registers_response
      by (simp add: k unpack_registers_eq [OF assms(1)] len)
    with len show ?thesis
      by (auto simp: read_registers_decode_passed_def act_simps header_length_def Let_def
          n_def [symmetric] True [symmetric])
  qed (simp add: read_registers_decode_passed_def act_simps)
  then show ?thesis by (simp add: accepts_or_rejects_def)
qed

lemma read_write_accepts_or_rejects:
  assumes "platform_ok P"
  shows "accepts_or_rejects (read_write_multiple_registers_decode_passed P) p"
proof -
  have "fst (read_write_multiple_registers_decode_passed P p r) \<in> {Ok (), Throw (Internal bad_data)}"
    for r
  proof (cases "length p = read_write_response_size (rws_request r)")
    case True
    define b where "b = registers_byte_count (rwq_read_count (rws_request r))"
    have "unat (1 + ucast b :: u16) = 1 + unat b"
      using unat_byte_less [of b] by (subst unat_add_u16; simp del: unat_byte_less)
    then have len: "length p = 9 + unat b"
      using True unat_byte_less [of b]
      by (simp add: read_write_response_size_def b_def [symmetric] unat_calc_adu_length
          del: unat_byte_less)
    obtain k where k: "unat b = 2 * k"
      using registers_byte_count_even unfolding b_def by blast
    have "unpack_registers P p 9 (unat b) 0 [] s = (Ok (packet_registers p 9 k), s)"
      for s :: read_write_multiple_registers_response
      by (simp add: k unpack_registers_eq [OF assms(1)] len)
    with len show ?thesis
      by (auto simp: read_write_multiple_registers_decode_passed_def act_simps header_length_def
          Let_def b_def [symmetric] True [symmetric])
  qed (simp add: read_write_multiple_registers_decode_passed_def act_simps)
  then show ?thesis by (simp add: accepts_or_rejects_def)
qed


text \<open>The other decoders read two or three numbers after they have checked the size.\<close>

lemma write_accepts_or_rejects:
  assumes "platform_ok P"
  shows "accepts_or_rejects (write_single_coil_decode_passed P) p"
    "accepts_or_rejects (write_single_register_decode_passed P) p"
    "accepts_or_rejects (write_multiple_coils_decode_passed P) p"
    "accepts_or_rejects (write_multiple_registers_decode_passed P) p"
    "accepts_or_rejects (mask_write_register_decode_passed P) p"
  by (simp_all add: accepts_or_rejects_def write_single_coil_decode_passed_eq [OF assms]
      write_single_register_decode_passed_eq [OF assms]
      write_multiple_coils_decode_passed_eq [OF assms]
      write_multiple_registers_decode_passed_eq [OF assms]
      mask_write_register_decode_passed_eq [OF assms])

definition client_outcomes :: "(exn, unit) outcome set" where
  "client_outcomes = {Ok (), Throw (Internal bad_data), Throw Std_exception}"

lemma error_decode_fst:
  assumes "platform_ok P"
  shows "fst (error_decode P p e) =
    (if length p \<noteq> 9 then Throw (Internal bad_data)
     else if 1 < struc_extent P (CHR ''>'' # ''BB'') 1 then Undefined
     else if check_exception (word_of_nat (struc_unpack P (CHR ''>'' # ''BB'') 1 (drop 8 p) ! 0))
     then Ok () else Throw (Internal bad_exception))"
  using assms
  by (simp add: error_decode_def act_simps codec_simps unat_calc_adu_length header_length_def
      unpack_def Let_def)

text \<open>
  C29: a client is safe against any bytes: for each of the response classes of the ten functions,
  every response object and every packet, \<open>decode\<close> returns, throws \<open>bad_data\<close>, or throws a bare
  \<open>std::exception\<close>; it never reads past the end of the packet. The one other response class,
  \<open>response::error\<close>, which the library never decodes, is not: its \<open>decode\<close> refuses packets of any
  size but nine, and then hands the last byte to the library with a format of two fields and one
  output; if that reads more than one byte, it reads past the end of the packet, and otherwise
  the value read is accepted as a code or refused with \<open>bad_exception\<close>.
\<close>

theorem client_decode_safe:
  assumes "platform_ok P"
  shows "fst (response_decode P (read_bits_decode_passed P) p r1) \<in> client_outcomes \<and>
    fst (response_decode P (read_registers_decode_passed P) p r2) \<in> client_outcomes \<and>
    fst (response_decode P (write_single_coil_decode_passed P) p r3) \<in> client_outcomes \<and>
    fst (response_decode P (write_single_register_decode_passed P) p r4) \<in> client_outcomes \<and>
    fst (response_decode P (write_multiple_coils_decode_passed P) p r5) \<in> client_outcomes \<and>
    fst (response_decode P (write_multiple_registers_decode_passed P) p r6) \<in> client_outcomes \<and>
    fst (response_decode P (mask_write_register_decode_passed P) p r7) \<in> client_outcomes \<and>
    fst (response_decode P (read_write_multiple_registers_decode_passed P) p r8) \<in> client_outcomes \<and>
    fst (error_decode P p e) =
      (if length p \<noteq> 9 then Throw (Internal bad_data)
       else if 1 < struc_extent P (CHR ''>'' # ''BB'') 1 then Undefined
       else if check_exception (word_of_nat (struc_unpack P (CHR ''>'' # ''BB'') 1 (drop 8 p) ! 0))
       then Ok () else Throw (Internal bad_exception))"
  unfolding client_outcomes_def
  by (intro conjI response_decode_settled [OF assms] read_bits_accepts_or_rejects
      read_registers_accepts_or_rejects [OF assms] write_accepts_or_rejects [OF assms]
      read_write_accepts_or_rejects [OF assms] error_decode_fst [OF assms])

theorem client_decode_safe_witness:
  "fst (response_decode (sample_platform True) (read_bits_decode_passed (sample_platform True))
      [0, 0, 0, 0, 0, 2, 0, 1] (make_read_bits_response (sample_platform True) read_coils
         (new_read_bits_request read_coils))) \<in> client_outcomes \<and>
   fst (error_decode (sample_platform True) [0, 0, 0, 0, 0, 3, 0, 0x81, 2]
     (make_error_default (sample_platform True) illegal_function)) = Ok ()"
proof -
  let ?p = "[0, 0, 0, 0, 0, 3, 0, 0x81, 2] :: packet_t"
  have "struc_extent (sample_platform True) (CHR ''>'' # ''BB'') 1 = 1"
    "check_exception (word_of_nat
      (struc_unpack (sample_platform True) (CHR ''>'' # ''BB'') 1 (drop 8 ?p) ! 0))"
    "length ?p = 9"
    by code_simp+
  with client_decode_safe [OF sample_platform_ok [of True], of ?p]
    client_decode_safe [OF sample_platform_ok [of True], of "[0, 0, 0, 0, 0, 2, 0, 1]"]
  show ?thesis by simp
qed

section \<open>Writing coils\<close>

lemma sent_write_multiple_coils:
  assumes "coils_sendable rq" "range_ok (coils T) (wmcq_address rq) (wmcq_count rq) 1968"
  shows "spec_request (write_multiple_coils_client.sent rq) (table_image T) =
    Reply (u16_bytes (meta_get (wmcq_address rq)) @ u16_bytes (meta_get (wmcq_count rq)))
      ((table_image T)\<lparr>im_coils :=
         put_cells (im_coils (table_image T)) (unat (meta_get (wmcq_address rq)))
           (wmcq_values rq)\<rparr>)"
proof -
  let ?p = "write_multiple_coils_client.sent rq" and ?n = "unat (meta_get (wmcq_count rq))"
  have n: "length (wmcq_values rq) = ?n" "?n \<le> 1968" "1 \<le> ?n"
    "all_cells (block_cells (coils T)) (unat (meta_get (wmcq_address rq))) ?n"
    using assms by (simp_all add: coils_sendable_def range_ok_def)
  have "?p ! 7 = 0x0F" "packet_u16 ?p 8 = meta_get (wmcq_address rq)"
    "packet_u16 ?p 10 = meta_get (wmcq_count rq)"
    "13 \<le> length ?p"
    by (simp_all add: body_simps write_multiple_coils_body_def)
  moreover have "drop 13 ?p = pack_bits (wmcq_values rq)"
    by (simp add: adu_packet_def Let_def write_multiple_coils_body_def)
  moreover have "vector_resize False ?n (unpack_bits (pack_bits (wmcq_values rq))) =
      wmcq_values rq"
    using resize_unpack_pack [of "wmcq_values rq"] by (simp only: n(1))
  ultimately show ?thesis using n
    by (simp add: spec_request_def spec_write_multiple_coils_def Let_def)
qed

text \<open>
  C30: writing several coils works end to end for up to 255 coils: for a request the client
  can encode and a range of the table, the reply is accepted and the range holds the values.
\<close>

theorem write_multiple_coils_exchange:
  assumes "platform_ok P" "table_inv T" "coils_sendable rq"
    and "range_ok (coils T) (wmcq_address rq) (wmcq_count rq) 1968"
  shows "\<exists>rs T'. exchange (write_multiple_coils_encode P)
      make_write_multiple_coils_response (write_multiple_coils_decode_passed P) P rq T =
      (Ok rs, T') \<and>
    cell_list (block_cells (coils T')) (unat (meta_get (wmcq_address rq)))
      (unat (meta_get (wmcq_count rq))) = wmcq_values rq"
proof -
  let ?r = "u16_bytes (meta_get (wmcq_address rq)) @ u16_bytes (meta_get (wmcq_count rq))"
  let ?p = "write_multiple_coils_client.replied rq ?r"
  let ?d = "write_multiple_coils_decode_passed P ?p
    (take_header ?p (write_multiple_coils_client.expects P rq))"
  have "fst ?d = Ok ()"
    by (simp add: write_multiple_coils_decode_passed_eq [OF assms(1)] exchange_simps)
  then have "?d = (Ok (), snd ?d)" by (simp add: prod_eq_iff)
  from write_multiple_coils_client.exchange_accepted [where
      dp = "write_multiple_coils_decode_passed P", OF assms(1-3)
      sent_write_multiple_coils [OF assms(3,4)] this]
  obtain T' where e: "exchange (write_multiple_coils_encode P)
      make_write_multiple_coils_response (write_multiple_coils_decode_passed P) P rq T =
      (Ok (snd ?d), T')"
    and im: "table_image T' = (table_image T)\<lparr>im_coils :=
      put_cells (im_coils (table_image T)) (unat (meta_get (wmcq_address rq)))
        (wmcq_values rq)\<rparr>"
    by blast
  have "length (wmcq_values rq) = unat (meta_get (wmcq_count rq))"
    using assms(3) by (simp add: coils_sendable_def)
  then have "cell_list (im_coils (table_image T'))
      (unat (meta_get (wmcq_address rq))) (unat (meta_get (wmcq_count rq))) = wmcq_values rq"
    using cell_list_put_same [of _ _ "wmcq_values rq"] by (simp add: im)
  with e show ?thesis by auto
qed

theorem write_multiple_coils_exchange_witness:
  "cell_list (block_cells (coils (snd (exchange
      (write_multiple_coils_encode (sample_platform True))
      make_write_multiple_coils_response
      (write_multiple_coils_decode_passed (sample_platform True)) (sample_platform True)
      (make_write_multiple_coils_request (Metadata 17) (Metadata 3) [False, True, False])
      sample_table)))) 17 3 = [False, True, False]"
proof -
  let ?rq = "make_write_multiple_coils_request (Metadata 17) (Metadata 3) [False, True, False]"
  have r: "coils_sendable ?rq" by code_simp
  have c: "range_ok (coils sample_table) (wmcq_address ?rq) (wmcq_count ?rq) 1968" by code_simp
  have "unat (meta_get (wmcq_address ?rq)) = 17" "unat (meta_get (wmcq_count ?rq)) = 3"
    "wmcq_values ?rq = [False, True, False]"
    by code_simp+
  with write_multiple_coils_exchange [OF sample_platform_ok [of True] sample_table_inv r c]
  show ?thesis by auto
qed

section \<open>The limits of the coil request\<close>

lemma coils_bytes_agree:
  "(n + 7) div 8 = (n mod 256 + 7) div 8 \<longleftrightarrow> n < (256 :: nat)"
proof -
  define q r where "q = n div 256" and "r = n mod 256"
  then have "n + 7 = (r + 7) + 8 * (32 * q)" by simp
  then have "(n + 7) div 8 = 32 * q + (r + 7) div 8"
    by (simp only: div_mult_self2)
  moreover have "q = 0 \<longleftrightarrow> n < 256" by (simp add: q_def div_eq_0_iff)
  ultimately show ?thesis by (simp add: r_def)
qed

text \<open>
  C31: a client cannot write 256 or more coils in one request, although the protocol and this
  library's own limit allow 1968: \<open>encode\<close> computes the byte count from the low eight bits of
  the number of coils, finds that the packet has another size, and throws \<open>bad_data\<close>. For
  fewer coils it sends the packet.
\<close>

theorem write_multiple_coils_too_many:
  assumes "platform_ok P" "length values = unat (meta_get count)"
  shows "fst (write_multiple_coils_encode P (make_write_multiple_coils_request a count values)) =
    (if length values < 256
     then Ok (adu_packet 0 0 0x0F (u16_bytes (meta_get a) @ u16_bytes (meta_get count) @
            [word_of_nat ((length values + 7) div 8)] @ pack_bits values))
     else Throw (Internal bad_data))"
proof -
  let ?rq = "make_write_multiple_coils_request a count values"
  have f: "wmcq_address ?rq = a" "wmcq_count ?rq = count" "wmcq_values ?rq = values"
    "wmcq_byte_count ?rq = coils_byte_count count" "adu_transaction ?rq = 0" "adu_unit ?rq = 0"
    "ready write_multiple_coils ?rq"
    by (simp_all add: make_write_multiple_coils_request_def adu.extend_def
        write_multiple_coils_request.fields_def adu_of_function_def ready_def)
  show ?thesis
  proof (cases "length values < 256")
    case True
    then have s: "coils_sendable ?rq" using f assms(2) by (simp add: coils_sendable_def)
    have "(length values + 7) div 8 = unat (coils_byte_count count)"
      using True assms(2) by (simp add: unat_coils_byte_count)
    then have "coils_byte_count count = word_of_nat ((length values + 7) div 8)" by simp
    with True write_multiple_coils_codec.encodes [OF assms(1) s] f show ?thesis
      by (simp add: write_multiple_coils_body_def)
  next
    case False
    with assms(2) coils_bytes_agree [of "length values"] f show ?thesis
      by (simp add: write_multiple_coils_encode_eq [OF assms(1)] unat_coils_byte_count)
  qed
qed

theorem write_multiple_coils_too_many_witness:
  "fst (write_multiple_coils_encode (sample_platform True)
      (make_write_multiple_coils_request (Metadata 0) (Metadata 256) (replicate 256 True))) =
     Throw (Internal bad_data)"
  using write_multiple_coils_too_many [OF sample_platform_ok, of "replicate 256 True" "Metadata 256"]
  by simp

section \<open>Codecs\<close>

text \<open>
  C32: what a client encodes, the server decodes, for all ten request classes and every request
  with the function of its class: the decoded request has the addresses, the count and the values
  of the client's, and its transaction and unit. The list of values of the three requests that
  carry one arrives resized to the count, so unchanged exactly when it has that many values;
  their \<open>encode\<close> accepts a list if its size agrees with the byte count, and throws
  \<open>bad_data\<close> otherwise (3 coils with 5 values are sent, and arrive as 3 values). A coil value
  other than on and off is sent, and \<open>decode\<close> refuses it.
\<close>

theorem requests_round_trip:
  assumes "platform_ok P" "f \<in> {read_coils, read_discrete_inputs}" "ready f rb"
    and "g \<in> {read_holding_registers, read_input_registers}" "ready g rr"
    and "ready write_single_coil wc" "ready write_single_register wr"
    and "ready mask_write_register mw" "ready write_multiple_coils wmc"
    and "ready write_multiple_registers wmr" "ready read_write_multiple_registers rw"
  shows "decodes_as (read_bits_encode P) (read_bits_decode P f) (new_read_bits_request f)
      read_bits_fields rb (rbq_address rb, rbq_count rb) \<and>
    decodes_as (read_registers_encode P) (read_registers_decode P g)
      (new_read_registers_request g) read_registers_fields rr (rrq_address rr, rrq_count rr) \<and>
    decodes_as (write_single_register_encode P) (write_single_register_decode P)
      new_write_single_register_request write_single_register_fields wr
      (wrq_address wr, wrq_value wr) \<and>
    decodes_as (mask_write_register_encode P) (mask_write_register_decode P)
      new_mask_write_register_request mask_write_register_fields mw
      (mwq_address mw, mwq_and_mask mw, mwq_or_mask mw) \<and>
    (if check_bits_value (bits_underlying (wcq_value wc))
      then decodes_as (write_single_coil_encode P) (write_single_coil_decode P)
        new_write_single_coil_request write_single_coil_fields wc
        (wcq_address wc, bits_of_u16 (bits_underlying (wcq_value wc)))
      else \<exists>p wc' h. write_single_coil_encode P wc = (Ok p, wc') \<and>
        fst (write_single_coil_decode P p new_write_single_coil_request) =
          Throw (Specification server_device_failure write_single_coil h)) \<and>
    (if (length (wmcq_values wmc) + 7) div 8 = unat (wmcq_byte_count wmc)
      then decodes_as (write_multiple_coils_encode P) (write_multiple_coils_decode P)
        new_write_multiple_coils_request write_multiple_coils_fields wmc
        (wmcq_address wmc, wmcq_count wmc,
         vector_resize False (unat (meta_get (wmcq_count wmc))) (wmcq_values wmc))
      else fst (write_multiple_coils_encode P wmc) = Throw (Internal bad_data)) \<and>
    (if 2 * length (wmrq_values wmr) = unat (registers_byte_count (wmrq_count wmr))
      then decodes_as (write_multiple_registers_encode P) (write_multiple_registers_decode P)
        new_write_multiple_registers_request write_multiple_registers_fields wmr
        (wmrq_address wmr, wmrq_count wmr,
         vector_resize 0 (unat (meta_get (wmrq_count wmr))) (wmrq_values wmr))
      else fst (write_multiple_registers_encode P wmr) = Throw (Internal bad_data)) \<and>
    (if 2 * length (rwq_values rw) = unat (registers_byte_count (rwq_write_count rw))
      then decodes_as (read_write_multiple_registers_encode P)
        (read_write_multiple_registers_decode P) new_read_write_multiple_registers_request
        read_write_fields rw
        (rwq_read_address rw, rwq_read_count rw, rwq_write_address rw, rwq_write_count rw,
         vector_resize 0 (unat (meta_get (rwq_write_count rw))) (rwq_values rw))
      else fst (read_write_multiple_registers_encode P rw) = Throw (Internal bad_data))"
  by (intro conjI fixed_requests_arrive coil_arrives coils_arrive registers_arrive
      read_write_arrives assms)

theorem requests_round_trip_witness:
  "decodes_as (write_multiple_coils_encode (sample_platform True))
      (write_multiple_coils_decode (sample_platform True)) new_write_multiple_coils_request
      write_multiple_coils_fields
      (make_write_multiple_coils_request (Metadata 17) (Metadata 3)
        [True, False, True, True, False])
      (Metadata 17, Metadata 3, [True, False, True]) \<and>
    fst (write_multiple_registers_encode (sample_platform True)
      (make_write_multiple_registers_request (Metadata 17) (Metadata 1) [5, 6])) =
      Throw (Internal bad_data)"
proof -
  let ?wmc = "make_write_multiple_coils_request (Metadata 17) (Metadata 3)
    [True, False, True, True, False]"
  let ?wmr = "make_write_multiple_registers_request (Metadata 17) (Metadata 1) [5, 6]"
  have r: "ready read_coils (make_read_bits_request read_coils (Metadata 1) (Metadata 1))"
    "ready read_input_registers
      (make_read_registers_request read_input_registers (Metadata 1) (Metadata 1))"
    "ready write_single_coil (make_write_single_coil_request (Metadata 1) bits_on)"
    "ready write_single_register (make_write_single_register_request (Metadata 1) (Metadata 1))"
    "ready mask_write_register
      (make_mask_write_register_request (Metadata 1) (Metadata 1) (Metadata 1))"
    "ready write_multiple_coils ?wmc" "ready write_multiple_registers ?wmr"
    "ready read_write_multiple_registers (make_read_write_multiple_registers_request
      (Metadata 16) (Metadata 2) (Metadata 17) (Metadata 1) [5])"
    by code_simp+
  have "(length (wmcq_values ?wmc) + 7) div 8 = unat (wmcq_byte_count ?wmc)"
    "2 * length (wmrq_values ?wmr) \<noteq> unat (registers_byte_count (wmrq_count ?wmr))"
    "wmcq_address ?wmc = Metadata 17" "wmcq_count ?wmc = Metadata 3"
    "vector_resize False (unat (meta_get (wmcq_count ?wmc))) (wmcq_values ?wmc) =
      [True, False, True]"
    by code_simp+
  with requests_round_trip [OF sample_platform_ok [of True] _ r(1) _ r(2) r(3) r(4) r(5) r(6) r(7)
      r(8)]
  show ?thesis by simp
qed

text \<open>
  C33: bit packing loses nothing: unpacking packed bits gives them back, followed by the zero
  bits that fill the last byte; packing unpacked bytes gives the bytes back; and bit \<open>i\<close> is bit
  \<open>i mod 8\<close>, counted from the least significant one, of byte \<open>i div 8\<close>.
\<close>

theorem pack_bits_round_trip:
  assumes "i < length bs"
  shows "unpack_bits (pack_bits bs) = bs @ replicate (8 * ((length bs + 7) div 8) - length bs) False \<and>
    pack_bits (unpack_bits cs) = cs \<and> length (pack_bits bs) = (length bs + 7) div 8 \<and>
    bit (pack_bits bs ! (i div 8)) (i mod 8) = bs ! i"
proof -
  have "i < 8 * length (pack_bits bs)" using assms by (simp add: length_pack_bits)
  from unpack_bits_bit [OF this] show ?thesis
    using assms by (simp add: unpack_pack_bits length_pack_bits nth_append)
qed

theorem pack_bits_round_trip_witness:
  "bit (pack_bits [True, False, False, False, False, False, False, False, False, True] ! 1) 1"
  using pack_bits_round_trip [of 9
      "[True, False, False, False, False, False, False, False, False, True]" "[]"]
  by simp

text \<open>
  The loop of \<open>unpack_bits\<close> returns: \<open>for (int bit = 0x01; bit & 0xff; bit <<= 1)\<close> leaves
  the loop after eight rounds with \<open>bit\<close> at 256, without overflow, whether \<open>char\<close> is signed or
  not, and has then pushed the eight bits of the byte.
\<close>

lemma unpack_loop_returns:
  "unpack_byte_while sg c = Some (256, unpack_byte_loop c 0x01) \<and>
   length (unpack_byte_loop c 0x01) = 8"
  by (simp add: unpack_byte_while_eq unpack_byte_loop_eq)

section \<open>Blocks\<close>

text \<open>
  C35: a block keeps its contract: from a block that satisfies the invariant, \<open>set\<close> of a range
  either throws \<open>std::out_of_range\<close> and does so exactly when the range is empty or not inside the
  block, or it returns a block that satisfies the invariant, in which the range reads back as
  written and every other cell is as before; and \<open>reset\<close> puts the default into every cell.
\<close>

theorem block_contract:
  assumes "block_inv b"
  shows "(if vs \<noteq> [] \<and> in_block b a (length vs)
      then \<exists>b'. block_set_slice b a vs = Ok b' \<and> block_inv b' \<and>
        block_read b' a (length vs) = Ok vs \<and>
        (unat (meta_get a) + length vs \<le> k \<or> k < unat (meta_get a) \<longrightarrow>
           block_cells b' k = block_cells b k)
      else block_set_slice b a vs = Throw Std_out_of_range) \<and>
    block_cells (block_reset b) k = map_option (\<lambda>_. blk_default b) (block_cells b k)"
proof (intro conjI)
  show "if vs \<noteq> [] \<and> in_block b a (length vs)
      then \<exists>b'. block_set_slice b a vs = Ok b' \<and> block_inv b' \<and>
        block_read b' a (length vs) = Ok vs \<and>
        (unat (meta_get a) + length vs \<le> k \<or> k < unat (meta_get a) \<longrightarrow>
           block_cells b' k = block_cells b k)
      else block_set_slice b a vs = Throw Std_out_of_range"
    using block_store.read_after_write [OF assms, of a vs]
      block_store.write_okD(4) [OF assms, of a vs] assms
    by (auto simp: block_set_slice_eq put_cells_def)
  show "block_cells (block_reset b) k = map_option (\<lambda>_. blk_default b) (block_cells b k)"
    using assms by (auto simp: block_cells_def block_reset_def block_inv_def)
qed

theorem block_contract_witness:
  "\<exists>b. block_set_slice (holding_registers sample_table) (Metadata 17) [1, 2] = Ok b \<and>
     block_read b (Metadata 17) 2 = Ok [1, 2]"
proof -
  let ?b = "holding_registers sample_table" and ?vs = "[1, 2] :: u16 list"
  have "in_block ?b (Metadata 17) (length ?vs)" by code_simp
  moreover have "block_inv ?b" "?vs \<noteq> []" "length ?vs = 2" by simp_all
  ultimately show ?thesis using block_contract [of ?b ?vs "Metadata 17"] by metis
qed

section \<open>The default table\<close>

lemma default_block_cells:
  "block_cells (sequential_of_initializer z \<lparr>ini_start = Metadata 0, ini_capacity = n, ini_default = d\<rparr>) k =
     (if k < n then Some d else None)"
  by (simp add: block_cells_def sequential_of_initializer_def base_of_capacity_def
      vector_resize_def Let_def)

lemma default_table_image:
  "table_image (make_table default_initializer) =
     \<lparr>im_coils = (\<lambda>k. if k < 65535 then Some False else None),
      im_discrete_inputs = (\<lambda>k. if k < 65535 then Some False else None),
      im_holding_registers = (\<lambda>k. if k < 65535 then Some 0 else None),
      im_input_registers = (\<lambda>k. if k < 65535 then Some 0 else None)\<rparr>"
  by (simp add: table_image_def make_table_def default_initializer_def default_block_cells
      max_capacity_def fun_eq_iff)

lemma default_reads:
  assumes "12 \<le> length p" "p ! 7 \<in> {0x01, 0x02, 0x03, 0x04}" "packet_u16 p 10 = 1"
  defines "im \<equiv> table_image (make_table default_initializer)"
  shows "spec_request p im =
    (if packet_u16 p 8 = max_address then Fail illegal_data_address
     else Reply (if p ! 7 \<in> {0x01, 0x02} then [1, 0] else [2, 0, 0]) im)"
proof -
  have a: "unat (packet_u16 p 8) < 65535 \<longleftrightarrow> packet_u16 p 8 \<noteq> max_address"
    using unat_u16_less [of "packet_u16 p 8"]
    by (auto simp: max_address_def word_unat_eq_iff simp del: unat_u16_less)
  have one: "all_cells m k 1 \<longleftrightarrow> m k \<noteq> None" "cell_list m k 1 = [the (m k)]" for m k
    by (simp_all add: all_cells_def cell_list_def)
  have bytes: "byte_of_bits [False] = 0" "registers_bytes [0] = [0, 0]" by code_simp+
  have im: "im_coils im k = (if k < 65535 then Some False else None)"
    "im_discrete_inputs im k = (if k < 65535 then Some False else None)"
    "im_holding_registers im k = (if k < 65535 then Some 0 else None)"
    "im_input_registers im k = (if k < 65535 then Some 0 else None)" for k
    by (simp_all only: im_def default_table_image image.simps)
  have n: "unat (packet_u16 p 10) = 1" by (simp add: assms(3))
  show ?thesis
    using assms(1,2) unfolding insert_iff empty_iff simp_thms
    by (elim disjE; simp add: spec_request_def spec_read_bits_def spec_read_registers_def Let_def
        n one im bytes a del: One_nat_def not_None_eq)
qed

text \<open>
  C36: the default table stops one address short: it has the addresses 0 to 65534 in each of its
  four areas, because the default capacity is 65535, and refuses the address 0xFFFF, the
  maximal address of the protocol and of \<open>address_t\<close>, with exception code 2.
\<close>

theorem default_table_last_address:
  assumes "platform_ok P" "12 \<le> length p" "p ! 7 \<in> {0x01, 0x02, 0x03, 0x04}"
    "packet_u16 p 10 = 1"
  shows "fst (handle P p (make_table default_initializer)) =
    Ok (if packet_u16 p 8 = max_address
        then adu_packet (packet_u16 p 0) (p ! 6) (p ! 7 + 0x80) [0x02]
        else adu_packet (packet_u16 p 0) (p ! 6) (p ! 7)
               (if p ! 7 \<in> {0x01, 0x02} then [1, 0] else [2, 0, 0]))"
proof -
  have p: "8 \<le> length p" using assms(2) by simp
  have e: "error_function_byte (p ! 7) = p ! 7 + 0x80"
    using assms(3) by (auto simp: error_function_byte_def check_function_def)
  show ?thesis
    using handle_fail [OF assms(1) table_inv_make p, of default_initializer]
      handle_reply(1) [OF assms(1) table_inv_make p, of default_initializer]
      default_reads [OF assms(2-4)] e
    by (auto split: if_splits)
qed

theorem default_table_last_address_witness:
  "fst (handle (sample_platform True) [0, 1, 0, 0, 0, 6, 17, 3, 0xFF, 0xFF, 0, 1]
     (make_table default_initializer)) = Ok [0, 1, 0, 0, 0, 3, 17, 0x83, 2]"
proof -
  let ?p = "[0, 1, 0, 0, 0, 6, 17, 3, 0xFF, 0xFF, 0, 1] :: packet_t"
  have f: "packet_u16 ?p 10 = 1"
    "adu_packet (packet_u16 ?p 0) (?p ! 6) (?p ! 7 + 0x80) [0x02] =
       [0, 1, 0, 0, 0, 3, 17, 0x83, 2]"
    by code_simp+
  have a: "packet_u16 ?p 8 = max_address"
    by (simp add: packet_u16_def u16_of_bytes_def max_address_def)
  have "12 \<le> length ?p" "?p ! 7 \<in> {0x01, 0x02, 0x03, 0x04}" by code_simp+
  from default_table_last_address [OF sample_platform_ok [of True] this f(1)]
  show ?thesis by (simp only: a f(2) if_True simp_thms)
qed

section \<open>The client's check of a packet\<close>

text \<open>
  What \<open>check_stage\<close> computes: it is \<open>packet_stage\<close> of the remembered header and function,
  and it takes the packet's header over exactly when transaction, protocol, unit and length
  match. A packet with a matching header and any valid function code passes, whatever function
  the response expects.
\<close>

lemma check_stage_passes_any_function:
  assumes "platform_ok P"
  shows "check_stage P p r =
      (Ok (packet_stage (req_header r) (adu_function r) p),
       if header_matches (req_header r) p then take_header p r else r) \<and>
    (header_matches (req_header r) p \<and> check_function (p ! 7) \<longrightarrow>
       fst (check_stage P p r) = Ok stage_passed)"
  using assms by (simp add: check_stage_eq packet_stage_def)

section \<open>Guards that do not guard\<close>

text \<open>
  A bad count or value is never reported as such: \<open>execute\<close> of the register write, the mask
  write and the six requests with counts, on any request object and any table, never throws
  \<open>illegal_data_value\<close>; the member function \<open>validate()\<close> that guards the throw is the one of
  the base class, and every 16-bit number passes it.
\<close>

lemma execute_never_illegal_value:
  "read_bits_execute P fc barea r1 T \<noteq> Throw (Specification illegal_data_value f h) \<and>
   read_registers_execute P fc rarea r2 T \<noteq> Throw (Specification illegal_data_value f h) \<and>
   write_single_register_execute r3 T \<noteq> Throw (Specification illegal_data_value f h) \<and>
   write_multiple_coils_execute r4 T \<noteq> Throw (Specification illegal_data_value f h) \<and>
   write_multiple_registers_execute r5 T \<noteq> Throw (Specification illegal_data_value f h) \<and>
   mask_write_register_execute r6 T \<noteq> Throw (Specification illegal_data_value f h) \<and>
   read_write_multiple_registers_execute r7 T \<noteq> Throw (Specification illegal_data_value f h)"
  by (simp add: read_bits_execute_eq read_registers_execute_eq write_single_register_execute_eq
      write_multiple_coils_execute_eq write_multiple_registers_execute_eq
      mask_write_register_execute_eq read_write_multiple_registers_execute_eq)

text \<open>
  The guard of \<open>utilities::unpack\<close> lets reads run past the end: on a 64-bit target its
  width test divides by eight and vanishes, so a 16-bit number is read from the last byte of a
  packet, and a 32-bit number from the last three, beyond the packet; only a start beyond the
  packet is refused. Where the number fits it is the big-endian one.
\<close>

lemma unpack_overread:
  "(unpack_u16 8 p i = Undefined \<longleftrightarrow> length p = i + 1) \<and>
   (unpack_u32 8 p i = Undefined \<longleftrightarrow> i < length p \<and> length p < i + 4) \<and>
   (unpack_u16 8 p i = Throw Std_out_of_range \<longleftrightarrow> length p \<le> i) \<and>
   (unpack_u32 8 p i = Throw Std_out_of_range \<longleftrightarrow> length p \<le> i) \<and>
   (unpack_u16 8 p i = Ok v \<longleftrightarrow> i + 2 \<le> length p \<and> v = packet_u16 p i) \<and>
   (unpack_u32 8 p i = Ok w \<longleftrightarrow> i + 4 \<le> length p \<and> w = word_rcat (slice i 4 p))"
  by (auto simp: unpack_u16_def unpack_u32_def)

end
