(* ===== verification/Modbus_Dump.thy ===== *)
theory Modbus_Dump
  imports Modbus_Bit_Read Modbus_Register_Read Modbus_Bit_Write Modbus_Register_Write
    Modbus_Registers_Write
begin

text \<open>
  The \<open>dump\<close> methods of the request and response classes: each calls \<open>fmt::print\<close> with a format
  string and arguments. The formatting library is a parameter, a function from these to the
  text printed, or to \<open>None\<close> where it throws \<open>fmt::format_error\<close>. An argument is a number, or an
  object of \<open>base_metadata_t\<close>, which the library prints through its \<open>operator<<\<close>, as text.
\<close>

section \<open>The formatter\<close>

datatype fmt_arg = Number nat | Streamed metadata

type_synonym formatter = "string \<Rightarrow> fmt_arg list \<Rightarrow> string option"

text \<open>
  The specifications between the braces of a format string, in order; \<open>None\<close> if braces do not
  match or are doubled. The first argument is the specification being read, inside braces.
\<close>

fun placeholders_loop :: "string option \<Rightarrow> string \<Rightarrow> string list option" where
  "placeholders_loop None [] = Some []"
| "placeholders_loop (Some spec) [] = None"
| "placeholders_loop None (c # cs) =
     (if c = CHR ''{'' then placeholders_loop (Some []) cs
      else if c = CHR ''}'' then None
      else placeholders_loop None cs)"
| "placeholders_loop (Some spec) (c # cs) =
     (if c = CHR ''}'' then map_option (Cons spec) (placeholders_loop None cs)
      else if c = CHR ''{'' then None
      else placeholders_loop (Some (spec @ [c])) cs)"

definition placeholders :: "string \<Rightarrow> string list option" where
  "placeholders fs = placeholders_loop None fs"

text \<open>
  The format strings of the library use two specifications: \<open>{}\<close>, which takes any argument, and
  \<open>{:#04x}\<close>, whose \<open>#\<close> and \<open>x\<close> are for numbers only. A call with these succeeds exactly when
  there is an argument for every specification and each takes its argument.
\<close>

definition plain_spec :: string where "plain_spec = []"
definition hex_spec :: string where "hex_spec = '':#04x''"

fun takes :: "string \<Rightarrow> fmt_arg \<Rightarrow> bool" where
  "takes spec (Number n) = True"
| "takes spec (Streamed m) = (spec = plain_spec)"

definition formats :: "string list \<Rightarrow> fmt_arg list \<Rightarrow> bool" where
  "formats specs args \<longleftrightarrow>
     length specs \<le> length args \<and> list_all2 takes specs (take (length specs) args)"

definition formatter_ok :: "formatter \<Rightarrow> bool" where
  "formatter_ok F \<longleftrightarrow>
     (\<forall>fs specs args. placeholders fs = Some specs \<and> set specs \<subseteq> {plain_spec, hex_spec} \<longrightarrow>
        (F fs args = None \<longleftrightarrow> \<not> formats specs args))"

text \<open>A formatter that keeps the rule, for concrete instances: it prints the format string itself.\<close>

definition sample_formatter :: formatter where
  "sample_formatter fs args =
     (case placeholders fs of
        None \<Rightarrow> None
      | Some specs \<Rightarrow> if formats specs args then Some fs else None)"

lemma sample_formatter_ok [simp]: "formatter_ok sample_formatter"
  by (simp add: formatter_ok_def sample_formatter_def)

lemma formatter_okD:
  assumes "formatter_ok F" "placeholders fs = Some specs" "set specs \<subseteq> {plain_spec, hex_spec}"
  shows "F fs args = None \<longleftrightarrow> \<not> formats specs args"
  using assms by (auto simp: formatter_ok_def)

section \<open>The methods\<close>

text \<open>The part that all classes print of the header.\<close>

definition header_text :: string where
  "header_text = ''(header[transaction={:#04x}, protocol={:#04x}, unit={:#04x}], pdu[function={:#04x}, ''"

definition header_args :: "'a adu_scheme \<Rightarrow> fmt_arg list" where
  "header_args r = [Number (unat (adu_transaction r)), Number (unat protocol),
     Number (unat (adu_unit r)), Number (unat (adu_function_code r))]"

definition adu_dump :: "formatter \<Rightarrow> 'a adu_scheme \<Rightarrow> string option" where
  "adu_dump F a =
     F (''ADU(header[transaction={:#04x}, protocol={:#04x}, '' @
        ''function={:#04x}, unit={:#04x}])'')
       [Number (unat (adu_transaction a)), Number (unat protocol),
        Number (unat (adu_function_code a)), Number (unat (adu_unit a))]"

definition read_coils_request_dump ::
    "formatter \<Rightarrow> read_bits_request \<Rightarrow> string option" where
  "read_coils_request_dump F r =
     F (''RequestReadCoils'' @ header_text @
        ''address={:#04x}, count={}])'')
       (header_args r @
        [Number (unat (meta_get (rbq_address r))), Streamed (rbq_count r)])"

definition read_discrete_inputs_request_dump ::
    "formatter \<Rightarrow> read_bits_request \<Rightarrow> string option" where
  "read_discrete_inputs_request_dump F r =
     F (''RequestReadDiscreteInputs'' @ header_text @
        ''address={:#04x}, count={}])'')
       (header_args r @
        [Number (unat (meta_get (rbq_address r))), Streamed (rbq_count r)])"

definition read_coils_response_dump ::
    "formatter \<Rightarrow> read_bits_response \<Rightarrow> string option" where
  "read_coils_response_dump F r =
     F (''ResponseReadCoils'' @ header_text @
        ''address={:#04x}, count={}, bits_size={}])'')
       (header_args r @
        [Number (unat (meta_get (rbq_address (rbs_request r)))),
         Streamed (rbq_count (rbs_request r)), Number (length (rbs_bits r))])"

definition read_discrete_inputs_response_dump ::
    "formatter \<Rightarrow> read_bits_response \<Rightarrow> string option" where
  "read_discrete_inputs_response_dump F r =
     F (''ResponseReadDiscreteInputs'' @ header_text @
        ''address={:#04x}, count={}, bits_size={}])'')
       (header_args r @
        [Number (unat (meta_get (rbq_address (rbs_request r)))),
         Streamed (rbq_count (rbs_request r)), Number (length (rbs_bits r))])"

definition read_holding_registers_request_dump ::
    "formatter \<Rightarrow> read_registers_request \<Rightarrow> string option" where
  "read_holding_registers_request_dump F r =
     F (''RequestReadHoldingRegisters'' @ header_text @
        ''address={:#04x}, count={}])'')
       (header_args r @
        [Number (unat (meta_get (rrq_address r))), Streamed (rrq_count r)])"

definition read_input_registers_request_dump ::
    "formatter \<Rightarrow> read_registers_request \<Rightarrow> string option" where
  "read_input_registers_request_dump F r =
     F (''RequestReadInputRegisters'' @ header_text @
        ''address={:#04x}, count={}])'')
       (header_args r @
        [Number (unat (meta_get (rrq_address r))), Streamed (rrq_count r)])"

definition read_holding_registers_response_dump ::
    "formatter \<Rightarrow> read_registers_response \<Rightarrow> string option" where
  "read_holding_registers_response_dump F r =
     F (''ResponseReadHoldingRegisters'' @ header_text @
        ''address={:#04x}, count={}, registers_size={}])'')
       (header_args r @
        [Number (unat (meta_get (rrq_address (rrs_request r)))),
         Streamed (rrq_count (rrs_request r)), Number (length (rrs_registers r))])"

definition read_input_registers_response_dump ::
    "formatter \<Rightarrow> read_registers_response \<Rightarrow> string option" where
  "read_input_registers_response_dump F r =
     F (''ResponseReadInputRegisters'' @ header_text @
        ''address={:#04x}, count={}, registers_size={}])'')
       (header_args r @
        [Number (unat (meta_get (rrq_address (rrs_request r)))),
         Streamed (rrq_count (rrs_request r)), Number (length (rrs_registers r))])"

definition write_single_coil_request_dump ::
    "formatter \<Rightarrow> write_single_coil_request \<Rightarrow> string option" where
  "write_single_coil_request_dump F r =
     F (''RequestWriteSingleCoil'' @ header_text @
        ''address={:#04x}, value={:#04x}])'')
       (header_args r @
        [Number (unat (meta_get (wcq_address r))),
         Number (unat (bits_underlying (wcq_value r)))])"

definition write_multiple_coils_request_dump ::
    "formatter \<Rightarrow> write_multiple_coils_request \<Rightarrow> string option" where
  "write_multiple_coils_request_dump F r =
     F (''RequestWriteMultipleCoils'' @ header_text @
        ''address={:#04x}, quantity={:#04x}, bytes_count={:#04x}, values_size={}])'')
       (header_args r @
        [Streamed (wmcq_address r), Streamed (wmcq_count r),
         Number (unat (coils_byte_count (wmcq_count r))),
         Number (length (wmcq_values r))])"

definition write_single_coil_response_dump ::
    "formatter \<Rightarrow> write_single_coil_response \<Rightarrow> string option" where
  "write_single_coil_response_dump F r =
     F (''ResponseWriteSingleCoil'' @ header_text @
        ''address={:#04x}, value={:#04x}])'')
       (header_args r @
        [Streamed (wcq_address (wcs_request r)),
         Number (unat (bits_underlying (wcq_value (wcs_request r))))])"

definition write_multiple_coils_response_dump ::
    "formatter \<Rightarrow> write_multiple_coils_response \<Rightarrow> string option" where
  "write_multiple_coils_response_dump F r =
     F (''ResponseWriteMultipleCoils'' @ header_text @
        ''address={:#04x}])'')
       (header_args r @
        [Streamed (wmcs_address r)])"

definition write_single_register_request_dump ::
    "formatter \<Rightarrow> write_single_register_request \<Rightarrow> string option" where
  "write_single_register_request_dump F r =
     F (''RequestWriteSingleRegister'' @ header_text @
        ''address={:#04x}, value={:#04x}])'')
       (header_args r @
        [Number (unat (meta_get (wrq_address r))), Streamed (wrq_value r)])"

definition write_multiple_registers_request_dump ::
    "formatter \<Rightarrow> write_multiple_registers_request \<Rightarrow> string option" where
  "write_multiple_registers_request_dump F r =
     F (''RequestWriteMultipleRegisters'' @ header_text @
        ''address={:#04x}, quantity={:#04x}, bytes_count={:#04x}, values_size={}])'')
       (header_args r @
        [Streamed (wmrq_address r), Streamed (wmrq_count r),
         Number (unat (registers_byte_count (wmrq_count r))),
         Number (length (wmrq_values r))])"

definition mask_write_register_request_dump ::
    "formatter \<Rightarrow> mask_write_register_request \<Rightarrow> string option" where
  "mask_write_register_request_dump F r =
     F (''RequestMaskWriteRegister'' @ header_text @
        ''address={:#04x}, and_mask={:#04x}, or_mask={:#04x}])'')
       (header_args r @
        [Number (unat (meta_get (mwq_address r))),
         Number (unat (meta_get (mwq_and_mask r))),
         Number (unat (meta_get (mwq_or_mask r)))])"

definition read_write_multiple_registers_request_dump ::
    "formatter \<Rightarrow> read_write_multiple_registers_request \<Rightarrow> string option" where
  "read_write_multiple_registers_request_dump F r =
     F (''RequestReadWriteMultipleRegisters'' @ header_text @
        ''read_address={:#04x}, read_quantity={:#04x}, '' @
        ''write_address={:#04x}, write_quantity={:#04x}, '' @
        ''bytes_count={:#04x}, values_size={}])'')
       (header_args r @
        [Streamed (rwq_read_address r), Streamed (rwq_read_count r),
         Streamed (rwq_write_address r), Streamed (rwq_write_count r),
         Number (unat (registers_byte_count (rwq_write_count r))),
         Number (length (rwq_values r))])"

definition write_single_register_response_dump ::
    "formatter \<Rightarrow> write_single_register_response \<Rightarrow> string option" where
  "write_single_register_response_dump F r =
     F (''ResponseWriteSingleRegister'' @ header_text @
        ''address={:#04x}, value={:#04x}])'')
       (header_args r @
        [Streamed (wrs_address r), Streamed (wrs_value r)])"

definition write_multiple_registers_response_dump ::
    "formatter \<Rightarrow> write_multiple_registers_response \<Rightarrow> string option" where
  "write_multiple_registers_response_dump F r =
     F (''ResponseWriteMultipleRegisters'' @ header_text @
        ''address={:#04x}])'')
       (header_args r @
        [Streamed (wmrs_address r)])"

definition mask_write_register_response_dump ::
    "formatter \<Rightarrow> mask_write_register_response \<Rightarrow> string option" where
  "mask_write_register_response_dump F r =
     F (''ResponseMaskWriteRegister'' @ header_text @
        ''address={:#04x}, and_mask={:#04x}, or_mask={:#04x}])'')
       (header_args r @
        [Streamed (mws_address r), Streamed (mws_and_mask r),
         Streamed (mws_or_mask r)])"

definition read_write_multiple_registers_response_dump ::
    "formatter \<Rightarrow> read_write_multiple_registers_response \<Rightarrow> string option" where
  "read_write_multiple_registers_response_dump F r =
     F (''ResponseReadWriteMultipleRegisters'' @ header_text @
        ''byte_count={:#04x}, register_size={:#04x}])'')
       (header_args r @
        [Number (unat (rws_count r)), Number (length (rws_registers r))])"

section \<open>Which of them print\<close>

lemmas dump_defs = adu_dump_def header_args_def
  read_coils_request_dump_def
  read_discrete_inputs_request_dump_def
  read_coils_response_dump_def
  read_discrete_inputs_response_dump_def
  read_holding_registers_request_dump_def
  read_input_registers_request_dump_def
  read_holding_registers_response_dump_def
  read_input_registers_response_dump_def
  write_single_coil_request_dump_def
  write_multiple_coils_request_dump_def
  write_single_coil_response_dump_def
  write_multiple_coils_response_dump_def
  write_single_register_request_dump_def
  write_multiple_registers_request_dump_def
  mask_write_register_request_dump_def
  read_write_multiple_registers_request_dump_def
  write_single_register_response_dump_def
  write_multiple_registers_response_dump_def
  mask_write_register_response_dump_def
  read_write_multiple_registers_response_dump_def

lemma header_placeholders:
  "placeholders_loop None (header_text @ s) =
     map_option ((@) [hex_spec, hex_spec, hex_spec, hex_spec]) (placeholders_loop None s)"
  by (cases "placeholders_loop None s") (simp_all add: header_text_def hex_spec_def)

lemmas format_simps = formatter_okD formats_def placeholders_def header_placeholders
  plain_spec_def hex_spec_def dump_defs

text \<open>
  C38: nine of the twenty-one \<open>dump\<close> methods cannot print anything: whatever the object, the
  formatter throws, since \<open>{:#04x}\<close> is applied to an \<open>address_t\<close>, a count or a value object
  instead of its number. The other twelve print on every object.
\<close>

theorem dumps_that_throw:
  assumes "formatter_ok F"
  shows "write_multiple_coils_request_dump F t1 = None \<and>
    write_single_coil_response_dump F t2 = None \<and>
    write_multiple_coils_response_dump F t3 = None \<and>
    write_single_register_request_dump F t4 = None \<and>
    write_multiple_registers_request_dump F t5 = None \<and>
    read_write_multiple_registers_request_dump F t6 = None \<and>
    write_single_register_response_dump F t7 = None \<and>
    write_multiple_registers_response_dump F t8 = None \<and>
    mask_write_register_response_dump F t9 = None \<and>
    adu_dump F a \<noteq> None \<and>
    read_coils_request_dump F p1 \<noteq> None \<and>
    read_discrete_inputs_request_dump F p2 \<noteq> None \<and>
    read_coils_response_dump F p3 \<noteq> None \<and>
    read_discrete_inputs_response_dump F p4 \<noteq> None \<and>
    read_holding_registers_request_dump F p5 \<noteq> None \<and>
    read_input_registers_request_dump F p6 \<noteq> None \<and>
    read_holding_registers_response_dump F p7 \<noteq> None \<and>
    read_input_registers_response_dump F p8 \<noteq> None \<and>
    write_single_coil_request_dump F p9 \<noteq> None \<and>
    mask_write_register_request_dump F p10 \<noteq> None \<and>
    read_write_multiple_registers_response_dump F p11 \<noteq> None"
  by (intro conjI; simp add: format_simps assms)

theorem dumps_that_throw_witness:
  "formatter_ok sample_formatter \<and>
   write_single_register_request_dump sample_formatter
     new_write_single_register_request = None \<and>
   read_coils_request_dump sample_formatter
     (new_read_bits_request read_coils) \<noteq> None"
  by (simp add: dumps_that_throw [OF sample_formatter_ok])

end
