(* ===== verification/Modbus_Logger.thy ===== *)
theory Modbus_Logger
  imports Main
begin

text \<open>
  The class \<open>logger\<close>: a singleton with a debug flag. The static pointer \<open>instance_\<close>, the
  function-local static objects that \<open>create\<close> makes (one for each of its template
  instantiations, constructed at most once), and the objects a program passes to \<open>set\<close> are
  the state; the lines on standard output are the effect. Formatting is left out: the state
  depends on the finished message only.
\<close>

section \<open>State\<close>

text \<open>
  A logger object lives in the static of one instantiation of \<open>create\<close> (numbered, \<open>0\<close> being the
  one that \<open>get\<close> uses), or it belongs to the user.
\<close>

datatype logger_ref = Static_instance nat | User_instance nat

record logger_state =
  lg_instance :: "logger_ref option"
  lg_debug :: "logger_ref \<rightharpoonup> bool"
  lg_output :: "string list"

definition logger_initial :: logger_state where
  "logger_initial = \<lparr>lg_instance = None, lg_debug = Map.empty, lg_output = []\<rparr>"

section \<open>Operations\<close>

text \<open>The constructor; a pointer is passed to \<open>set\<close> only after its object was constructed.\<close>

definition logger_construct :: "logger_ref \<Rightarrow> bool \<Rightarrow> logger_state \<Rightarrow> logger_state" where
  "logger_construct r debug s = s\<lparr>lg_debug := (lg_debug s)(r \<mapsto> debug)\<rparr>"

text \<open>\<open>create<Logger>(debug)\<close>: the static of the instantiation keeps its first construction.\<close>

definition logger_create :: "nat \<Rightarrow> bool \<Rightarrow> logger_state \<Rightarrow> logger_state" where
  "logger_create i debug s =
     (if lg_instance s = None then
        let s = (if lg_debug s (Static_instance i) = None
                 then logger_construct (Static_instance i) debug s else s)
        in s\<lparr>lg_instance := Some (Static_instance i)\<rparr>
      else s)"

text \<open>\<open>set\<close> takes a pointer, which may be null.\<close>

definition logger_set :: "logger_ref option \<Rightarrow> logger_state \<Rightarrow> logger_state" where
  "logger_set r s = s\<lparr>lg_instance := r\<rparr>"

definition logger_get :: "logger_state \<Rightarrow> logger_ref option \<times> logger_state" where
  "logger_get s =
     (let s = (if lg_instance s = None then logger_create 0 False s else s)
      in (lg_instance s, s))"

definition logger_set_debug :: "logger_ref \<Rightarrow> bool \<Rightarrow> logger_state \<Rightarrow> logger_state" where
  "logger_set_debug r debug s = s\<lparr>lg_debug := (lg_debug s)(r \<mapsto> debug)\<rparr>"

definition logger_info_impl :: "string \<Rightarrow> logger_state \<Rightarrow> logger_state" where
  "logger_info_impl msg s = s\<lparr>lg_output := lg_output s @ [msg]\<rparr>"

text \<open>The static \<open>info\<close>, which the other two call, gets the singleton again.\<close>

definition logger_info :: "string \<Rightarrow> logger_state \<Rightarrow> logger_state" where
  "logger_info msg s = logger_info_impl msg (snd (logger_get s))"

definition logger_error_impl :: "string \<Rightarrow> logger_state \<Rightarrow> logger_state" where
  "logger_error_impl msg s = logger_info msg s"

definition logger_error :: "string \<Rightarrow> logger_state \<Rightarrow> logger_state" where
  "logger_error msg s = logger_error_impl msg (snd (logger_get s))"

definition logger_debug_impl :: "logger_ref option \<Rightarrow> string \<Rightarrow> logger_state \<Rightarrow> logger_state" where
  "logger_debug_impl this msg s =
     (if Option.bind this (lg_debug s) = Some True then logger_info msg s else s)"

definition logger_debug :: "string \<Rightarrow> logger_state \<Rightarrow> logger_state" where
  "logger_debug msg s = (let (this, s) = logger_get s in logger_debug_impl this msg s)"

section \<open>What is logged\<close>

text \<open>The flag that decides about the next debug message.\<close>

definition logger_debugging :: "logger_state \<Rightarrow> bool" where
  "logger_debugging s = (let (this, s) = logger_get s in Option.bind this (lg_debug s) = Some True)"

lemma logger_get_idem [simp]: "snd (logger_get (snd (logger_get s))) = snd (logger_get s)"
  by (simp add: logger_get_def logger_create_def logger_construct_def Let_def)

lemma logger_get_some: "fst (logger_get s) \<noteq> None"
  by (simp add: logger_get_def logger_create_def logger_construct_def Let_def)

lemma logger_get_output [simp]: "lg_output (snd (logger_get s)) = lg_output s"
  by (simp add: logger_get_def logger_create_def logger_construct_def Let_def)

lemma logger_output:
  "lg_output (logger_info msg s) = lg_output s @ [msg]"
  "lg_output (logger_error msg s) = lg_output s @ [msg]"
  "lg_output (logger_debug msg s) = lg_output s @ (if logger_debugging s then [msg] else [])"
proof -
  show info: "lg_output (logger_info msg s) = lg_output s @ [msg]" for s
    by (simp add: logger_info_def logger_info_impl_def)
  show "lg_output (logger_error msg s) = lg_output s @ [msg]"
    by (simp add: logger_error_def logger_error_impl_def info)
  show "lg_output (logger_debug msg s) = lg_output s @ (if logger_debugging s then [msg] else [])"
    using logger_get_output [of s]
    by (cases "logger_get s")
      (simp add: logger_debug_def logger_debug_impl_def logger_debugging_def info)
qed

text \<open>
  \<open>create\<close> after the first logging call has no effect, and neither has a debug flag passed to a
  second \<open>create\<close> of the same kind, even when \<open>set(nullptr)\<close> made room for it.
\<close>

lemma create_after_get: "logger_create i debug (snd (logger_get s)) = snd (logger_get s)"
  using logger_get_some [of s] by (simp add: logger_get_def logger_create_def logger_construct_def Let_def)

lemma create_keeps_static:
  "logger_create i d' (logger_set None (logger_create i d s)) =
   logger_set (Some (Static_instance i)) (logger_create i d s)"
  if "lg_instance s = None"
  using that by (simp add: logger_create_def logger_construct_def logger_set_def Let_def)

lemma debug_flag_decides:
  assumes "lg_instance s = Some r" "lg_debug s r = Some d"
  shows "logger_debugging s = d"
  using assms by (simp add: logger_debugging_def logger_get_def)

end
