(* ===== verification/Modbus_Standalone.thy ===== *)
theory Modbus_Standalone
  imports Modbus_Component_Facts Modbus_Server
begin

text \<open>
  The two example programs of \<open>standalone\<close>: a client that sends one request whenever it gets a
  connection and prints what comes back, and a server with the default table. The callbacks of
  the client are operations on its state; the lines that \<open>spdlog\<close> prints and the packets it
  sends are effects. How \<open>fmt\<close> prints a byte and what \<open>what()\<close> says are parameters.
\<close>

section \<open>What the programs print\<close>

datatype log_line = Log_error string | Log_debug string | Log_info string

text \<open>The methods of \<open>client_logger\<close>; \<open>server_logger\<close> has the same.\<close>

definition client_error_impl :: "string \<Rightarrow> log_line list \<Rightarrow> log_line list" where
  "client_error_impl message out = out @ [Log_error message]"

definition client_debug_impl :: "bool \<Rightarrow> string \<Rightarrow> log_line list \<Rightarrow> log_line list" where
  "client_debug_impl debug message out = (if debug then out @ [Log_debug message] else out)"

definition client_info_impl :: "string \<Rightarrow> log_line list \<Rightarrow> log_line list" where
  "client_info_impl message out = out @ [Log_info message]"

definition cout_bytes :: "(byte \<Rightarrow> string) \<Rightarrow> packet_t \<Rightarrow> log_line" where
  "cout_bytes fmt_byte packet = Log_debug (''[Packet, '' @ packet_str fmt_byte packet @ '']'')"

section \<open>The client\<close>

datatype client_effect = Client_sends packet_t | Client_prints log_line

record client =
  cl_req :: read_write_multiple_registers_request
  cl_request :: packet_t
  cl_effects :: "client_effect list"

definition client_add_effect :: "client_effect \<Rightarrow> client \<Rightarrow> client" where
  "client_add_effect e C = C\<lparr>cl_effects := cl_effects C @ [e]\<rparr>"

text \<open>\<open>req\<close>, as \<open>main\<close> constructs and initialises it.\<close>

definition client_req :: read_write_multiple_registers_request where
  "client_req =
     initialize \<lparr>init_transaction = 0x1234, init_unit = 0x01\<rparr>
       (make_read_write_multiple_registers_request (Metadata 0x01) (Metadata 5) (Metadata 0x00)
          (Metadata 5) [1, 2, 3, 4, 5])"

text \<open>\<open>main\<close> up to the start of the client: it has returned, or the client runs.\<close>

datatype client_program = Returned int "log_line list" | Running client

definition client_main :: "platform \<Rightarrow> (exn \<Rightarrow> string) \<Rightarrow> nat \<Rightarrow> (exn, client_program) outcome" where
  "client_main P what argc =
     (if argc \<noteq> 3 then Ok (Returned 1 [Log_error ''Usage: tcp_client <host> <port>''])
      else
        (case read_write_multiple_registers_encode P client_req of
           (Ok request, req) \<Rightarrow>
             Ok (Running \<lparr>cl_req = req, cl_request = request, cl_effects = []\<rparr>)
         | (Throw e, _) \<Rightarrow> Ok (Returned 0 [Log_error (''Exception '' @ what e)])
         | (Undefined, _) \<Rightarrow> Undefined))"

text \<open>The callback runs after a failed attempt, too, and sends all the same.\<close>

definition client_on_connect :: "(byte \<Rightarrow> string) \<Rightarrow> client \<Rightarrow> client" where
  "client_on_connect fmt_byte C =
     client_add_effect (Client_sends (cl_request C))
       (client_add_effect (Client_prints (cout_bytes fmt_byte (cl_request C))) C)"

definition client_on_disconnect :: "client \<Rightarrow> client" where
  "client_on_disconnect C = C"

text \<open>The catch clauses of the receive callback.\<close>

definition client_report :: "(exn \<Rightarrow> string) \<Rightarrow> exn \<Rightarrow> log_line" where
  "client_report what e =
     (if is_specification_error e then Log_error (''Modbus exception occured '' @ what e)
      else if is_base_error e then Log_error (''Internal exception occured '' @ what e)
      else Log_error (''Unintended exception occured '' @ what e))"

definition client_on_receive ::
    "platform \<Rightarrow> (byte \<Rightarrow> string) \<Rightarrow> (exn \<Rightarrow> string) \<Rightarrow> packet_t \<Rightarrow> client \<Rightarrow> (exn, client) outcome" where
  "client_on_receive P fmt_byte what packet C =
     (case response_decode P (read_write_multiple_registers_decode_passed P) packet
             (make_read_write_multiple_registers_response (cl_req C)) of
        (Ok _, _) \<Rightarrow> Ok (client_add_effect (Client_prints (cout_bytes fmt_byte packet)) C)
      | (Throw e, _) \<Rightarrow> Ok (client_add_effect (Client_prints (client_report what e)) C)
      | (Undefined, _) \<Rightarrow> Undefined)"

datatype client_event = Client_connected | Client_disconnected | Client_received packet_t

primrec client_step ::
    "platform \<Rightarrow> (byte \<Rightarrow> string) \<Rightarrow> (exn \<Rightarrow> string) \<Rightarrow> client_event \<Rightarrow> client \<Rightarrow> (exn, client) outcome" where
  "client_step P fmt_byte what Client_connected C = Ok (client_on_connect fmt_byte C)"
| "client_step P fmt_byte what Client_disconnected C = Ok (client_on_disconnect C)"
| "client_step P fmt_byte what (Client_received packet) C = client_on_receive P fmt_byte what packet C"

primrec client_run ::
    "platform \<Rightarrow> (byte \<Rightarrow> string) \<Rightarrow> (exn \<Rightarrow> string) \<Rightarrow> client_event list \<Rightarrow> client \<Rightarrow> (exn, client) outcome" where
  "client_run P fmt_byte what [] C = Ok C"
| "client_run P fmt_byte what (e # es) C =
     bind_outcome (client_step P fmt_byte what e C) (client_run P fmt_byte what es)"

section \<open>The server\<close>

text \<open>\<open>main\<close>: the default table, and a connect callback that does nothing.\<close>

definition standalone_server :: server where
  "standalone_server = bind_connect (\<lambda>_ T. T) (make_server (make_table default_initializer))"

section \<open>What the client prints\<close>

text \<open>
  A received packet prints one line, and it is never the line for a Modbus exception: the first
  catch clause is dead, since the library throws such exceptions sliced.
\<close>

definition client_lines :: "(byte \<Rightarrow> string) \<Rightarrow> (exn \<Rightarrow> string) \<Rightarrow> packet_t \<Rightarrow> log_line set" where
  "client_lines fmt_byte what packet =
     {cout_bytes fmt_byte packet,
      Log_error (''Internal exception occured '' @ what (Internal bad_data)),
      Log_error (''Unintended exception occured '' @ what Std_exception)}"

lemma client_on_receive_prints:
  assumes "platform_ok P"
  shows "\<exists>line \<in> client_lines fmt_byte what packet.
    client_on_receive P fmt_byte what packet C = Ok (client_add_effect (Client_prints line) C)"
proof -
  let ?d = "response_decode P (read_write_multiple_registers_decode_passed P) packet
    (make_read_write_multiple_registers_response (cl_req C))"
  have "fst ?d \<in> {Ok (), Throw (Internal bad_data), Throw Std_exception}"
    by (rule response_decode_settled [OF assms read_write_accepts_or_rejects [OF assms]])
  then show ?thesis
    by (cases ?d) (auto simp: client_on_receive_def client_lines_def client_report_def)
qed

text \<open>So the client never stops: every sequence of callbacks runs, and leaves the request alone.\<close>

lemma client_run_total:
  assumes "platform_ok P"
  shows "\<exists>C'. client_run P fmt_byte what es C = Ok C' \<and> cl_req C' = cl_req C \<and>
    cl_request C' = cl_request C"
proof (induction es arbitrary: C)
  case (Cons e es)
  have "\<exists>C'. client_step P fmt_byte what e C = Ok C' \<and> cl_req C' = cl_req C \<and>
      cl_request C' = cl_request C"
  proof (cases e)
    case (Client_received packet)
    then show ?thesis
      using client_on_receive_prints [OF assms, of fmt_byte what packet C]
      by (auto simp: client_add_effect_def)
  qed (simp_all add: client_on_connect_def client_on_disconnect_def client_add_effect_def)
  with Cons show ?case by fastforce
qed simp

section \<open>The two programs together\<close>

lemma client_req_fields [simp]:
  "adu_transaction client_req = 0x1234" "adu_unit client_req = 0x01"
  "rwq_read_address client_req = Metadata 1" "rwq_read_count client_req = Metadata 5"
  "rwq_write_address client_req = Metadata 0" "rwq_write_count client_req = Metadata 5"
  "rwq_values client_req = [1, 2, 3, 4, 5]"
  by (simp_all add: client_req_def initialize_def make_read_write_multiple_registers_request_def
      adu.defs read_write_multiple_registers_request.defs)

lemma client_req_sendable: "read_write_sendable client_req"
  by code_simp

text \<open>The client after it has started.\<close>

definition started_client :: client where
  "started_client =
     \<lparr>cl_req = calc_length 19 client_req, cl_request = read_write_client.sent client_req,
      cl_effects = []\<rparr>"

lemma client_main_runs:
  "platform_ok P \<Longrightarrow> client_main P what 3 = Ok (Running started_client)"
  by (simp add: client_main_def started_client_def
      read_write_codec.encodes [OF _ client_req_sendable])

text \<open>The reply to it; the last value is that of the register behind those that it writes.\<close>

definition client_reply :: "u16 \<Rightarrow> packet_t" where
  "client_reply v = read_write_client.replied client_req (10 # registers_bytes [2, 3, 4, 5, v])"

text \<open>
  The request of the client, handled on any table with six holding registers from address 0 on:
  the first five are set, and the reply brings the second to the sixth.
\<close>

lemma client_req_served:
  assumes P: "platform_ok P" and T: "table_inv T"
    and cells: "all_cells (block_cells (holding_registers T)) 0 5"
      "block_cells (holding_registers T) 5 = Some v"
  shows "fst (handle P (cl_request started_client) T) = Ok (client_reply v)"
    and "im_holding_registers (table_image (snd (handle P (cl_request started_client) T))) =
      put_cells (block_cells (holding_registers T)) 0 [1, 2, 3, 4, 5]"
proof -
  let ?regs = "put_cells (block_cells (holding_registers T)) 0 [1, 2, 3, 4, 5]"
  have all: "all_cells (block_cells (holding_registers T)) 1 5"
    using cells by (auto simp: all_cells_def less_Suc_eq numeral_eq_Suc)
  have r: "range_ok (holding_registers T) (rwq_read_address client_req) (rwq_read_count client_req) 125"
    "range_ok (holding_registers T) (rwq_write_address client_req) (rwq_write_count client_req) 123"
    using cells(1) all by (simp_all add: range_ok_def)
  have l: "cell_list ?regs 1 5 = [2, 3, 4, 5, v]"
    using cells(2) by (simp add: cell_list_def put_cells_def upt_rec numeral_eq_Suc)
  have "spec_request (read_write_client.sent client_req) (table_image T) =
      Reply (10 # registers_bytes [2, 3, 4, 5, v]) ((table_image T)\<lparr>im_holding_registers := ?regs\<rparr>)"
    using sent_read_write [OF client_req_sendable r] l by simp
  from handle_reply [OF P T _ this]
  show "fst (handle P (cl_request started_client) T) = Ok (client_reply v)"
    "im_holding_registers (table_image (snd (handle P (cl_request started_client) T))) = ?regs"
    by (simp_all add: started_client_def client_reply_def)
qed

lemma client_accepts_reply:
  assumes P: "platform_ok P" and C: "cl_req C = cl_req started_client"
  shows "client_on_receive P fmt_byte what (client_reply v) C =
    Ok (client_add_effect (Client_prints (cout_bytes fmt_byte (client_reply v))) C)"
proof -
  let ?r = "make_read_write_multiple_registers_response (cl_req C)"
  have hd: "hd_transaction (req_header ?r) = adu_transaction client_req"
    "hd_unit (req_header ?r) = adu_unit client_req"
    by (simp_all add: C started_client_def adu_header_def)
  have rq: "rwq_read_count (cl_req C) = Metadata 5"
    by (simp add: C started_client_def)
  have "read_write_multiple_registers_decode_passed P (client_reply v) (take_header (client_reply v) ?r) =
      (Ok (), (take_header (client_reply v) ?r)\<lparr>rws_count := 10, rws_registers := [2, 3, 4, 5, v]\<rparr>)"
    by (rule read_write_decode_passed_reply [OF P])
      (simp_all add: rq client_reply_def num_regs_validate_unat)
  then show ?thesis
    using decode_normal [OF P hd, of "10 # registers_bytes [2, 3, 4, 5, v]"]
    by (simp add: client_on_receive_def client_reply_def)
qed

text \<open>
  C39: the two example programs work together: in every state of the server whose table has the
  six holding registers from address 0 on, the request that the client sends on connecting is
  answered, the five registers hold its values, the client takes the reply and prints it, and
  prints no error.
\<close>

theorem standalone_session:
  assumes "platform_ok P" "server_inv S"
    and "all_cells (block_cells (holding_registers (srv_table S))) 0 5"
    and "block_cells (holding_registers (srv_table S)) 5 = Some v"
  shows "\<exists>C S' C'. client_main P what 3 = Ok (Running C) \<and>
    server_step P S (Receive s (cl_request C)) S' \<and>
    srv_effects S' = srv_effects S @ [Send s (client_reply v)] \<and>
    cell_list (block_cells (holding_registers (srv_table S'))) 0 6 = [1, 2, 3, 4, 5, v] \<and>
    client_run P fmt_byte what [Client_connected, Client_received (client_reply v)] C = Ok C' \<and>
    cl_effects C' =
      [Client_prints (cout_bytes fmt_byte (cl_request C)), Client_sends (cl_request C),
       Client_prints (cout_bytes fmt_byte (client_reply v))]"
proof -
  let ?h = "handle P (cl_request started_client) (srv_table S)"
  let ?S = "add_effect (Send s (client_reply v)) (S\<lparr>srv_table := snd ?h\<rparr>)"
  have T: "table_inv (srv_table S)" using assms(2) by (simp add: server_inv_def)
  note served = client_req_served [OF assms(1) T assms(3,4)]
  have "server_step P S (Receive s (cl_request started_client)) ?S"
    using served(1) by (cases ?h) (simp add: server_step_receive on_receive_ok client_reply_def)
  moreover have "cell_list (block_cells (holding_registers (srv_table ?S))) 0 6 = [1, 2, 3, 4, 5, v]"
    using served(2) assms(4) by (simp add: cell_list_def put_cells_def upt_rec numeral_eq_Suc)
  moreover have "client_run P fmt_byte what [Client_connected, Client_received (client_reply v)]
      started_client = Ok (client_add_effect (Client_prints (cout_bytes fmt_byte (client_reply v)))
        (client_on_connect fmt_byte started_client))"
    by (simp add: client_accepts_reply [OF assms(1)] client_on_connect_def client_add_effect_def)
  ultimately show ?thesis
    using client_main_runs [OF assms(1)]
    by (intro exI conjI)
      (assumption | simp add: client_on_connect_def client_add_effect_def started_client_def)+
qed

theorem standalone_session_witness:
  "\<exists>C S'. client_main (sample_platform True) (\<lambda>_. ''error'') 3 = Ok (Running C) \<and>
     server_step (sample_platform True) standalone_server (Receive 0 (cl_request C)) S' \<and>
     srv_effects S' = [Send 0 (client_reply 0)]"
proof -
  have T: "table_inv (srv_table standalone_server)" "srv_effects standalone_server = []"
    "srv_table standalone_server = make_table default_initializer"
    by (simp_all add: standalone_server_def bind_connect_def make_server_def)
  then have i: "server_inv standalone_server"
    by (simp add: server_inv_def standalone_server_def bind_connect_def make_server_def
        callback_ok_def)
  have "block_cells (holding_registers (srv_table standalone_server)) =
      (\<lambda>k. if k < 65535 then Some 0 else None)"
    using arg_cong [OF default_table_image, of im_holding_registers] by (simp add: T(3))
  then have "all_cells (block_cells (holding_registers (srv_table standalone_server))) 0 5"
    "block_cells (holding_registers (srv_table standalone_server)) 5 = Some 0"
    by (simp_all add: all_cells_def)
  from standalone_session [OF sample_platform_ok [of True] i this] T(2) show ?thesis by fastforce
qed

end
