(* ===== verification/Spec2Isabelle.thy ===== *)
theory Spec2Isabelle
  imports Modbus_Concurrent_Read Modbus_Concurrent_Torn Modbus_Locked_Requests
    Modbus_Concurrent_Server
    Modbus_Component_Facts Modbus_Dump Modbus_Logger Modbus_Standalone
begin

text \<open>
  \<^bold>\<open>modbuscpp: a Modbus/TCP library in C++, modelled and verified.\<close>

  \<^bold>\<open>The program.\<close> A server owns a data table of four blocks (coils, discrete inputs, holding
  registers, input registers). Its networking library calls \<open>server::on_receive\<close> with the
  bytes of a packet; \<open>request_handler::handle\<close> reads the function byte, builds the request
  object of that function, lets it \<open>decode\<close> the packet and \<open>execute\<close> against the table (the
  checks), and sends what the resulting response object \<open>encode\<close>s (which reads or writes the
  table). A throw on the way becomes an exception reply. On the other side a client builds a
  request, \<open>encode\<close>s and sends it, and lets the response object of the same function
  \<open>decode\<close> what comes back.

  \<^bold>\<open>The theories, and what they model.\<close>
  \<^item> \<open>Prelude\<close>: bytes, 16-bit numbers, packets; outcomes (\<open>Ok\<close>, \<open>Throw\<close>, \<open>Undefined\<close>) and
    actions on an object's state, in which methods are written; the collections of rewrite
    rules \<open>act_simps\<close> and \<open>codec_simps\<close>.
  \<^item> \<open>Modbus_Constants\<close> (\<open>constants.hpp\<close>), \<open>Modbus_Types\<close> (\<open>types.hpp\<close>),
    \<open>Modbus_Exceptions\<close> (\<open>exception.hpp\<close>): enumerations, the wrapped 16-bit values and
    counts, exceptions.
  \<^item> \<open>Modbus_Platform\<close>: what the sources use but do not contain, as the record \<open>platform\<close>:
    the library \<open>struc\<close>, the signedness of \<open>char\<close>, the bits of uninitialised members.
    \<open>platform_ok\<close> states the documented behaviour of \<open>struc\<close>; \<open>sample_platform\<close> has it.
  \<^item> \<open>Modbus_Utilities\<close> (\<open>utilities.hpp\<close>), \<open>Modbus_Operation\<close> (\<open>operation.cpp\<close>),
    \<open>Modbus_Logger\<close> (\<open>logger.hpp\<close>, \<open>logger.cpp\<close>).
  \<^item> \<open>Cell_Store\<close>: the interface of a store of addressed cells as a locale;
    \<open>Modbus_Data_Table\<close> (\<open>data-table.hpp\<close>, \<open>data-table.inline.hpp\<close>, \<open>data-table.cpp\<close>): the
    blocks, which are instances of it, and the table.
  \<^item> \<open>Modbus_Adu\<close>, \<open>Modbus_Response\<close>, \<open>Modbus_Request\<close>: the base classes (\<open>adu\<close>,
    \<open>response\<close>, \<open>request\<close>) and the two classes without a function of their own.
  \<^item> \<open>Modbus_Bit_Read\<close>, \<open>Modbus_Register_Read\<close>, \<open>Modbus_Bit_Write\<close>,
    \<open>Modbus_Register_Write\<close>, \<open>Modbus_Registers_Write\<close>: the request and response classes of
    the ten functions (\<open>bit-read\<close>, \<open>register-read\<close>, \<open>bit-write\<close>, \<open>register-write\<close>). A class is a
    record that extends its base class; a template over the function code is a definition
    with the code and the area as arguments; a constructor is \<open>make_\<dots>\<close>, with the default
    arguments \<open>new_\<dots>\<close>.
  \<^item> \<open>Modbus_Request_Handler\<close> (\<open>request-handler.cpp\<close>) and \<open>Modbus_Server\<close> (\<open>server.cpp\<close>):
    dispatch, catch clauses, and the server as a state machine over events.
  \<^item> \<open>Programs\<close>: programs that share a store, as a datatype of accesses; pools of them, what
    they guarantee and how many accesses they make. \<open>Modbus_Request_Programs\<close>: the handler and
    the encoders (\<open>bit-read\<close>, \<open>register-read\<close>, \<open>bit-write\<close>, \<open>register-write\<close>,
    \<open>request-handler.cpp\<close>) as such programs over the table; run alone they are the methods of
    the theories above (\<open>run_handle_program\<close>). \<open>Modbus_Concurrent_Safety\<close> and
    \<open>Modbus_Concurrent_Requests\<close>: what every interleaving of requests keeps, their number of
    accesses, and the requests that only read. \<open>Modbus_Concurrent_Masks\<close>: two mask writes.
    \<open>Modbus_Concurrent_Torn\<close>: a read that another request overtakes. \<open>Modbus_Concurrent_Read\<close>:
    runs recorded with their tables, and where the values of a read come from.
  \<^item> \<open>Locked_Programs\<close>: programs that take and release mutexes, pools in which a program waits for
    a mutex that is held, and the discipline that excludes deadlocks. \<open>Modbus_Locked_Requests\<close>
    (\<open>data-table.inline.hpp\<close>): the handler and the encoders with the mutexes of the blocks;
    without the lock operations they are the programs above (\<open>unlocked_handle\<close>).
  \<^item> \<open>Modbus_Concurrent_Server\<close> (\<open>server.hpp\<close>, \<open>server.cpp\<close>): the server with any number of
    callbacks under way, each a program of its own; the server of \<open>Modbus_Server\<close> is simulated
    by it (locale \<open>run_simulation\<close>).
  \<^item> \<open>Modbus_Interleaving\<close>: the accesses of any number of mask writes as a step relation.
  \<^item> \<open>Modbus_Standalone\<close> (\<open>standalone/source\<close>): the example client with its callbacks, and the
    example server.
  \<^item> \<open>Modbus_Dump\<close>: the \<open>dump\<close> methods of all classes, up to the call of the formatter.

  \<^bold>\<open>Abstract specification and refinement.\<close> \<open>Modbus_Spec\<close> describes each function as a map from
  a packet and the \<^emph>\<open>images\<close> of the four areas (finite maps from addresses to values) to a
  verdict: a reply with new images, a failure with a code, or an over-read. The locale
  \<open>modbus_service\<close> is the contract between a branch of the dispatch and its verdict; each of
  the ten branches is an interpretation. \<open>spec_handle\<close> is the whole server, and C1 the
  refinement.

  \<^bold>\<open>The client.\<close> The locale \<open>request_codec\<close> is the contract between a client's \<open>encode\<close> and
  the server's \<open>decode\<close> of a class; \<open>client_exchange\<close> extends it by the response class;
  \<open>Modbus_Request_Codec\<close> and \<open>Modbus_Client\<close> interpret them for all ten classes, and
  \<open>Modbus_Exchange\<close> follows whole exchanges. \<open>Modbus_Component_Facts\<close> holds properties of
  single components.

  \<^bold>\<open>What the lemmas show.\<close> The closed forms (\<open>\<dots>_eq\<close>) evaluate each operation on every
  branch; the \<open>\<dots>_implements\<close> lemmas tie them to the verdicts; \<open>handle_cases\<close> lists the four
  ways a packet can end, and most properties of the server follow by cases. The theorems
  numbered C1, C2, \<dots> are the properties; each is followed by a witness that applies it to
  concrete packets on a concrete table.

  \<^bold>\<open>Bounds and termination.\<close> No definition has fuel. Loops over lists recur on the list; the
  loop of \<open>unpack_bits\<close> over \<open>int bit\<close> and the loop that unpacks registers have measures.
  Packets and containers are lists of any length; sizes are natural numbers, since no sum of
  sizes in the code comes near 64 bits; every 8-bit and 16-bit quantity is a machine word.
  A request makes at most 4002 accesses to the table: one for \<open>execute\<close>, one for \<open>get\<close>, and two
  for each of at most 2000 bits; the other functions make fewer. With at most two calls under a
  lock it makes four lock operations, 4006 steps in all.

  \<^bold>\<open>Undefined behaviour\<close> is a value of the model: reading past the end of a packet or of a
  container gives \<open>Undefined\<close>. C3 says exactly when that happens.

  \<^bold>\<open>Threads.\<close> The server's callbacks run on several threads. C15 to C17 and C40 take each event
  as one step; C22 and C23 are about the server whose callbacks run in parallel, and C24 relates
  the two. C7, C18, C19, C20 and C37 let the table accesses of a fixed set of requests
  interleave. An access is a \<open>get\<close> or \<open>set\<close> of one cell, the check of a range, or one element of
  a range that is read or written. A block's lock keeps two calls of \<open>set\<close> apart and excludes
  some of these interleavings, so what holds for all of them holds for the code's. C34 is about
  the requests with their locks: it shows that every run with locks is one of those, and that
  there is no deadlock. C37 asserts that a run exists, and its run respects the locks: the other request is served as a whole while the
  read is between two elements, which it reads without the lock. Whether \<open>asio2\<close> may start a
  callback for a session while an earlier one of that session is running is the parameter
  \<open>serial\<close>, and the properties say what holds in each case.

  \<^bold>\<open>Not modelled.\<close> Sockets, threads and sessions of \<open>asio2\<close> (the server sees them as events,
  and hands back a list of effects); races on a single element, which C++ leaves undefined (an
  element is read and written as a whole here), and, since \<open>std::vector<bool>\<close> packs coils into
  words, races of a read of coils with a write of neighbouring ones; what the formatter prints; the formatting of log
  messages; memory exhaustion; build files and tests.
\<close>
text \<open>One read of a small table, evaluated.\<close>

lemma sample_read_reply:
  "fst (handle (sample_platform True) [0, 1, 0, 0, 0, 6, 17, 3, 0, 16, 0, 2] sample_table) =
     Ok [0, 1, 0, 0, 0, 7, 17, 3, 4, 0, 7, 0, 7]"
  by code_simp

section \<open>The request handler\<close>

text \<open>
  C1: the request handler implements the abstract server. For every packet and every table
  whose blocks satisfy the invariant, \<open>handle\<close> returns the reply of \<open>spec_handle\<close> and leaves
  a table whose areas are those of \<open>spec_handle\<close>; it is undefined exactly when \<open>spec_handle\<close>
  says so, and then the table has not been touched.
\<close>

theorem handle_refines_spec:
  assumes "platform_ok P" "table_inv T"
  shows "case spec_handle p (table_image T) of
      None \<Rightarrow> handle P p T = (Undefined, T)
    | Some (reply, im) \<Rightarrow>
        \<exists>T'. handle P p T = (Ok reply, T') \<and> table_image T' = im \<and> table_inv T'"
  by (cases rule: handle_cases [OF assms, of p]) (auto simp: spec_handle_def assms(2))

theorem handle_refines_spec_witness:
  "fst (handle (sample_platform True) [0, 1, 0, 0, 0, 6, 17, 3, 0, 16, 0, 2] sample_table) =
     Ok [0, 1, 0, 0, 0, 7, 17, 3, 4, 0, 7, 0, 7]"
proof -
  have "map_option fst (spec_handle [0, 1, 0, 0, 0, 6, 17, 3, 0, 16, 0, 2]
      (table_image sample_table)) = Some [0, 1, 0, 0, 0, 7, 17, 3, 4, 0, 7, 0, 7]"
    by code_simp
  then show ?thesis
    using handle_refines_spec [OF sample_platform_ok [of True] sample_table_inv,
        of "[0, 1, 0, 0, 0, 6, 17, 3, 0, 16, 0, 2]"]
    by (auto split: option.splits)
qed

text \<open>
  C2: a request never damages the data table: whatever the packet and however \<open>handle\<close> ends,
  the block invariant holds afterwards, the two read-only areas are as before, and the two
  writable areas have cells at the same addresses as before.
\<close>

theorem handle_preserves_table:
  assumes "platform_ok P" "table_inv T" "snd (handle P p T) = T'"
  shows "table_inv T' \<and>
    im_discrete_inputs (table_image T') = im_discrete_inputs (table_image T) \<and>
    im_input_registers (table_image T') = im_input_registers (table_image T) \<and>
    (\<forall>k. im_coils (table_image T') k = None \<longleftrightarrow> im_coils (table_image T) k = None) \<and>
    (\<forall>k. im_holding_registers (table_image T') k = None \<longleftrightarrow>
         im_holding_registers (table_image T) k = None)"
proof (cases rule: handle_cases [OF assms(1,2), of p, case_names short reply failure overread])
  case (reply body T'')
  with assms(3) have T'': "T' = T''" by simp
  show ?thesis unfolding T''
    by (intro conjI allI; rule reply(3) spec_domains [OF reply(2)]
        spec_outside_window(3,4) [OF reply(2)])
qed (use assms in auto)

theorem handle_preserves_table_witness:
  "table_inv (snd (handle (sample_platform True)
     [0, 1, 0, 0, 0, 6, 17, 6, 0, 16, 0, 2] sample_table))"
  using handle_preserves_table [OF sample_platform_ok [of True] sample_table_inv refl] by blast

text \<open>
  C3: \<open>handle\<close> runs into undefined behaviour (a read past the end of the packet) exactly when
  the packet carries a supported function and is shorter than the fields of that function;
  in particular a complete request never does, whatever its field values are.
\<close>

theorem handle_undefined_iff:
  assumes "platform_ok P" "table_inv T"
  shows "fst (handle P p T) = Undefined \<longleftrightarrow>
    8 \<le> length p \<and> p ! 7 \<in> set supported_bytes \<and> length p < request_extent p"
  using spec_overread_iff [of p "table_image T"]
  by (cases rule: handle_cases [OF assms, of p]) auto

theorem handle_undefined_iff_witness:
  "fst (handle (sample_platform True) [0, 1, 0, 0, 0, 2, 17, 3, 0] sample_table) = Undefined \<and>
   fst (handle (sample_platform True) [0, 1, 0, 0, 0, 6, 17, 3, 0, 16, 0, 2] sample_table)
     \<noteq> Undefined"
  using handle_undefined_iff [OF sample_platform_ok [of True] sample_table_inv]
  by (simp add: supported_bytes_def request_extent_def)

text \<open>
  C4: no exception leaves \<open>handle\<close>: every throw of the decoders, the table and the encoders,
  and the exception reply itself, ends in a packet (possibly the empty one).
\<close>

theorem handle_never_throws:
  assumes "platform_ok P" "table_inv T"
  shows "fst (handle P p T) \<noteq> Throw e"
  by (cases rule: handle_cases [OF assms, of p]) auto

theorem handle_never_throws_witness:
  "fst (handle (sample_platform False) [0, 1, 0, 0, 0, 6, 17, 3, 0, 18, 0, 9] sample_table)
     \<noteq> Throw Std_out_of_range"
  by (rule handle_never_throws) simp_all

text \<open>
  C5: every reply is a well-formed Modbus packet: it repeats the transaction and the unit of
  the request, has protocol 0, a length field that counts the bytes after it, and fits the
  maximal ADU size; the reply is empty exactly for packets too short to have a function.
\<close>

theorem handle_reply_well_formed:
  assumes "platform_ok P" "table_inv T" "fst (handle P p T) = Ok r"
  shows "(r = [] \<longleftrightarrow> length p < 8) \<and>
    (8 \<le> length p \<longrightarrow>
       packet_u16 r 0 = packet_u16 p 0 \<and> packet_u16 r 2 = 0 \<and> r ! 6 = p ! 6 \<and>
       unat (packet_u16 r 4) = length r - 6 \<and> 9 \<le> length r \<and>
       length r \<le> unat max_adu_length)"
  using assms(3)
proof (cases rule: handle_cases [OF assms(1,2), of p, case_names short reply failure overread])
  case (reply body T')
  from spec_reply_body_length [OF reply(2)] have "2 \<le> length body" "length body \<le> 251"
    by simp_all
  with reply(1,4) assms(3) show ?thesis
    by (auto simp: unat_length_field max_adu_length_def)
next
  case (failure ec)
  with assms(3) show ?thesis
    using adu_packet_length_field [of "[exception_underlying ec]"]
    by (auto simp: max_adu_length_def)
qed (use assms in auto)

theorem handle_reply_well_formed_witness:
  "packet_u16 [0, 1, 0, 0, 0, 7, 17, 3, 4, 0, 7, 0, 7] 0 = 1"
  using handle_reply_well_formed [OF sample_platform_ok [of True] sample_table_inv,
      of "[0, 1, 0, 0, 0, 6, 17, 3, 0, 16, 0, 2]" "[0, 1, 0, 0, 0, 7, 17, 3, 4, 0, 7, 0, 7]"]
    sample_read_reply
  by (simp add: packet_u16_def u16_of_bytes_def)

text \<open>
  C6: a reply is either a normal one, which repeats a supported function byte, or an
  exception reply of nine bytes with one of the codes 1, 2 and 4, and then the table has not
  changed. In particular code 3 (illegal data value) is never sent.
\<close>

theorem handle_normal_or_exception:
  assumes "platform_ok P" "table_inv T" "8 \<le> length p" "fst (handle P p T) = Ok r"
  shows "(p ! 7 \<in> set supported_bytes \<and> r ! 7 = p ! 7) \<or>
    (r = adu_packet (packet_u16 p 0) (p ! 6) (error_function_byte (p ! 7)) [r ! 8] \<and>
     r ! 8 \<in> {0x01, 0x02, 0x04} \<and> snd (handle P p T) = T)"
  using assms(4)
proof (cases rule: handle_cases [OF assms(1,2), of p, case_names short reply failure overread])
  case (reply body T')
  with assms(4) spec_reply_supported [OF reply(2)] show ?thesis by auto
next
  case (failure ec)
  with assms(4) spec_fail_codes [OF failure(2)] show ?thesis
    by (auto simp: adu_packet_nth)
qed (use assms in auto)

theorem handle_normal_or_exception_witness:
  "snd (handle (sample_platform True) [0, 1, 0, 0, 0, 6, 17, 6, 0, 99, 0, 2] sample_table) =
     sample_table"
proof -
  have "fst (handle (sample_platform True) [0, 1, 0, 0, 0, 6, 17, 6, 0, 99, 0, 2] sample_table)
      = Ok [0, 1, 0, 0, 0, 3, 17, 0x86, 2]"
    by code_simp
  from handle_normal_or_exception [OF sample_platform_ok sample_table_inv _ this]
  show ?thesis by simp
qed

text \<open>
  C8: a request writes only inside its window: a coil or holding register whose address is
  not in the address range named by the request keeps its value.
\<close>

theorem handle_writes_only_window:
  assumes "platform_ok P" "table_inv T" "snd (handle P p T) = T'"
  shows "(k \<notin> written_coils p \<longrightarrow>
       im_coils (table_image T') k = im_coils (table_image T) k) \<and>
    (k \<notin> written_registers p \<longrightarrow>
       im_holding_registers (table_image T') k = im_holding_registers (table_image T) k)"
proof (cases rule: handle_cases [OF assms(1,2), of p, case_names short reply failure overread])
  case (reply body T'')
  with assms(3) have T'': "T' = T''" by simp
  show ?thesis unfolding T''
    using spec_outside_window(1,2) [OF reply(2), of k] by (intro conjI impI)
qed (use assms in auto)

theorem handle_writes_only_window_witness:
  "im_holding_registers (table_image (snd (handle (sample_platform True)
      [0, 1, 0, 0, 0, 6, 17, 6, 0, 16, 0, 2] sample_table))) 17 = Some 7"
proof -
  have "im_holding_registers (table_image sample_table) 17 = Some 7" by code_simp
  then show ?thesis
    using handle_writes_only_window [OF sample_platform_ok [of True] sample_table_inv refl,
        of 17 "[0, 1, 0, 0, 0, 6, 17, 6, 0, 16, 0, 2]"]
    by (simp add: written_registers_def packet_u16_def u16_of_bytes_def)
qed

text \<open>
  C9: what write multiple registers stored, read holding registers returns. When a request
  0x10 has been answered normally, a following request 0x03 for the same addresses gets
  exactly the values of the write request.
\<close>

theorem registers_written_are_read:
  assumes "platform_ok P" "table_inv T" "fst (handle P wp T) = Ok w" "wp ! 7 = 0x10"
    "w ! 7 = 0x10" "w \<noteq> []"
    and "12 \<le> length rp" "rp ! 7 = 0x03" "packet_u16 rp 8 = packet_u16 wp 8"
    "packet_u16 rp 10 = packet_u16 wp 10"
  shows "fst (handle P rp (snd (handle P wp T))) =
    Ok (adu_packet (packet_u16 rp 0) (rp ! 6) 0x03
          (word_of_nat (2 * unat (packet_u16 wp 10)) #
           registers_bytes (packet_registers wp 13 (unat (packet_u16 wp 10)))))"
proof -
  let ?T = "snd (handle P wp T)" and ?n = "unat (packet_u16 wp 10)"
  let ?vs = "packet_registers wp 13 ?n"
  obtain body where w: "8 \<le> length wp" "table_inv ?T"
      "spec_request wp (table_image T) = Reply body (table_image ?T)"
    by (rule handle_replied [OF assms(1,2) _ assms(3) _ assms(6)])
      (use assms(4,5) in \<open>auto simp: supported_bytes_def\<close>)
  note wr = spec_write_registers_replied [OF w(3) assms(4)]
  have "spec_request rp (table_image ?T) =
      Reply (word_of_nat (2 * ?n) # registers_bytes ?vs) (table_image ?T)"
    using assms(7-10) wr(1-3) cell_list_put_same [of _ "unat (packet_u16 wp 8)" ?vs]
      all_cells_put [of _ "unat (packet_u16 wp 8)" ?vs]
    by (simp add: spec_request_def spec_read_registers_def Let_def wr(4) del: table_image_simps)
  from handle_reply(1) [OF assms(1) w(2) _ this] assms(7,8) show ?thesis by simp
qed

theorem registers_written_are_read_witness:
  "fst (handle (sample_platform True) [0, 2, 0, 0, 0, 6, 17, 3, 0, 17, 0, 2]
     (snd (handle (sample_platform True)
        [0, 1, 0, 0, 0, 11, 17, 16, 0, 17, 0, 2, 4, 1, 2, 3, 4] sample_table))) =
   Ok [0, 2, 0, 0, 0, 7, 17, 3, 4, 1, 2, 3, 4]"
proof -
  let ?wp = "[0, 1, 0, 0, 0, 11, 17, 16, 0, 17, 0, 2, 4, 1, 2, 3, 4] :: packet_t"
  let ?rp = "[0, 2, 0, 0, 0, 6, 17, 3, 0, 17, 0, 2] :: packet_t"
  have w: "fst (handle (sample_platform True) ?wp sample_table) =
      Ok [0, 1, 0, 0, 0, 6, 17, 16, 0, 17, 0, 2]"
    by code_simp
  have "adu_packet (packet_u16 ?rp 0) (?rp ! 6) 0x03 (word_of_nat (2 * unat (packet_u16 ?wp 10)) #
           registers_bytes (packet_registers ?wp 13 (unat (packet_u16 ?wp 10)))) =
      [0, 2, 0, 0, 0, 7, 17, 3, 4, 1, 2, 3, 4]"
    by code_simp
  with registers_written_are_read [OF sample_platform_ok sample_table_inv w, of ?rp]
  show ?thesis by (simp add: packet_u16_def)
qed

text \<open>
  C10: the same for coils: when a request 0x0F has been answered normally, a following
  request 0x01 for the same addresses gets the bits of the write request, packed.
\<close>

theorem coils_written_are_read:
  assumes "platform_ok P" "table_inv T" "fst (handle P wp T) = Ok w" "wp ! 7 = 0x0F"
    "w ! 7 = 0x0F" "w \<noteq> []"
    and "12 \<le> length rp" "rp ! 7 = 0x01" "packet_u16 rp 8 = packet_u16 wp 8"
    "packet_u16 rp 10 = packet_u16 wp 10"
  shows "fst (handle P rp (snd (handle P wp T))) =
    Ok (adu_packet (packet_u16 rp 0) (rp ! 6) 0x01
          (word_of_nat ((unat (packet_u16 wp 10) + 7) div 8) #
           pack_bits (vector_resize False (unat (packet_u16 wp 10)) (unpack_bits (drop 13 wp)))))"
proof -
  let ?T = "snd (handle P wp T)" and ?n = "unat (packet_u16 wp 10)"
  let ?vs = "vector_resize False ?n (unpack_bits (drop 13 wp))"
  obtain body where w: "8 \<le> length wp" "table_inv ?T"
      "spec_request wp (table_image T) = Reply body (table_image ?T)"
    by (rule handle_replied [OF assms(1,2) _ assms(3) _ assms(6)])
      (use assms(4,5) in \<open>auto simp: supported_bytes_def\<close>)
  note wr = spec_write_coils_replied [OF w(3) assms(4)]
  have "spec_request rp (table_image ?T) =
      Reply (word_of_nat ((?n + 7) div 8) # pack_bits ?vs) (table_image ?T)"
    using assms(7-10) wr(1-3) cell_list_put_same [of _ "unat (packet_u16 wp 8)" ?vs]
      all_cells_put [of _ "unat (packet_u16 wp 8)" ?vs]
    by (simp add: spec_request_def spec_read_bits_def Let_def wr(4) pack_bits_eq_chunks
        del: table_image_simps)
  from handle_reply(1) [OF assms(1) w(2) _ this] assms(7,8) show ?thesis by simp
qed

theorem coils_written_are_read_witness:
  "fst (handle (sample_platform True) [0, 2, 0, 0, 0, 6, 17, 1, 0, 17, 0, 3]
     (snd (handle (sample_platform True)
        [0, 1, 0, 0, 0, 8, 17, 15, 0, 17, 0, 3, 1, 2] sample_table))) =
   Ok [0, 2, 0, 0, 0, 4, 17, 1, 1, 2]"
proof -
  let ?wp = "[0, 1, 0, 0, 0, 8, 17, 15, 0, 17, 0, 3, 1, 2] :: packet_t"
  let ?rp = "[0, 2, 0, 0, 0, 6, 17, 1, 0, 17, 0, 3] :: packet_t"
  have w: "fst (handle (sample_platform True) ?wp sample_table) =
      Ok [0, 1, 0, 0, 0, 6, 17, 15, 0, 17, 0, 3]"
    by code_simp
  have "adu_packet (packet_u16 ?rp 0) (?rp ! 6) 0x01
      (word_of_nat ((unat (packet_u16 ?wp 10) + 7) div 8) #
       pack_bits (vector_resize False (unat (packet_u16 ?wp 10)) (unpack_bits (drop 13 ?wp)))) =
      [0, 2, 0, 0, 0, 4, 17, 1, 1, 2]"
    by code_simp
  with coils_written_are_read [OF sample_platform_ok sample_table_inv w, of ?rp]
  show ?thesis by (simp add: packet_u16_def)
qed

text \<open>
  C11: a function the server does not support is answered with exception code 1 and changes
  nothing. The function byte of that reply is the request's with the top bit set only for
  bytes up to 0x2B; every other byte is answered with 0x80, so the client cannot tell which
  function was refused.
\<close>

theorem handle_unsupported:
  assumes "platform_ok P" "table_inv T" "8 \<le> length p" "p ! 7 \<notin> set supported_bytes"
  shows "handle P p T =
     (Ok (adu_packet (packet_u16 p 0) (p ! 6) (error_function_byte (p ! 7)) [0x01]), T) \<and>
    (error_function_byte (p ! 7) = p ! 7 + 0x80 \<longleftrightarrow> p ! 7 < 0x2C)"
proof
  have "spec_request p (table_image T) = Fail illegal_function"
    using assms(4) by (simp add: supported_bytes_def spec_request_def)
  from handle_fail [OF assms(1-3) this] show "handle P p T =
     (Ok (adu_packet (packet_u16 p 0) (p ! 6) (error_function_byte (p ! 7)) [0x01]), T)"
    by simp
  have "p ! 7 + 0x80 = 0x80 \<longleftrightarrow> p ! 7 = 0" by (rule add_cancel_left_left)
  then show "error_function_byte (p ! 7) = p ! 7 + 0x80 \<longleftrightarrow> p ! 7 < 0x2C"
    by (auto simp: error_function_byte_def check_function_def word_gt_0)
qed

theorem handle_unsupported_witness:
  "handle (sample_platform True) [0, 1, 0, 0, 0, 2, 17, 0x64] sample_table =
     (Ok [0, 1, 0, 0, 0, 3, 17, 0x80, 1], sample_table)"
proof -
  let ?p = "[0, 1, 0, 0, 0, 2, 17, 0x64] :: packet_t"
  have "adu_packet (packet_u16 ?p 0) (?p ! 6) (error_function_byte (?p ! 7)) [0x01] =
      [0, 1, 0, 0, 0, 3, 17, 0x80, 1]"
    by code_simp
  with handle_unsupported [OF sample_platform_ok sample_table_inv, of ?p True]
  show ?thesis by (simp add: supported_bytes_def)
qed

text \<open>
  C12: write single coil stores the value of the request, and the value field of its reply is
  the value the coil had before, not the value written: the encoder reads the coil first.
\<close>

theorem write_single_coil_replies_old_value:
  assumes "platform_ok P" "table_inv T" "12 \<le> length p" "p ! 7 = 0x05"
    and "packet_u16 p 10 = 0 \<or> packet_u16 p 10 = 0xFF00"
    and "im_coils (table_image T) (unat (packet_u16 p 8)) = Some old"
  shows "fst (handle P p T) = Ok (adu_packet (packet_u16 p 0) (p ! 6) 0x05
           (u16_bytes (packet_u16 p 8) @ u16_bytes (if old then 0xFF00 else 0))) \<and>
    im_coils (table_image (snd (handle P p T))) (unat (packet_u16 p 8)) =
      Some (packet_u16 p 10 = 0xFF00)"
proof -
  let ?a = "unat (packet_u16 p 8)" and ?v = "packet_u16 p 10 = 0xFF00"
  have "spec_request p (table_image T) =
      Reply (u16_bytes (packet_u16 p 8) @ u16_bytes (if old then 0xFF00 else 0))
        ((table_image T)\<lparr>im_coils := put_cells (im_coils (table_image T)) ?a [?v]\<rparr>)"
    using assms(3-6)
    by (auto simp: spec_request_def spec_write_single_coil_def Let_def simp del: table_image_simps)
  note h = handle_reply [OF assms(1,2) _ this]
  from assms(3,4) h(1) have "fst (handle P p T) = Ok (adu_packet (packet_u16 p 0) (p ! 6) 0x05
      (u16_bytes (packet_u16 p 8) @ u16_bytes (if old then 0xFF00 else 0)))"
    by simp
  moreover have "im_coils (table_image (snd (handle P p T))) ?a = Some ?v"
    using assms(3) by (subst h(2)) (simp_all add: put_cells_def)
  ultimately show ?thesis by blast
qed

theorem write_single_coil_replies_old_value_witness:
  "fst (handle (sample_platform True) [0, 1, 0, 0, 0, 6, 17, 5, 0, 16, 0, 0] sample_table) =
     Ok [0, 1, 0, 0, 0, 6, 17, 5, 0, 16, 0xFF, 0]"
proof -
  let ?p = "[0, 1, 0, 0, 0, 6, 17, 5, 0, 16, 0, 0] :: packet_t"
  have a: "packet_u16 ?p 10 = 0" by code_simp
  have o: "im_coils (table_image sample_table) (unat (packet_u16 ?p 8)) = Some True"
    by code_simp
  have "adu_packet (packet_u16 ?p 0) (?p ! 6) 0x05
      (u16_bytes (packet_u16 ?p 8) @ u16_bytes (if True then 0xFF00 else 0)) =
      [0, 1, 0, 0, 0, 6, 17, 5, 0, 16, 0xFF, 0]"
    by code_simp
  with write_single_coil_replies_old_value [OF sample_platform_ok sample_table_inv _ _ _ o]
  show ?thesis using a by simp
qed

text \<open>
  C13: mask write register replaces the register by \<open>(current AND and_mask) OR or_mask\<close> and
  echoes the request. The Modbus specification masks the second operand with the complement
  of the first mask; the two agree exactly when no bit is set in both masks and clear in the
  register.
\<close>

theorem mask_write_result:
  assumes "platform_ok P" "table_inv T" "14 \<le> length p" "p ! 7 = 0x16"
    and "im_holding_registers (table_image T) (unat (packet_u16 p 8)) = Some cur"
  shows "fst (handle P p T) = Ok (adu_packet (packet_u16 p 0) (p ! 6) 0x16
        (u16_bytes (packet_u16 p 8) @ u16_bytes (packet_u16 p 10) @ u16_bytes (packet_u16 p 12))) \<and>
    im_holding_registers (table_image (snd (handle P p T))) (unat (packet_u16 p 8)) =
      Some (or (and cur (packet_u16 p 10)) (packet_u16 p 12)) \<and>
    (or (and cur (packet_u16 p 10)) (packet_u16 p 12) =
         or (and cur (packet_u16 p 10)) (and (packet_u16 p 12) (not (packet_u16 p 10))) \<longleftrightarrow>
       and (and (packet_u16 p 12) (packet_u16 p 10)) (not cur) = 0)"
proof (intro conjI)
  let ?a = "unat (packet_u16 p 8)"
  let ?v = "or (and cur (packet_u16 p 10)) (packet_u16 p 12)"
  have "spec_request p (table_image T) =
      Reply (u16_bytes (packet_u16 p 8) @ u16_bytes (packet_u16 p 10) @
             u16_bytes (packet_u16 p 12))
        ((table_image T)\<lparr>im_holding_registers :=
            put_cells (im_holding_registers (table_image T)) ?a [?v]\<rparr>)"
    using assms(3-5)
    by (simp add: spec_request_def spec_mask_write_register_def Let_def del: table_image_simps)
  note h = handle_reply [OF assms(1,2) _ this]
  from assms(3,4) h(1) show "fst (handle P p T) = Ok (adu_packet (packet_u16 p 0) (p ! 6) 0x16
        (u16_bytes (packet_u16 p 8) @ u16_bytes (packet_u16 p 10) @ u16_bytes (packet_u16 p 12)))"
    by simp
  show "im_holding_registers (table_image (snd (handle P p T))) ?a = Some ?v"
    using assms(3) by (subst h(2)) (simp_all add: put_cells_def)
  show "?v = or (and cur (packet_u16 p 10)) (and (packet_u16 p 12) (not (packet_u16 p 10))) \<longleftrightarrow>
       and (and (packet_u16 p 12) (packet_u16 p 10)) (not cur) = 0"
    by (auto simp: bit_eq_iff bit_simps)
qed

theorem mask_write_result_witness:
  "im_holding_registers (table_image (snd (handle (sample_platform True)
     [0, 1, 0, 0, 0, 8, 17, 0x16, 0, 16, 0, 5, 0, 8] sample_table))) 16 = Some 13"
proof -
  let ?p = "[0, 1, 0, 0, 0, 8, 17, 0x16, 0, 16, 0, 5, 0, 8] :: packet_t"
  have o: "im_holding_registers (table_image sample_table) (unat (packet_u16 ?p 8)) = Some 7"
    and "unat (packet_u16 ?p 8) = 16"
    and "or (and 7 (packet_u16 ?p 10)) (packet_u16 ?p 12) = 13"
    by code_simp+
  with mask_write_result [OF sample_platform_ok sample_table_inv _ _ o]
  show ?thesis by simp
qed

text \<open>
  C14: read/write multiple registers writes first: the registers in a normal reply are those
  of the table after the write, also where the two ranges overlap.
\<close>

theorem read_write_sees_write:
  assumes "platform_ok P" "table_inv T" "p ! 7 = 0x17"
    and "fst (handle P p T) = Ok r" "r ! 7 = 0x17" "r \<noteq> []"
  defines "im \<equiv> table_image (snd (handle P p T))"
  shows "r = adu_packet (packet_u16 p 0) (p ! 6) 0x17
      (word_of_nat (2 * unat (packet_u16 p 10)) #
       registers_bytes (cell_list (im_holding_registers im) (unat (packet_u16 p 8))
         (unat (packet_u16 p 10)))) \<and>
    cell_list (im_holding_registers im) (unat (packet_u16 p 12)) (unat (packet_u16 p 14)) =
      packet_registers p 17 (unat (packet_u16 p 14))"
proof -
  obtain body where b: "r = adu_packet (packet_u16 p 0) (p ! 6) (p ! 7) body"
      "spec_request p (table_image T) = Reply body im"
    unfolding im_def
    by (rule handle_replied [OF assms(1,2) _ assms(4) _ assms(6)])
      (use assms(3,5) in \<open>auto simp: supported_bytes_def\<close>)
  note rw = spec_read_write_replied [OF b(2) assms(3)]
  show ?thesis
    using b(1) assms(3) rw(1) cell_list_put_same [of _ "unat (packet_u16 p 12)"
        "packet_registers p 17 (unat (packet_u16 p 14))"]
    by (simp add: rw(2) del: table_image_simps)
qed

theorem read_write_sees_write_witness:
  "cell_list (im_holding_registers (table_image (snd (handle (sample_platform True)
      [0, 1, 0, 0, 0, 13, 17, 0x17, 0, 16, 0, 2, 0, 17, 0, 1, 2, 3, 4] sample_table)))) 17 1 =
     [0x0304]"
proof -
  let ?p = "[0, 1, 0, 0, 0, 13, 17, 0x17, 0, 16, 0, 2, 0, 17, 0, 1, 2, 3, 4] :: packet_t"
  have h: "fst (handle (sample_platform True) ?p sample_table) =
      Ok [0, 1, 0, 0, 0, 7, 17, 0x17, 4, 0, 7, 3, 4]"
    and v: "unat (packet_u16 ?p 12) = 17" "unat (packet_u16 ?p 14) = 1"
      "packet_registers ?p 17 1 = [0x0304]"
    by code_simp+
  from read_write_sees_write [OF sample_platform_ok sample_table_inv _ h]
  show ?thesis by (simp add: v del: One_nat_def)
qed

section \<open>The server\<close>

text \<open>A run of the server with one connection and one packet.\<close>

lemma sample_run:
  obtains S where "server_run (sample_platform True) (make_server sample_table)
      [Connect 1, Receive 1 [0, 1, 0, 0, 0, 6, 17, 3, 0, 16, 0, 2]] S"
proof -
  let ?S = "on_connect 1 (make_server sample_table)"
  have "srv_table ?S = sample_table"
    by (simp add: on_connect_def make_server_def add_effect_def Let_def)
  then obtain S' where "on_receive (sample_platform True) 1
      [0, 1, 0, 0, 0, 6, 17, 3, 0, 16, 0, 2] ?S = (Ok (), S')"
    using sample_read_reply
    by (cases "handle (sample_platform True) [0, 1, 0, 0, 0, 6, 17, 3, 0, 16, 0, 2] sample_table")
      (auto simp: on_receive_def Let_def)
  then show ?thesis
    using that server_run_two server_step.connect server_step.receive by blast
qed

text \<open>
  C15: the server keeps its invariant: from a table that satisfies the block invariant, in
  every run, whatever the order of connections, packets and rebinding of callbacks, the table
  satisfies it again, as long as the user callbacks keep it.
\<close>

theorem server_invariant:
  assumes "platform_ok P" "table_inv T" "server_run P (make_server T) es S"
    "list_all event_ok es"
  shows "table_inv (srv_table S)"
  using server_run_inv [OF assms(1,3) server_inv_make [OF assms(2)] assms(4)]
  by (simp add: server_inv_def)

theorem server_invariant_witness:
  "\<exists>S. server_run (sample_platform True) (make_server sample_table)
         [Connect 1, Receive 1 [0, 1, 0, 0, 0, 6, 17, 3, 0, 16, 0, 2]] S \<and>
       table_inv (srv_table S)"
proof -
  obtain S where r: "server_run (sample_platform True) (make_server sample_table)
      [Connect 1, Receive 1 [0, 1, 0, 0, 0, 6, 17, 3, 0, 16, 0, 2]] S"
    by (rule sample_run)
  from server_invariant [OF sample_platform_ok sample_table_inv r] r
  show ?thesis by (auto simp: event_ok_def)
qed

text \<open>
  C16: every session gets exactly the answers to its own requests, in order: in every run,
  the packets sent to a session correspond one to one to those packets received from it that
  have a function byte, each an answer to its request (same transaction and unit, function
  byte repeated or flagged, a correct length field, at most the maximal ADU size); the shorter
  packets received get no reply at all.
\<close>

theorem server_answers_in_order:
  assumes "platform_ok P" "table_inv T" "server_run P (make_server T) es S"
    "list_all event_ok es"
  shows "list_all2 answers (requests_of s es) (replies_to s (srv_effects S))"
  using server_run_replies [OF assms(1,3) server_inv_make [OF assms(2)] assms(4), of s]
  by (auto simp: make_server_def)

theorem server_answers_in_order_witness:
  "\<exists>S r. server_run (sample_platform True) (make_server sample_table)
      [Connect 1, Receive 1 [0, 1, 0, 0, 0, 6, 17, 3, 0, 16, 0, 2]] S \<and>
    replies_to 1 (srv_effects S) = [r] \<and> answers [0, 1, 0, 0, 0, 6, 17, 3, 0, 16, 0, 2] r"
proof -
  let ?p = "[0, 1, 0, 0, 0, 6, 17, 3, 0, 16, 0, 2] :: packet_t"
  obtain S where r: "server_run (sample_platform True) (make_server sample_table)
      [Connect 1, Receive 1 ?p] S"
    by (rule sample_run)
  have "requests_of 1 [Connect 1, Receive 1 ?p] = [?p]" by (simp add: requests_of_def)
  with server_answers_in_order [OF sample_platform_ok sample_table_inv r, of 1] r
  show ?thesis by (auto simp: event_ok_def list_all2_Cons1)
qed

text \<open>
  C17: the server never gets stuck on a complete packet: in every reachable state, a packet
  that is not shorter than the fields of its function is received without undefined behaviour
  and without an exception that would leave the callback.
\<close>

theorem server_receives_complete:
  assumes "platform_ok P" "table_inv T" "server_run P (make_server T) es S"
    "list_all event_ok es" "p ! 7 \<in> set supported_bytes \<Longrightarrow> request_extent p \<le> length p"
  shows "\<exists>S'. server_step P S (Receive s p) S'"
proof -
  have i: "table_inv (srv_table S)"
    using server_run_inv [OF assms(1,3) server_inv_make [OF assms(2)] assms(4)]
    by (simp add: server_inv_def)
  have "\<exists>r T'. handle P p (srv_table S) = (Ok r, T')"
    using assms(5) spec_overread_iff [of p "table_image (srv_table S)"]
    by (cases rule: handle_cases [OF assms(1) i, of p]) auto
  then show ?thesis by (auto simp: server_step_receive on_receive_ok)
qed

theorem server_receives_complete_witness:
  "\<exists>S'. server_step (sample_platform True) (make_server sample_table)
     (Receive 1 [0, 1, 0, 0, 0, 6, 17, 3, 0, 16, 0, 2]) S'"
  by (rule server_receives_complete [OF sample_platform_ok sample_table_inv server_run.initial])
    (simp_all add: request_extent_def)

text \<open>
  C40: a run is one sequence of requests: over any run without user callbacks, the final table
  and the packets sent are those of serving the received packets one after the other in the
  order of their arrival, whatever their sessions and whatever connects or disconnects between.
\<close>

theorem server_is_sequential:
  assumes "platform_ok P" "table_inv T" "server_run P (make_server T) es S"
    "list_all plain_event es"
  shows "srv_table S = snd (serve_all P (received es) T) \<and>
    filter is_send (srv_effects S) = fst (serve_all P (received es) T)"
  using server_run_serves [OF assms(1,3) _ assms(4)] assms(2)
  by (simp add: plain_server_def make_server_def)

theorem server_is_sequential_witness:
  "\<exists>S. server_run (sample_platform True) (make_server sample_table)
         [Connect 1, Receive 1 [0, 1, 0, 0, 0, 6, 17, 3, 0, 16, 0, 2]] S \<and>
       filter is_send (srv_effects S) = [Send 1 [0, 1, 0, 0, 0, 7, 17, 3, 4, 0, 7, 0, 7]]"
proof -
  obtain S where r: "server_run (sample_platform True) (make_server sample_table)
      [Connect 1, Receive 1 [0, 1, 0, 0, 0, 6, 17, 3, 0, 16, 0, 2]] S"
    by (rule sample_run)
  from server_is_sequential [OF sample_platform_ok sample_table_inv r] r sample_read_reply
  show ?thesis
    by (cases "handle (sample_platform True) [0, 1, 0, 0, 0, 6, 17, 3, 0, 16, 0, 2] sample_table")
      (auto simp: plain_event_def received_def)
qed

section \<open>The server with its threads\<close>

text \<open>
  C22: sessions are served in parallel, and none is disturbed by the others. In every run of the
  server with any number of callbacks under way, whose table accesses interleave with each other
  and with those of user callbacks that keep the invariant and the extents, the table is one that
  requests can find; every packet sent to a session answers a packet of that session, is the
  reply that packet would get alone on the first table up to values it reads, and no packet is
  answered twice. If the library starts the callbacks of a session one after the other, the
  answers are in order and at most one is missing.
\<close>

theorem concurrent_server_answers:
  assumes "platform_ok P" "table_inv T" "cs_run P serial (make_concurrent_server T) es C"
    "list_all (cs_event_ok T) es"
  shows "table_like T (cs_table C) \<and>
    (\<exists>ps. list_all2 (reply_ok P T) ps (replies_to s (cs_effects C)) \<and>
       (let requests = filter has_function (cs_received s es)
        in mset ps \<subseteq># mset requests \<and>
           (serial \<longrightarrow> ps = take (length ps) requests \<and> length requests \<le> length ps + 1)))"
proof
  show "table_like T (cs_table C)"
    using cs_run_ok [OF assms(1-3) make_concurrent_server_ok [OF assms(2)] assms(4)]
    by (simp add: cs_ok_def)
  obtain ps where ps: "list_all2 (reply_ok P T) ps (replies_to s (cs_effects C))"
    "mset (filter has_function (cs_received s es)) =
       mset ps + mset (filter has_function (outstanding s (cs_tasks C)))"
    "serial \<Longrightarrow> filter has_function (cs_received s es) =
       ps @ filter has_function (outstanding s (cs_tasks C)) \<and> length (outstanding s (cs_tasks C)) \<le> 1"
    using cs_run_session_inv [OF assms(1-3) make_concurrent_server_ok [OF assms(2)] assms(4)
        session_inv_start, of s]
    by (auto simp: session_inv_def Let_def)
  have "length (filter has_function (outstanding s (cs_tasks C))) \<le> 1" if serial
    using ps(3) [OF that] length_filter_le order.trans by blast
  with ps show "\<exists>ps. list_all2 (reply_ok P T) ps (replies_to s (cs_effects C)) \<and>
       (let requests = filter has_function (cs_received s es)
        in mset ps \<subseteq># mset requests \<and>
           (serial \<longrightarrow> ps = take (length ps) requests \<and> length requests \<le> length ps + 1))"
    by (intro exI [of _ ps]) (auto simp: Let_def)
qed

theorem concurrent_server_answers_witness:
  "\<exists>C. cs_run (sample_platform True) True (make_concurrent_server sample_table)
         [Cs_receive 1 [0, 1, 0, 0, 0, 6, 17, 3, 0, 16, 0, 2]] C \<and>
       replies_to 1 (cs_effects C) = [[0, 1, 0, 0, 0, 7, 17, 3, 4, 0, 7, 0, 7]] \<and>
       table_like sample_table (cs_table C)"
proof -
  let ?p = "[0, 1, 0, 0, 0, 6, 17, 3, 0, 16, 0, 2] :: packet_t"
  let ?C = "make_concurrent_server sample_table"
  have c: "cs_tasks ?C = []" "cs_table ?C = sample_table" "cs_effects ?C = []"
    by (simp_all add: make_concurrent_server_def)
  obtain T where "handle (sample_platform True) ?p (cs_table ?C) =
      (Ok [0, 1, 0, 0, 0, 7, 17, 3, 4, 0, 7, 0, 7], T)"
    using sample_read_reply c by (metis prod.collapse)
  from receive_matched [OF c(1) this, of True 1]
  have run: "cs_run (sample_platform True) True ?C [Cs_receive 1 ?p]
      (cs_effect (Send 1 [0, 1, 0, 0, 0, 7, 17, 3, 4, 0, 7, 0, 7]) (?C\<lparr>cs_table := T\<rparr>))"
    by simp
  from concurrent_server_answers [OF sample_platform_ok sample_table_inv run, of 1] run
  show ?thesis by (intro exI conjI) (auto simp: cs_event_ok_def c replies_to_def)
qed

text \<open>
  C23: the server with threads always gets done: from every state it can reach by complete
  packets, it can go on until no callback is under way, and then every packet has been answered
  exactly once; in the order of arrival, if the callbacks of a session do not overlap.
\<close>

theorem concurrent_server_completes:
  assumes "platform_ok P" "table_inv T" "cs_run P serial (make_concurrent_server T) es C"
    "list_all (cs_event_ok T) es" "\<forall>s. \<forall>p \<in> set (cs_received s es). complete p"
  shows "\<exists>C'. cs_run P serial C [] C' \<and> cs_tasks C' = [] \<and>
    (\<forall>s. \<exists>ps. list_all2 (reply_ok P T) ps (replies_to s (cs_effects C')) \<and>
       (let requests = filter has_function (cs_received s es)
        in mset ps = mset requests \<and> (serial \<longrightarrow> ps = requests)))"
proof -
  note start = make_concurrent_server_ok [OF assms(2), of P]
  have inv: "session_inv P T serial s es C" for s
    by (rule cs_run_session_inv [OF assms(1-3) start assms(4) session_inv_start])
  obtain C' where C': "cs_run P serial C [] C'" "cs_tasks C' = []"
    using cs_drains [OF assms(1,2) cs_run_ok [OF assms(1-3) start assms(4)]
        outstanding_complete [OF inv assms(5)]] by blast
  have "cs_run P serial (make_concurrent_server T) es C'"
    using cs_run_trans [OF C'(1) assms(3)] by simp
  then have "session_inv P T serial s es C'" for s
    by (rule cs_run_session_inv [OF assms(1,2) _ start assms(4) session_inv_start])
  with C' show ?thesis by (intro exI [of _ C']) (fastforce simp: session_inv_def Let_def)
qed

theorem concurrent_server_completes_witness:
  "\<exists>C C'. cs_run (sample_platform True) False (make_concurrent_server sample_table)
         [Cs_receive 1 [0, 1, 0, 0, 0, 6, 17, 3, 0, 16, 0, 2],
          Cs_receive 1 [0, 2, 0, 0, 0, 6, 17, 6, 0, 16, 0, 9]] C \<and> length (cs_tasks C) = 2 \<and>
       cs_run (sample_platform True) False C [] C' \<and> length (replies_to 1 (cs_effects C')) = 2"
proof -
  let ?P = "sample_platform True"
  let ?p = "[0, 1, 0, 0, 0, 6, 17, 3, 0, 16, 0, 2] :: packet_t"
  let ?q = "[0, 2, 0, 0, 0, 6, 17, 6, 0, 16, 0, 9] :: packet_t"
  let ?C = "make_concurrent_server sample_table"
  let ?D = "start_task (Handling 1 ?q (handle_program ?P ?q))
    (start_task (Handling 1 ?p (handle_program ?P ?p)) ?C)"
  have "cs_run ?P False ?C ([Cs_receive 1 ?p] @ [Cs_receive 1 ?q]) ?D"
    by (rule cs_run_trans; rule cs_run_step; rule cs_receive) simp_all
  then have run: "cs_run ?P False ?C [Cs_receive 1 ?p, Cs_receive 1 ?q] ?D" by simp
  have all: "\<forall>s. \<forall>p \<in> set (cs_received s [Cs_receive 1 ?p, Cs_receive 1 ?q]). complete p"
    by (auto simp: cs_received_def complete_def request_extent_def split: if_splits)
  have "list_all (cs_event_ok sample_table) [Cs_receive 1 ?p, Cs_receive 1 ?q]"
    by (simp add: cs_event_ok_def)
  from concurrent_server_completes [OF sample_platform_ok sample_table_inv run this all]
  obtain C' where C': "cs_run ?P False ?D [] C'"
    "\<forall>s. \<exists>ps. list_all2 (reply_ok ?P sample_table) ps (replies_to s (cs_effects C')) \<and>
       mset ps = mset (filter has_function (cs_received s [Cs_receive 1 ?p, Cs_receive 1 ?q]))"
    unfolding Let_def by blast
  from C'(2) obtain ps where "list_all2 (reply_ok ?P sample_table) ps (replies_to 1 (cs_effects C'))"
    "mset ps = mset (filter has_function (cs_received 1 [Cs_receive 1 ?p, Cs_receive 1 ?q]))"
    by blast
  then have "length (replies_to 1 (cs_effects C')) = 2"
    by (auto dest!: list_all2_lengthD arg_cong [of "mset ps" _ size] simp: cs_received_def has_function_def)
  moreover have "length (cs_tasks ?D) = 2" by (simp add: make_concurrent_server_def)
  ultimately show ?thesis using run C'(1) by blast
qed

text \<open>
  C24: the server that takes one event at a time is a special case of the one with threads: each
  of its runs is a run of the latter that starts and ends with no callback under way, with the
  same table and the same effects, whether callbacks of a session may overlap or not.
\<close>

theorem one_at_a_time:
  assumes "server_run P S es S'"
  shows "cs_run P serial (idle_server S) (concat (map cs_events es)) (idle_server S')"
  using threads.run_matched [OF assms refl] by simp

theorem one_at_a_time_witness:
  "\<exists>S. cs_run (sample_platform True) False (idle_server (make_server sample_table))
         [Cs_connect 1, Cs_receive 1 [0, 1, 0, 0, 0, 6, 17, 3, 0, 16, 0, 2]] (idle_server S)"
proof -
  obtain S where r: "server_run (sample_platform True) (make_server sample_table)
      [Connect 1, Receive 1 [0, 1, 0, 0, 0, 6, 17, 3, 0, 16, 0, 2]] S"
    by (rule sample_run)
  from one_at_a_time [OF this, of False] show ?thesis by (auto simp: cs_events_def)
qed

section \<open>Concurrent reads\<close>

text \<open>
  C18: nothing worse happens: in every interleaving of any requests, down to the single elements
  of range reads and writes, a read request of cells that exist that has finished got a normal
  reply with as many values as it asked for, and each value was in its own cell at some moment of
  the run. So a reader in the middle of a \<open>set\<close> sees old values and new ones, but no others, and
  it never leaves the container.
\<close>

theorem concurrent_read_values:
  assumes "platform_ok P" "table_inv T" "pool_trace (T, request_pool P ps) Ts (T', qs)"
    and "i < length ps" "ps ! i = p" "unat (packet_u16 p 10) = n" "qs ! i = Done x"
  shows "(\<forall>(f, area) \<in> {(0x03, holding_registers), (0x04, input_registers)}.
      reads_cells area f 125 T p \<longrightarrow>
      (\<exists>vs. x = Ok (adu_packet (packet_u16 p 0) (p ! 6) f
          (word_of_nat (2 * n) # registers_bytes vs)) \<and>
        length vs = n \<and> seen_at area (set Ts) (unat (packet_u16 p 8)) vs)) \<and>
    (\<forall>(f, area) \<in> {(0x01, coils), (0x02, discrete_inputs)}.
      reads_cells area f 2000 T p \<longrightarrow>
      (\<exists>vs. x = Ok (adu_packet (packet_u16 p 0) (p ! 6) f
          (word_of_nat ((n + 7) div 8) # pack_bits vs)) \<and>
        length vs = n \<and> seen_at area (set Ts) (unat (packet_u16 p 8)) vs))"
proof -
  note seen = assms(1-4,7,5)
  have "\<exists>vs. x = Ok (adu_packet (packet_u16 p 0) (p ! 6) f
      (word_of_nat (2 * n) # registers_bytes vs)) \<and>
      length vs = n \<and> seen_at area (set Ts) (unat (packet_u16 p 8)) vs"
    if "(f, area) \<in> {(0x03, holding_registers), (0x04, input_registers)}"
      "reads_cells area f 125 T p" for f area
    using trace_registers_seen [OF seen that] by (simp only: assms(6))
  moreover have "\<exists>vs. x = Ok (adu_packet (packet_u16 p 0) (p ! 6) f
      (word_of_nat ((n + 7) div 8) # pack_bits vs)) \<and>
      length vs = n \<and> seen_at area (set Ts) (unat (packet_u16 p 8)) vs"
    if "(f, area) \<in> {(0x01, coils), (0x02, discrete_inputs)}"
      "reads_cells area f 2000 T p" for f area
    using trace_bits_seen [OF seen that] by (simp only: assms(6))
  ultimately show ?thesis by blast
qed

theorem concurrent_read_values_witness:
  "\<exists>T' Ts x vs. pool_trace
      (sample_table, request_pool (sample_platform True)
         [[0, 1, 0, 0, 0, 11, 17, 16, 0, 16, 0, 2, 4, 0, 1, 0, 2],
          [0, 2, 0, 0, 0, 6, 17, 3, 0, 16, 0, 2]])
      Ts (T', [x, Done (Ok (adu_packet 2 17 3 (4 # registers_bytes vs)))]) \<and>
    length vs = 2 \<and> seen_at holding_registers (set Ts) 16 vs"
proof -
  let ?P = "sample_platform True"
  let ?p = "[0, 1, 0, 0, 0, 11, 17, 16, 0, 16, 0, 2, 4, 0, 1, 0, 2] :: packet_t"
  let ?q = "[0, 2, 0, 0, 0, 6, 17, 3, 0, 16, 0, 2] :: packet_t"
  obtain x y T' where all: "handle_all ?P [?p, ?q] sample_table = ([x, y], T')"
    by (cases "handle ?P ?p sample_table", cases "handle ?P ?q (snd (handle ?P ?p sample_table))")
      auto
  have "pool_steps (sample_table, request_pool ?P [?p, ?q]) (T', [Done x, Done y])"
    using requests_in_order [of sample_table ?P "[?p, ?q]"] by (simp only: all) simp
  then obtain Ts where run:
    "pool_trace (sample_table, request_pool ?P [?p, ?q]) Ts (T', [Done x, Done y])"
    using pool_steps_trace by blast
  have q: "[?p, ?q] ! 1 = ?q" "unat (packet_u16 ?q 10) = 2" "packet_u16 ?q 0 = 2" "?q ! 6 = 17"
    "unat (packet_u16 ?q 8) = 16" "reads_cells holding_registers 0x03 125 sample_table ?q"
    by code_simp+
  have "(0x03, holding_registers) \<in> {(0x03, holding_registers), (0x04, input_registers)}" by simp
  with concurrent_read_values [OF sample_platform_ok [of True] sample_table_inv run _ q(1,2)] q(6)
  obtain vs where "y = Ok (adu_packet (packet_u16 ?q 0) (?q ! 6) 0x03
      (word_of_nat (2 * 2) # registers_bytes vs))"
    "length vs = 2" "seen_at holding_registers (set Ts) (unat (packet_u16 ?q 8)) vs"
    by fastforce
  with run q(3-5) show ?thesis by auto
qed

section \<open>Concurrent requests\<close>

text \<open>
  C7: requests that run concurrently do not disturb each other beyond the values they read:
  however the table accesses of any number of requests interleave, down to the single elements
  of range reads and writes, the table keeps its
  invariant, its extents and its read-only areas; and every request that has finished ended
  as it would have alone on the first table: with the same exception reply, the same silence
  or over-read, or with a normal reply of the same length and the same first eight bytes.
\<close>

theorem concurrent_requests_safe:
  assumes "platform_ok P" "table_inv T" "pool_steps (T, request_pool P ps) (T', qs)"
  shows "table_like T T' \<and> read_only_kept T T' \<and> length qs = length ps \<and>
    (\<forall>i < length ps. \<forall>x. qs ! i = Done x \<longrightarrow> same_but_values (ps ! i) (fst (handle P (ps ! i) T)) x)"
  using request_pool_guarantees
      [OF handle_program_guarantees [OF assms(1,2)] table_like_refl [OF assms(2)] assms(3)]
    request_pool_guarantees [OF handle_program_read_only _ assms(3), of T]
  by (auto simp: read_only_kept_def)

theorem concurrent_requests_safe_witness:
  "\<exists>T' x y. pool_steps
      (sample_table, request_pool (sample_platform True)
         [[0, 1, 0, 0, 0, 6, 17, 6, 0, 16, 0, 9], [0, 2, 0, 0, 0, 6, 17, 3, 0, 16, 0, 2]])
      (T', [Done x, Done y]) \<and> table_inv T' \<and>
    same_but_values [0, 2, 0, 0, 0, 6, 17, 3, 0, 16, 0, 2]
      (Ok [0, 2, 0, 0, 0, 7, 17, 3, 4, 0, 7, 0, 7]) y"
proof -
  let ?P = "sample_platform True"
  let ?p = "[0, 1, 0, 0, 0, 6, 17, 6, 0, 16, 0, 9] :: packet_t"
  let ?q = "[0, 2, 0, 0, 0, 6, 17, 3, 0, 16, 0, 2] :: packet_t"
  obtain x y T' where all: "handle_all ?P [?p, ?q] sample_table = ([x, y], T')"
    by (cases "handle ?P ?p sample_table", cases "handle ?P ?q (snd (handle ?P ?p sample_table))")
      auto
  have run: "pool_steps (sample_table, request_pool ?P [?p, ?q]) (T', [Done x, Done y])"
    using requests_in_order [of sample_table ?P "[?p, ?q]"] by (simp only: all) simp
  have "fst (handle ?P ?q sample_table) = Ok [0, 2, 0, 0, 0, 7, 17, 3, 4, 0, 7, 0, 7]"
    by code_simp
  with concurrent_requests_safe [OF sample_platform_ok [of True] sample_table_inv run] run
  show ?thesis by (intro exI conjI) (auto dest: table_likeD(1) simp: less_Suc_eq)
qed

text \<open>
  C37: a read of several registers is not atomic against another request: the lock of the block
  is released before the elements are read. Whatever a request \<open>w\<close> does (a write of the same
  registers, say), it can be served as a whole after the first \<open>k\<close> registers of a read, for
  every \<open>k\<close>; the reply to the read then has the first \<open>k\<close> registers from before \<open>w\<close> and the
  others from after it, although no moment of the run has that content.
\<close>

theorem read_overtaken_by_request:
  assumes "platform_ok P" "table_inv T" "registers_request T p" "k \<le> unat (packet_u16 p 10)"
    and "handle P w T = (x, T1)"
  shows "\<exists>T'. pool_steps (T, request_pool P [p, w])
    (T', [Done (Ok (registers_reply p (take k (registers_at T p) @ drop k (registers_at T1 p)))),
          Done x])"
proof -
  obtain R where R: "pool_steps (T, [handle_program P p]) (T, [R])"
    "\<And>T'. table_like T T' \<Longrightarrow> fst (run_prog R T') =
       Ok (registers_reply p (take k (registers_at T p) @ drop k (registers_at T' p)))"
    by (rule request_overtaken [OF assms(1-4)]) (rule that)
  have like: "table_like T T1"
    using guarantees_run [OF handle_program_guarantees [OF assms(1,2)] table_like_refl [OF assms(2)], of w]
    by (simp add: run_handle_program assms(5))
  have "pool_steps (T, request_pool P [p, w]) (T, [R, handle_program P w])"
    using pool_steps_context [OF R(1), of "[]" "[handle_program P w]"] by (simp add: request_pool_def)
  also have "pool_steps (T, [R, handle_program P w]) (T1, [R, Done x])"
    using pool_runs_one [of T "[R]" "handle_program P w" "[]"] by (simp add: run_handle_program assms(5))
  also have "pool_steps (T1, [R, Done x]) (snd (run_prog R T1), [Done (fst (run_prog R T1)), Done x])"
    using pool_runs_one [of T1 "[]" R "[Done x]"] by simp
  finally show ?thesis using R(2) [OF like] by auto
qed

theorem read_overtaken_by_request_witness:
  "\<exists>T' y. pool_steps
      (sample_table, request_pool (sample_platform True)
         [[0, 1, 0, 0, 0, 6, 17, 3, 0, 16, 0, 2],
          [0, 2, 0, 0, 0, 11, 17, 0x10, 0, 16, 0, 2, 4, 0, 1, 0, 2]])
      (T', [Done (Ok [0, 1, 0, 0, 0, 7, 17, 3, 4, 0, 7, 0, 2]), Done y])"
proof -
  let ?P = "sample_platform True"
  let ?p = "[0, 1, 0, 0, 0, 6, 17, 3, 0, 16, 0, 2] :: packet_t"
  let ?w = "[0, 2, 0, 0, 0, 11, 17, 0x10, 0, 16, 0, 2, 4, 0, 1, 0, 2] :: packet_t"
  let ?T = "snd (handle ?P ?w sample_table)"
  have "registers_request sample_table ?p" "1 \<le> unat (packet_u16 ?p 10)"
    "registers_reply ?p (take 1 (registers_at sample_table ?p) @ drop 1 (registers_at ?T ?p)) =
       [0, 1, 0, 0, 0, 7, 17, 3, 4, 0, 7, 0, 2]"
    by code_simp+
  with read_overtaken_by_request [OF sample_platform_ok [of True] sample_table_inv,
      of ?p 1 ?w "fst (handle ?P ?w sample_table)" ?T]
  show ?thesis by auto
qed

text \<open>
  C34: the server gets done, with the locks of the blocks. Each request takes a block's mutex for
  every \<open>get\<close> and \<open>set\<close> and waits while another holds it. It makes at most 4002 accesses to the
  table and four lock operations, so every run of requests is finite; there is no deadlock: as
  long as a request is unfinished, one of them can go on; when all are finished no mutex is
  held; every run can be completed; and what it does to the table and answers is a run of the
  pools without locks, so that C7, C18, C19 and C20 hold for it.
\<close>

theorem concurrent_requests_finish:
  assumes "platform_ok P" "(locked_step ^^ n) (locked_requests P ps T) c"
  shows "n \<le> 4006 * length ps \<and>
    (\<not> locked_done c \<longrightarrow> (\<exists>d. locked_step c d)) \<and>
    (locked_done c \<longrightarrow> fst c = Map.empty) \<and>
    (\<exists>d. locked_steps c d \<and> locked_done d) \<and>
    pool_steps (T, request_pool P ps) (unlocked_pool c)"
proof (intro conjI impI)
  have w: "list_all2 sync_within (replicate (length ps) 4006) (snd (snd (locked_requests P ps T)))"
    by (rule locked_requests_within [OF assms(1)])
  have run: "locked_steps (locked_requests P ps T) c" by (rule relpowp_imp_rtranclp [OF assms(2)])
  then have held: "locks_held c" by (rule locked_steps_held [OF _ locked_requests_held])
  show "n \<le> 4006 * length ps"
    using locked_steps_within [OF assms(2) w] by (auto simp: sum_list_replicate)
  show "\<exists>d. locked_step c d" if "\<not> locked_done c" by (rule locked_progress [OF held that])
  show "fst c = Map.empty" if "locked_done c" by (rule locked_done_free [OF held that])
  show "\<exists>d. locked_steps c d \<and> locked_done d"
    using locked_terminates [OF _ held] locked_steps_within [OF assms(2) w] by blast
  show "pool_steps (T, request_pool P ps) (unlocked_pool c)"
    using locked_steps_unlocked [OF run] by (simp add: unlocked_requests)
qed

theorem concurrent_requests_finish_witness:
  "\<exists>d. locked_steps
      (locked_requests (sample_platform True)
         [[0, 1, 0, 0, 0, 6, 17, 6, 0, 16, 0, 9], [0, 2, 0, 0, 0, 6, 17, 3, 0, 16, 0, 2]]
         sample_table) d \<and>
    locked_done d"
  using concurrent_requests_finish [OF sample_platform_ok [of True], of 0
      "[[0, 1, 0, 0, 0, 6, 17, 6, 0, 16, 0, 9], [0, 2, 0, 0, 0, 6, 17, 3, 0, 16, 0, 2]]"
      sample_table] by simp

text \<open>
  C20: requests that do not write are served concurrently as if each had the server for
  itself: in every interleaving of packets whose function is no writing one (or that are too
  short to have one), the table stays as it is, and every request that has finished ended
  exactly as \<open>handle\<close> does.
\<close>

theorem concurrent_reads_agree:
  assumes "\<forall>p \<in> set ps. reading_request p" "pool_steps (T, request_pool P ps) (T', qs)"
  shows "T' = T \<and> length qs = length ps \<and>
    (\<forall>i < length ps. \<forall>x. qs ! i = Done x \<longrightarrow> x = fst (handle P (ps ! i) T))"
proof (rule request_pool_guarantees [OF _ refl assms(2)])
  fix p assume "p \<in> set ps"
  with assms(1) show "guarantees (\<lambda>s. s = T) (\<lambda>x. x = fst (handle P p T)) (handle_program P p)"
    using only_reads_guarantees [OF handle_program_only_reads [of p P], of T]
    by (simp add: run_handle_program)
qed

theorem concurrent_reads_agree_witness:
  "\<exists>x. pool_steps
      (sample_table, request_pool (sample_platform True)
         [[0, 1, 0, 0, 0, 6, 17, 3, 0, 16, 0, 2], [0, 2, 0, 0, 0, 6, 17, 4, 0, 0, 0, 1]])
      (sample_table, [Done (Ok [0, 1, 0, 0, 0, 7, 17, 3, 4, 0, 7, 0, 7]), Done x])"
proof -
  let ?P = "sample_platform True"
  let ?p = "[0, 1, 0, 0, 0, 6, 17, 3, 0, 16, 0, 2] :: packet_t"
  let ?q = "[0, 2, 0, 0, 0, 6, 17, 4, 0, 0, 0, 1] :: packet_t"
  obtain x y T' where all: "handle_all ?P [?p, ?q] sample_table = ([x, y], T')"
    by (cases "handle ?P ?p sample_table", cases "handle ?P ?q (snd (handle ?P ?p sample_table))")
      auto
  have run: "pool_steps (sample_table, request_pool ?P [?p, ?q]) (T', [Done x, Done y])"
    using requests_in_order [of sample_table ?P "[?p, ?q]"] by (simp only: all) simp
  have "\<forall>p \<in> set [?p, ?q]. reading_request p" by (simp add: reading_request_def)
  from concurrent_reads_agree [OF this run] run show ?thesis
    by (auto simp: less_Suc_eq sample_read_reply)
qed

text \<open>
  C19: what two concurrent mask writes of one register can do: both requests get the reply
  that echoes them, and the register can end with both masks applied, in either order, but
  also with one of them alone, because the get and the set of a request are two accesses and
  the other's may come between them; nothing else can come out.
\<close>

theorem mask_requests_outcomes:
  assumes "platform_ok P" "table_inv T" "mask_request T p1" "mask_request T p2"
    and "packet_u16 p2 8 = packet_u16 p1 8"
  defines "x \<equiv> register_of T p1"
  shows "(\<forall>T' qs. pool_steps (T, request_pool P [p1, p2]) (T', qs) \<and> pool_done qs \<longrightarrow>
        qs = [Done (Ok (mask_reply p1)), Done (Ok (mask_reply p2))]) \<and>
    ((\<exists>T'. pool_steps (T, request_pool P [p1, p2])
        (T', [Done (Ok (mask_reply p1)), Done (Ok (mask_reply p2))]) \<and> register_of T' p1 = v) \<longleftrightarrow>
      v \<in> {mask_value (job_of p1) x, mask_value (job_of p2) x,
           mask_value (job_of p2) (mask_value (job_of p1) x),
           mask_value (job_of p1) (mask_value (job_of p2) x)})"
    (is "?replies \<and> (?run \<longleftrightarrow> ?result)")
proof (intro conjI iffI)
  show ?replies using mask_pool_outcome(1) [OF assms(1-5)] by blast
next
  assume ?run
  then obtain T' where run: "pool_steps (T, request_pool P [p1, p2])
      (T', [Done (Ok (mask_reply p1)), Done (Ok (mask_reply p2))])" and v: "register_of T' p1 = v"
    by blast
  show ?result
    using mask_pool_outcome(2) [OF assms(1-5) run] by (simp add: pool_done_def x_def v)
next
  assume ?result
  then consider "v = mask_value (job_of p2) x \<or> v = mask_value (job_of p2) (mask_value (job_of p1) x)"
    | "v = mask_value (job_of p1) x \<or> v = mask_value (job_of p1) (mask_value (job_of p2) x)" by blast
  then show ?run
  proof cases
    case 1
    then show ?thesis by (rule mask_pool_runs [OF assms(1-5)]) (simp add: x_def)
  next
    case 2
    have x: "x = register_of T p2" using assms(5) by (simp add: x_def register_of_def)
    obtain T' where "pool_steps (T, request_pool P [p2, p1])
        (T', [Done (Ok (mask_reply p2)), Done (Ok (mask_reply p1))])" and v: "register_of T' p2 = v"
      using mask_pool_runs [OF assms(1,2,4,3) assms(5) [symmetric] 2 x] by blast
    from pool_steps_rev [OF this(1)] v assms(5) show ?thesis
      by (auto simp: request_pool_def register_of_def)
  qed
qed

theorem mask_requests_outcomes_witness:
  "\<exists>T'. pool_steps
      (sample_table, request_pool (sample_platform True)
         [[0, 1, 0, 0, 0, 8, 17, 0x16, 0, 16, 0, 0x0F, 0, 0x10],
          [0, 2, 0, 0, 0, 8, 17, 0x16, 0, 16, 0, 0x0F, 0, 0x20]])
      (T', [Done (Ok [0, 1, 0, 0, 0, 8, 17, 0x16, 0, 16, 0, 0x0F, 0, 0x10]),
            Done (Ok [0, 2, 0, 0, 0, 8, 17, 0x16, 0, 16, 0, 0x0F, 0, 0x20])]) \<and>
    cell_value (holding_registers T') (Metadata 16) = 0x27"
proof -
  let ?p = "[0, 1, 0, 0, 0, 8, 17, 0x16, 0, 16, 0, 0x0F, 0, 0x10] :: packet_t"
  let ?q = "[0, 2, 0, 0, 0, 8, 17, 0x16, 0, 16, 0, 0x0F, 0, 0x20] :: packet_t"
  have m: "mask_request sample_table ?p" "mask_request sample_table ?q" by code_simp+
  have a: "packet_u16 ?q 8 = packet_u16 ?p 8" "Metadata (packet_u16 ?p 8) = Metadata 16"
    by code_simp+
  have r: "mask_reply ?p = ?p" "mask_reply ?q = ?q" by code_simp+
  have "mask_value (job_of ?q) (register_of sample_table ?p) = 0x27" by code_simp
  with mask_requests_outcomes [OF sample_platform_ok [of True] sample_table_inv m a(1), of "0x27"]
  show ?thesis by (simp only: r register_of_def a(2) insert_iff simp_thms)
qed

end
